(* ===== verification/Prelude.thy ===== *)
theory Prelude
  imports Main "HOL-Library.Word"
begin

text \<open>
  What every component shares: the machine integers and byte strings of the Go code, its
  errors as values, byte slices (\<open>b[i:j]\<close>, \<open>copy\<close>, \<open>make\<close>) and the big-endian
  readers and writers of \<open>encoding/binary\<close>, with the lemmas that carry the codec proofs.
  The collection \<open>wire\<close> holds the rewrite rules for reading back a buffer that was filled
  field by field.
\<close>

unbundle bit_operations_syntax

named_theorems wire \<open>reading a buffer after writes to it\<close>

section \<open>Machine integers and byte strings\<close>

type_synonym u8 = "8 word"
type_synonym u16 = "16 word"
type_synonym u32 = "32 word"
type_synonym bytes = "8 word list"

text \<open>
  Signed 64-bit results (\<open>int64\<close>, \<open>time.Duration\<close>) are integers reduced to the range of
  an \<open>int64\<close>; \<open>quot\<close> and \<open>remn\<close> are Go's division and remainder, which truncate
  towards zero.
\<close>

definition wrap64 :: "int \<Rightarrow> int" where
  "wrap64 x = (x + 2 ^ 63) mod 2 ^ 64 - 2 ^ 63"

definition quot :: "int \<Rightarrow> int \<Rightarrow> int" where
  "quot a b = sgn a * sgn b * (\<bar>a\<bar> div \<bar>b\<bar>)"

definition remn :: "int \<Rightarrow> int \<Rightarrow> int" where
  "remn a b = a - b * quot a b"

lemma wrap64_id: "- (2 ^ 63) \<le> x \<Longrightarrow> x < 2 ^ 63 \<Longrightarrow> wrap64 x = x"
  by (simp add: wrap64_def)

lemma quot_nonneg: "0 \<le> a \<Longrightarrow> 0 < b \<Longrightarrow> quot a b = a div b"
  by (cases "a = 0") (simp_all add: quot_def sgn_if)

lemma remn_nonneg: "0 \<le> a \<Longrightarrow> 0 < b \<Longrightarrow> remn a b = a mod b"
  by (simp add: remn_def quot_nonneg minus_mult_div_eq_mod)

section \<open>Errors as values\<close>

text \<open>
  The sentinel errors of \<open>common/types.go\<close>, \<open>server/server.go\<close> and \<open>client/client.go\<close>, plus: \<open>Errorf s\<close> for
  an error made on the spot from the text (or format) \<open>s\<close>; \<open>Wrap s es\<close> for
  \<open>fmt.Errorf\<close> with the errors \<open>es\<close> under \<open>%w\<close>; \<open>TWAMPError c\<close> for the accept code
  a peer sent; \<open>IOError s\<close> for an error the network or the random source returned; \<open>Panic s\<close>
  for a run-time panic, which no caller of the library recovers. Format arguments are left out.
\<close>

datatype goerr =
    ErrInvalidMessageLength | ErrInvalidMBZ | ErrInvalidNumSlots | ErrInvalidNumPackets
  | ErrInvalidPaddingLength | ErrInvalidIPVN
  | ErrNoCompatibleMode | ErrServerNoModes | ErrSharedSecretRequired | ErrRFC5618Violation
  | ErrUnsupportedMode | ErrUnknownKeyID | ErrInvalidModeCombo | ErrUnknownCommand
  | ErrNoSessionsToStart | ErrInvalidReceiverAddress | ErrNoAvailablePorts | ErrInvalidPortRange
  | ErrHMACVerificationFailed | ErrUnknownSequenceNumber
  | ErrInvalidKeyLength | ErrInvalidBlockSize | ErrInvalidHMACLength | ErrInvalidSaltLen
  | ErrClientTerminatedConnection | ErrMissingGreeting | ErrDecryptFailed | ErrUnmarshalFailed
  | ErrSessionNotFound | ErrSessionConflict | ErrServerGreeting
  | Errorf string | Wrap string "goerr list" | TWAMPError u8 | IOError string | Panic string

type_synonym 'a res = "goerr + 'a"

text \<open>\<open>errors.Is\<close>: the error itself or one it wraps.\<close>

fun errors_Is :: "goerr \<Rightarrow> goerr \<Rightarrow> bool" where
  "errors_Is (Wrap s es) t = (Wrap s es = t \<or> list_ex (\<lambda>e. errors_Is e t) es)"
| "errors_Is e t = (e = t)"

fun is_panic :: "'a res \<Rightarrow> bool" where
  "is_panic (Inl (Panic s)) = True"
| "is_panic r = False"

lemma is_panic_simps [simp]:
  "\<not> is_panic (Inr x)" "is_panic (Inl (Panic s))" "is_panic (Inl e) = (\<exists>s. e = Panic s)"
  by (cases e; simp)+

text \<open>An error wrapped on its way up; a panic goes up as it is.\<close>

fun wrap_err :: "string \<Rightarrow> goerr \<Rightarrow> goerr" where
  "wrap_err s (Panic m) = Panic m"
| "wrap_err s e = Wrap s [e]"

lemma wrap_err_panic [simp]: "wrap_err s e = Panic m \<longleftrightarrow> e = Panic m"
  by (cases e) simp_all

section \<open>Slices\<close>

text \<open>
  \<open>seg i j b\<close> is \<open>b[i:j]\<close>. \<open>copy_at b i j s\<close> is \<open>b\<close> after \<open>copy(b[i:j], s)\<close>: the
  first \<open>min (j - i) (len s)\<close> bytes of \<open>s\<close> are stored from index \<open>i\<close> on, and what lies
  past the end of \<open>b\<close> is lost (a Go slice expression is bounded by the capacity, so such a
  store lands behind the slice that is returned).
\<close>

definition seg :: "nat \<Rightarrow> nat \<Rightarrow> 'a list \<Rightarrow> 'a list" where
  "seg i j b = take (j - i) (drop i b)"

definition copy_at :: "'a list \<Rightarrow> nat \<Rightarrow> nat \<Rightarrow> 'a list \<Rightarrow> 'a list" where
  "copy_at b i j s =
     take (length b) (take i b @ take (j - i) s @ drop (i + min (j - i) (length s)) b)"

definition zeros :: "nat \<Rightarrow> bytes" where
  "zeros n = replicate n 0"

lemma length_zeros [simp]: "length (zeros n) = n"
  by (simp add: zeros_def)

lemma length_seg [simp]: "length (seg i j b) = min (j - i) (length b - i)"
  by (simp add: seg_def)

lemma nth_seg: "k < j - i \<Longrightarrow> i + k < length b \<Longrightarrow> seg i j b ! k = b ! (i + k)"
  by (simp add: seg_def)

lemma length_copy_at [simp]: "length (copy_at b i j s) = length b"
  by (auto simp: copy_at_def min_def)

lemma nth_copy_at:
  assumes "k < length b"
  shows "copy_at b i j s ! k =
    (if i \<le> k \<and> k < i + min (j - i) (length s) then s ! (k - i) else b ! k)"
  using assms by (auto simp: copy_at_def nth_append min_def)

lemma nth_copy_at_other [wire]:
  "k < length b \<Longrightarrow> k < i \<or> j \<le> k \<Longrightarrow> copy_at b i j s ! k = b ! k"
  by (auto simp: nth_copy_at)

lemma seg_copy_at_same [wire]:
  "length s = j - i \<Longrightarrow> i \<le> j \<Longrightarrow> j \<le> length b \<Longrightarrow> seg i j (copy_at b i j s) = s"
  by (rule nth_equalityI) (auto simp: nth_seg nth_copy_at)

lemma seg_copy_at_other [wire]:
  "k \<le> i \<or> j \<le> l \<Longrightarrow> seg l k (copy_at b i j s) = seg l k b"
  by (rule nth_equalityI) (auto simp: nth_seg nth_copy_at)

lemma seg_list_update_other [wire]:
  "i < l \<or> k \<le> i \<Longrightarrow> seg l k (b[i := x]) = seg l k b"
  by (rule nth_equalityI) (auto simp: nth_seg nth_list_update)

lemma seg_zeros [wire]: "seg i j (zeros n) = zeros (min (j - i) (n - i))"
  by (simp add: seg_def zeros_def)

lemma nth_zeros [wire]: "i < n \<Longrightarrow> zeros n ! i = 0"
  by (simp add: zeros_def)

lemma seg_append [simp]: "j \<le> length a \<Longrightarrow> seg i j (a @ b) = seg i j a"
  by (simp add: seg_def)

lemma seg_all: "length b = n \<Longrightarrow> seg 0 n b = b"
  by (simp add: seg_def)

lemma seg_split:
  assumes "i \<le> j" and "j \<le> k"
  shows "seg i j b @ seg j k b = seg i k b"
proof -
  obtain m n where j: "j = i + m" and k: "k = j + n"
    using assms by (metis le_Suc_ex)
  then show ?thesis
    by (simp add: seg_def take_add add.commute)
qed

lemma seg_single: "i < length b \<Longrightarrow> seg i (Suc i) b = [b ! i]"
  by (simp add: seg_def take_Suc_conv_app_nth)

lemma seg_append_right [simp]:
  "length a \<le> i \<Longrightarrow> seg i j (a @ b) = seg (i - length a) (j - length a) b"
  by (simp add: seg_def)

lemma seg_append_left [simp]: "length a = j \<Longrightarrow> seg 0 j (a @ b) = a"
  by (simp add: seg_def)

text \<open>
  A buffer from \<open>make\<close> is filled front to back: what is stored so far, then zeros. The two
  rules say how one store extends the stored part, skipping bytes that stay zero; they turn a
  marshalling function into the concatenation of its fields.
\<close>

lemma copy_at_fill [wire]:
  assumes "length p \<le> i" and "i \<le> j" and "j \<le> length p + n" and "length s = j - i"
  shows "copy_at (p @ zeros n) i j s =
    (p @ zeros (i - length p) @ s) @ zeros (n - (j - length p))"
proof (rule nth_equalityI)
  show "length (copy_at (p @ zeros n) i j s) =
      length ((p @ zeros (i - length p) @ s) @ zeros (n - (j - length p)))"
    using assms by simp
next
  fix k assume "k < length (copy_at (p @ zeros n) i j s)"
  then show "copy_at (p @ zeros n) i j s ! k =
      ((p @ zeros (i - length p) @ s) @ zeros (n - (j - length p))) ! k"
    using assms by (auto simp: nth_copy_at nth_append zeros_def)
qed

lemma list_update_fill [wire]:
  assumes "length p \<le> i" and "i < length p + n"
  shows "(p @ zeros n)[i := x] =
    (p @ zeros (i - length p) @ [x]) @ zeros (n - (Suc i - length p))"
  using assms
  by (intro nth_equalityI) (auto simp: nth_append nth_list_update zeros_def)

lemma copy_at_fill0 [wire]:
  assumes "i \<le> j" and "j \<le> n" and "length s = j - i"
  shows "copy_at (zeros n) i j s = (zeros i @ s) @ zeros (n - j)"
  using copy_at_fill [of "[]" i j n s] assms by simp

lemma list_update_fill0 [wire]:
  "i < n \<Longrightarrow> (zeros n)[i := x] = (zeros i @ [x]) @ zeros (n - Suc i)"
  using list_update_fill [of "[]" i n x] by simp

lemma zeros_0 [simp]: "zeros 0 = []"
  by (simp add: zeros_def)

lemma list_all_zeros: "list_all (\<lambda>x. x = 0) b \<longleftrightarrow> b = zeros (length b)"
  by (auto simp: zeros_def list_all_iff list_eq_iff_nth_eq all_set_conv_all_nth)

section \<open>Big-endian integers\<close>

text \<open>\<open>binary.BigEndian.PutUint16/32\<close> and \<open>Uint16/32\<close>: the most significant byte first.\<close>

definition be16 :: "u16 \<Rightarrow> bytes" where
  "be16 v = [ucast (drop_bit 8 v), ucast v]"

definition be32 :: "u32 \<Rightarrow> bytes" where
  "be32 v = [ucast (drop_bit 24 v), ucast (drop_bit 16 v), ucast (drop_bit 8 v), ucast v]"

definition rd16 :: "bytes \<Rightarrow> u16" where
  "rd16 b = ucast (b ! 1) OR push_bit 8 (ucast (b ! 0))"

definition rd32 :: "bytes \<Rightarrow> u32" where
  "rd32 b = ucast (b ! 3) OR push_bit 8 (ucast (b ! 2)) OR push_bit 16 (ucast (b ! 1))
     OR push_bit 24 (ucast (b ! 0))"

lemma length_be [simp]: "length (be16 v) = 2" "length (be32 w) = 4"
  by (simp_all add: be16_def be32_def)

lemma rd16_be16 [simp]: "rd16 (be16 v) = v"
  by (rule bit_word_eqI) (auto simp: rd16_def be16_def bit_simps)

lemma rd32_be32 [simp]: "rd32 (be32 v) = v"
proof (rule bit_word_eqI)
  fix n assume "n < LENGTH(32)"
  then consider "n < 8" | "8 \<le> n \<and> n < 16" | "16 \<le> n \<and> n < 24" | "24 \<le> n \<and> n < 32"
    by fastforce
  then show "bit (rd32 (be32 v)) n \<longleftrightarrow> bit v n"
    by cases (auto simp: rd32_def be32_def bit_simps)
qed

lemma be16_rd16 [simp]:
  assumes "length b = 2"
  shows "be16 (rd16 b) = b"
proof -
  obtain x y where b: "b = [x, y]"
    using assms by (auto simp: length_Suc_conv numeral_2_eq_2)
  have 0: "ucast (drop_bit 8 (rd16 b)) = x"
    by (rule bit_word_eqI) (auto simp: rd16_def b bit_simps dest: bit_imp_le_length)
  have 1: "ucast (rd16 b) = y"
    by (rule bit_word_eqI) (auto simp: rd16_def b bit_simps dest: bit_imp_le_length)
  show ?thesis using 0 1 b by (simp add: be16_def)
qed

lemma be32_rd32 [simp]:
  assumes "length b = 4"
  shows "be32 (rd32 b) = b"
proof -
  obtain x y z t where b: "b = [x, y, z, t]"
    using assms by (auto simp: length_Suc_conv eval_nat_numeral)
  have 0: "ucast (drop_bit 24 (rd32 b)) = x"
    by (rule bit_word_eqI) (auto simp: rd32_def b bit_simps dest: bit_imp_le_length)
  have 1: "ucast (drop_bit 16 (rd32 b)) = y"
    by (rule bit_word_eqI) (auto simp: rd32_def b bit_simps dest: bit_imp_le_length)
  have 2: "ucast (drop_bit 8 (rd32 b)) = z"
    by (rule bit_word_eqI) (auto simp: rd32_def b bit_simps dest: bit_imp_le_length)
  have 3: "ucast (rd32 b) = t"
    by (rule bit_word_eqI) (auto simp: rd32_def b bit_simps dest: bit_imp_le_length)
  show ?thesis using 0 1 2 3 b by (simp add: be32_def)
qed

end
