(* ===== verification/Common_Types.thy ===== *)
theory Common_Types
  imports Prelude
begin

text \<open>
  \<open>common/types.go\<close> and \<open>common/hmac.go\<close>: the mode bits and the three functions that judge
  them, accept codes, the error estimate and the session identifier, and the HMAC coverage of
  test packets. A mode is the 32-bit word of the wire; a session identifier is its 16 bytes.
\<close>

section \<open>Constants\<close>

type_synonym mode = u32
type_synonym session_id = bytes

abbreviation ModeUnauthenticated :: mode where "ModeUnauthenticated \<equiv> 1"
abbreviation ModeAuthenticated :: mode where "ModeAuthenticated \<equiv> 2"
abbreviation ModeEncrypted :: mode where "ModeEncrypted \<equiv> 4"
abbreviation ModeMixed :: mode where "ModeMixed \<equiv> 8"
abbreviation ModeReflectOctets :: mode where "ModeReflectOctets \<equiv> 32"
abbreviation ModeSymmetricalSize :: mode where "ModeSymmetricalSize \<equiv> 64"

abbreviation AcceptOK :: u8 where "AcceptOK \<equiv> 0"
abbreviation AcceptFailure :: u8 where "AcceptFailure \<equiv> 1"
abbreviation AcceptInternalError :: u8 where "AcceptInternalError \<equiv> 2"
abbreviation AcceptNotSupported :: u8 where "AcceptNotSupported \<equiv> 3"
abbreviation AcceptPermanentResLimited :: u8 where "AcceptPermanentResLimited \<equiv> 4"
abbreviation AcceptTempResLimited :: u8 where "AcceptTempResLimited \<equiv> 5"

abbreviation CmdStartSessions :: u8 where "CmdStartSessions \<equiv> 2"
abbreviation CmdStopSessions :: u8 where "CmdStopSessions \<equiv> 3"
abbreviation CmdStopNSessions :: u8 where "CmdStopNSessions \<equiv> 4"
abbreviation CmdRequestTWSession :: u8 where "CmdRequestTWSession \<equiv> 5"
abbreviation CmdRequestTWSessionIndividual :: u8 where "CmdRequestTWSessionIndividual \<equiv> 6"

abbreviation MaxTWAMPPacketSize :: nat where "MaxTWAMPPacketSize \<equiv> 2048"

section \<open>Accept codes\<close>

definition IsAcceptCodeValid :: "u8 \<Rightarrow> bool" where
  "IsAcceptCodeValid code = True"

definition IsAcceptCodeDefined :: "u8 \<Rightarrow> bool" where
  "IsAcceptCodeDefined code \<longleftrightarrow> code \<le> AcceptTempResLimited"

text \<open>\<open>%d\<close> of a \<open>uint8\<close>: its decimal digits.\<close>

definition digit_char :: "nat \<Rightarrow> char" where
  "digit_char d = char_of (48 + d)"

fun decimal :: "nat \<Rightarrow> string" where
  "decimal n = (if n < 10 then [digit_char n] else decimal (n div 10) @ [digit_char (n mod 10)])"

declare decimal.simps [simp del]

definition AcceptCodeToString :: "u8 \<Rightarrow> string" where
  "AcceptCodeToString code =
     (if code = AcceptOK then ''OK''
      else if code = AcceptFailure then ''Failure, reason unspecified''
      else if code = AcceptInternalError then ''Internal error''
      else if code = AcceptNotSupported then ''Some aspect of request is not supported''
      else if code = AcceptPermanentResLimited
        then ''Cannot perform request due to permanent resource limitations''
      else if code = AcceptTempResLimited
        then ''Cannot perform request due to temporary resource limitations''
      else if 6 \<le> code \<and> code \<le> 255
        then ''Reserved accept code: '' @ decimal (unat code)
      else ''Unknown accept code: '' @ decimal (unat code))"

section \<open>Modes\<close>

text \<open>\<open>ModeToString\<close>: the names of the known bits, in a fixed order, joined by \<open>+\<close>.\<close>

fun join_plus :: "string list \<Rightarrow> string" where
  "join_plus [] = []"
| "join_plus [m] = m"
| "join_plus (m # ms) = m @ ''+'' @ join_plus ms"

definition mode_names :: "mode \<Rightarrow> string list" where
  "mode_names m =
     (if m AND ModeUnauthenticated \<noteq> 0 then [''unauthenticated''] else []) @
     (if m AND ModeAuthenticated \<noteq> 0 then [''authenticated''] else []) @
     (if m AND ModeEncrypted \<noteq> 0 then [''encrypted''] else []) @
     (if m AND ModeMixed \<noteq> 0 then [''mixed''] else []) @
     (if m AND ModeReflectOctets \<noteq> 0 then [''reflect-octets''] else []) @
     (if m AND ModeSymmetricalSize \<noteq> 0 then [''symmetrical-size''] else [])"

definition ModeToString :: "mode \<Rightarrow> string" where
  "ModeToString m = (let modes = mode_names m in
     if modes = [] then ''unknown'' else join_plus modes)"

abbreviation reservedModeBit14 :: mode where "reservedModeBit14 \<equiv> push_bit 14 1"

definition securityMask :: mode where
  "securityMask = ModeUnauthenticated OR ModeAuthenticated OR ModeEncrypted"

definition ValidateRequestedMode :: "mode \<Rightarrow> unit res" where
  "ValidateRequestedMode m =
     (if m AND reservedModeBit14 \<noteq> 0 then Inl ErrInvalidModeCombo
      else
        (let securityBits = m AND securityMask in
         if securityBits = 0 \<or> securityBits AND (securityBits - 1) \<noteq> 0
         then Inl ErrInvalidModeCombo
         else Inr ()))"

text \<open>
  \<open>ResolveMixedModes\<close>: the control mode and the test mode of a negotiated mode
  (RFC 5618 section 3.1).
\<close>

definition ResolveMixedModes :: "mode \<Rightarrow> (mode \<times> mode) res" where
  "ResolveMixedModes m =
     (case ValidateRequestedMode m of Inl e \<Rightarrow> Inl e
      | Inr _ \<Rightarrow>
        if m AND ModeMixed \<noteq> 0 then
          (let otherModes = m AND NOT (securityMask OR ModeMixed);
               baseSecurityMode = m AND securityMask in
           if baseSecurityMode = ModeUnauthenticated then Inl ErrRFC5618Violation
           else Inr (baseSecurityMode OR otherModes, ModeUnauthenticated OR otherModes))
        else Inr (m, m))"

definition ValidateModeMask :: "mode \<Rightarrow> unit res" where
  "ValidateModeMask m =
     (if m AND reservedModeBit14 \<noteq> 0 then Inl ErrInvalidModeCombo
      else if m AND securityMask = 0 then Inl ErrInvalidModeCombo
      else Inr ())"

section \<open>Error estimate\<close>

record ErrorEstimate =
  Multiplier :: u8
  Scale :: u8
  SyncBit :: bool

definition ErrorEstimate_ToUint16 :: "ErrorEstimate \<Rightarrow> u16" where
  "ErrorEstimate_ToUint16 ee =
     (let val = ucast (Multiplier ee) OR push_bit 8 (ucast (Scale ee)) in
      if SyncBit ee then val OR push_bit 15 1 else val)"

definition ErrorEstimate_FromUint16 :: "u16 \<Rightarrow> ErrorEstimate" where
  "ErrorEstimate_FromUint16 val =
     \<lparr>Multiplier = ucast (val AND 0xFF),
      Scale = ucast (drop_bit 8 val) AND 0x3F,
      SyncBit = (val AND 0x8000 \<noteq> 0)\<rparr>"

section \<open>Session identifier\<close>

definition zeroSID :: session_id where
  "zeroSID = zeros 16"

definition SessionID_IsZero :: "session_id \<Rightarrow> bool" where
  "SessionID_IsZero sid \<longleftrightarrow> sid = zeroSID"

section \<open>HMAC coverage of test packets\<close>

abbreviation HMACCoverageAuthenticated :: nat where "HMACCoverageAuthenticated \<equiv> 16"
abbreviation HMACCoverageSenderEncrypted :: nat where "HMACCoverageSenderEncrypted \<equiv> 32"
abbreviation HMACCoverageReflectorEncrypted :: nat where "HMACCoverageReflectorEncrypted \<equiv> 96"
abbreviation SenderHMACOffset :: nat where "SenderHMACOffset \<equiv> 32"
abbreviation ReflectorHMACOffset :: nat where "ReflectorHMACOffset \<equiv> 96"
abbreviation MinSenderAuthPacketSize :: nat where "MinSenderAuthPacketSize \<equiv> 48"
abbreviation MinReflectorAuthPacketSize :: nat where "MinReflectorAuthPacketSize \<equiv> 112"

definition HMACCoverage :: "bool \<Rightarrow> bool \<Rightarrow> nat" where
  "HMACCoverage isEncrypted isReflectorPacket =
     (if \<not> isEncrypted then HMACCoverageAuthenticated
      else if isReflectorPacket then HMACCoverageReflectorEncrypted
      else HMACCoverageSenderEncrypted)"

section \<open>Lemmas\<close>

lemma bit_iff_and_pow: "m AND push_bit n 1 \<noteq> 0 \<longleftrightarrow> bit m n" for m :: "'a::len word"
  by (simp add: and_exp_eq_0_iff_not_bit push_bit_eq_mult)

lemma and_pow_eq: "m AND push_bit n 1 = (if bit m n then push_bit n 1 else 0)"
  for m :: "'a::len word"
  by (rule bit_word_eqI) (auto simp: bit_simps bit_1_iff)

lemma and_pow_bits [simp]:
  "m AND 1 = 0 \<longleftrightarrow> \<not> bit m 0" "m AND 2 = 0 \<longleftrightarrow> \<not> bit m 1" "m AND 4 = 0 \<longleftrightarrow> \<not> bit m 2"
  "m AND 8 = 0 \<longleftrightarrow> \<not> bit m 3" "m AND 32 = 0 \<longleftrightarrow> \<not> bit m 5" "m AND 64 = 0 \<longleftrightarrow> \<not> bit m 6"
  "m AND 16384 = 0 \<longleftrightarrow> \<not> bit m 14"
  for m :: u32
  using bit_iff_and_pow [of m 0] bit_iff_and_pow [of m 1] bit_iff_and_pow [of m 2]
    bit_iff_and_pow [of m 3] bit_iff_and_pow [of m 5] bit_iff_and_pow [of m 6]
    bit_iff_and_pow [of m 14]
  by auto

lemma securityMask_eq: "securityMask = 7"
  by (simp add: securityMask_def)

text \<open>The three security bits of a mode, as a number.\<close>

lemma security_bits:
  "m AND 7 = of_bool (bit m 0) + (if bit m 1 then 2 else 0) + (if bit m 2 then 4 else (0 :: u32))"
proof -
  have "m AND 7 = (m AND 1) OR (m AND 2) OR (m AND 4)"
    by (simp flip: bit.conj_disj_distrib)
  moreover have "m AND 1 = of_bool (bit m 0)" "m AND 2 = (if bit m 1 then 2 else 0)"
    "m AND 4 = (if bit m 2 then 4 else 0)"
    using and_pow_eq [of m 0] and_pow_eq [of m 1] and_pow_eq [of m 2] by simp_all
  ultimately show ?thesis by simp
qed

lemma ValidateRequestedMode_iff:
  "ValidateRequestedMode m = Inr () \<longleftrightarrow>
    \<not> bit m 14 \<and> (bit m 0 \<and> \<not> bit m 1 \<and> \<not> bit m 2 \<or> \<not> bit m 0 \<and> bit m 1 \<and> \<not> bit m 2
      \<or> \<not> bit m 0 \<and> \<not> bit m 1 \<and> bit m 2)"
  by (simp add: ValidateRequestedMode_def Let_def securityMask_eq security_bits)

lemma resolve_masks:
  "bit (m AND securityMask) i \<longleftrightarrow> bit m i \<and> i < 3"
  "bit (m AND NOT (securityMask OR 8)) i \<longleftrightarrow> bit m i \<and> 4 \<le> i"
  for m :: u32
proof -
  have 7: "(7 :: u32) = mask 3" and 15: "(7 OR 8 :: u32) = mask 4"
    by (simp_all add: mask_eq_exp_minus_1)
  show "bit (m AND securityMask) i \<longleftrightarrow> bit m i \<and> i < 3"
    unfolding securityMask_eq 7 by (auto simp: bit_simps)
  show "bit (m AND NOT (securityMask OR 8)) i \<longleftrightarrow> bit m i \<and> 4 \<le> i"
    unfolding securityMask_eq 15
    by (auto simp: bit_simps dest: bit_imp_le_length)
qed

lemma bit_32768: "bit (32768 :: int) n \<longleftrightarrow> n = 15"
  using bit_exp_iff [of 15 n, where ?'a = int] by auto

lemma ErrorEstimate_Scale: "ucast (drop_bit 8 (ErrorEstimate_ToUint16 ee)) AND 0x3F = Scale ee AND 0x3F"
proof -
  have m: "(0x3F :: u8) = mask 6" by (simp add: mask_eq_exp_minus_1)
  show ?thesis unfolding m
    by (rule bit_word_eqI) (auto simp: ErrorEstimate_ToUint16_def Let_def bit_simps bit_32768
        dest: bit_imp_le_length)
qed

lemma ErrorEstimate_Multiplier:
  "ucast (ErrorEstimate_ToUint16 ee AND 0xFF) = Multiplier ee"
proof -
  have m: "(0xFF :: u16) = mask 8" by (simp add: mask_eq_exp_minus_1)
  show ?thesis unfolding m
    by (rule bit_word_eqI) (auto simp: ErrorEstimate_ToUint16_def Let_def bit_simps bit_32768
        dest: bit_imp_le_length)
qed

lemma ErrorEstimate_SyncBit:
  "ErrorEstimate_ToUint16 ee AND 0x8000 \<noteq> 0 \<longleftrightarrow> SyncBit ee \<or> bit (Scale ee) 7"
proof -
  have m: "(0x8000 :: u16) = push_bit 15 1" by simp
  show ?thesis unfolding m bit_iff_and_pow
    by (auto simp: ErrorEstimate_ToUint16_def Let_def bit_simps bit_32768
        dest: bit_imp_le_length)
qed

lemma scale_fits: "x AND 0x3F = x \<longleftrightarrow> x < 64" for x :: u8
proof -
  have "(0x3F :: u8) = mask 6" by (simp add: mask_eq_exp_minus_1)
  then have "x AND 0x3F = x \<longleftrightarrow> take_bit 6 x = x" by (simp add: take_bit_eq_mask)
  also have "\<dots> \<longleftrightarrow> unat x mod 64 = unat x"
    by (simp add: word_unat_eq_iff take_bit_eq_mod unat_mod)
  also have "\<dots> \<longleftrightarrow> unat x < 64"
    by (metis mod_less mod_less_divisor zero_less_numeral)
  finally show ?thesis by (simp add: word_less_nat_alt)
qed

lemma small_bit7: "x < 64 \<Longrightarrow> \<not> bit x 7" for x :: u8
proof
  assume "x < 64" and "bit x 7"
  from \<open>x < 64\<close> have "x AND 0x3F = x" by (simp only: scale_fits)
  with \<open>bit x 7\<close> have "bit (x AND 0x3F) 7" by simp
  moreover have "(0x3F :: u8) = mask 6" by (simp add: mask_eq_exp_minus_1)
  ultimately show False by (simp add: bit_simps)
qed

lemma ErrorEstimate_small: "Scale ee < 64 \<Longrightarrow> ErrorEstimate_FromUint16 (ErrorEstimate_ToUint16 ee) = ee"
  using scale_fits [of "Scale ee"] small_bit7 [of "Scale ee"]
  by (simp add: ErrorEstimate_FromUint16_def ErrorEstimate_Scale ErrorEstimate_Multiplier
      ErrorEstimate_SyncBit)

section \<open>Properties\<close>


text \<open>The error estimate survives a trip over the wire exactly when its scale fits the six
  bits the format has for it; a larger scale is truncated (and its top bit sets the S bit).\<close>

theorem ErrorEstimate_roundtrip:
  "ErrorEstimate_FromUint16 (ErrorEstimate_ToUint16 ee) = ee \<longleftrightarrow> Scale ee < 64"
  by (cases ee) (auto simp: ErrorEstimate_FromUint16_def ErrorEstimate_Scale
      ErrorEstimate_Multiplier ErrorEstimate_SyncBit scale_fits small_bit7)

end
