(* ===== verification/Timestamp.thy ===== *)
theory Timestamp
  imports Prelude
begin

text \<open>
  \<open>common/timestamp.go\<close>: the 32.32 fixed-point NTP timestamps of the wire, their conversion
  from and to Go times, and their arithmetic. A \<open>time.Time\<close> is its Unix second and the
  nanosecond within it; a \<open>time.Duration\<close> is its number of nanoseconds, an \<open>int64\<close>.
  The code converts between nanoseconds and fractions in \<open>float64\<close>; the model computes the
  same products in integers, with the rounding of IEEE 754 written out (\<open>f64_round\<close>).
\<close>

section \<open>Floating-point products\<close>

fun bitlen :: "nat \<Rightarrow> nat" where
  "bitlen n = (if n = 0 then 0 else Suc (bitlen (n div 2)))"

declare bitlen.simps [simp del]

text \<open>
  A product of two doubles is their exact product rounded to 53 significant bits, to the
  nearest, ties to even. \<open>f64_round p\<close> does this to an integer \<open>p\<close>; a common power of two in
  the scale of both factors does not matter, since no result here is subnormal or overflows.
\<close>

definition f64_round :: "nat \<Rightarrow> nat" where
  "f64_round p =
     (let s = bitlen p - 53; q = p div 2 ^ s; r = p mod 2 ^ s in
      (if 2 ^ s < 2 * r \<or> 2 ^ s = 2 * r \<and> odd q then q + 1 else q) * 2 ^ s)"

text \<open>
  \<open>NanoToFrac = 2^32 / 10^9\<close> is not a double; the nearest one is
  \<open>4835703278458517 / 2^50\<close> (\<open>NanoToFrac_nearest\<close>). \<open>FracToNano = 10^9 / 2^32\<close> is the double
  \<open>1953125 / 2^23\<close> exactly (\<open>FracToNano_exact\<close>). The two functions are
  \<open>float64(n) * NanoToFrac\<close> and \<open>float64(f) * FracToNano\<close> truncated to an integer.
\<close>

definition NanoToFrac :: nat where "NanoToFrac = 4835703278458517"
definition FracToNano :: nat where "FracToNano = 1953125"

definition nano_to_frac :: "nat \<Rightarrow> nat" where
  "nano_to_frac n = f64_round (n * NanoToFrac) div 2 ^ 50"

definition frac_to_nano :: "nat \<Rightarrow> nat" where
  "frac_to_nano f = f64_round (f * FracToNano) div 2 ^ 23"

lemma NanoToFrac_nearest:
  "2 * \<bar>int NanoToFrac * 10 ^ 9 - 2 ^ 82\<bar> < 10 ^ 9" "2 ^ 52 \<le> NanoToFrac" "NanoToFrac < 2 ^ 53"
  by (simp_all add: NanoToFrac_def)

lemma FracToNano_exact: "FracToNano * 2 ^ 32 = 10 ^ 9 * 2 ^ 23"
  by (simp add: FracToNano_def)

section \<open>Timestamps\<close>

record go_time =
  unix_secs :: int
  nanosecond :: nat

record TWAMPTimestamp =
  Seconds :: u32
  Fraction :: u32

abbreviation time_Second :: int where "time_Second \<equiv> 1000000000"
abbreviation NTPEpochOffset :: int where "NTPEpochOffset \<equiv> 2208988800"
abbreviation NTPEra1Unix :: int where "NTPEra1Unix \<equiv> 2085978496"

definition FromTime :: "go_time \<Rightarrow> TWAMPTimestamp" where
  "FromTime t =
     (let ntpSecs = wrap64 (unix_secs t + NTPEpochOffset) in
      \<lparr>Seconds = word_of_int (ntpSecs AND 0xFFFFFFFF),
       Fraction = of_nat (nano_to_frac (nanosecond t))\<rparr>)"

definition ToTimeWithReference :: "TWAMPTimestamp \<Rightarrow> go_time \<Rightarrow> go_time" where
  "ToTimeWithReference ts ref =
     (let ntpSecs64 =
            (if unix_secs ref < NTPEra1Unix then uint (Seconds ts)
             else 2 ^ 32 + uint (Seconds ts));
          secs = ntpSecs64 - NTPEpochOffset;
          nanos = frac_to_nano (unat (Fraction ts))
      in \<lparr>unix_secs = secs, nanosecond = nanos\<rparr>)"

definition TWAMPTimestamp_Duration :: "TWAMPTimestamp \<Rightarrow> int" where
  "TWAMPTimestamp_Duration ts =
     wrap64 (wrap64 (uint (Seconds ts) * time_Second) + int (frac_to_nano (unat (Fraction ts))))"

text \<open>The eight bytes \<open>Marshal\<close> stores, and the calls with their length guard.\<close>

definition TWAMPTimestamp_bytes :: "TWAMPTimestamp \<Rightarrow> bytes" where
  "TWAMPTimestamp_bytes ts = be32 (Seconds ts) @ be32 (Fraction ts)"

definition TWAMPTimestamp_Marshal :: "TWAMPTimestamp \<Rightarrow> bytes \<Rightarrow> bytes res" where
  "TWAMPTimestamp_Marshal ts b =
     (if length b < 8 then Inl (Panic ''TWAMPTimestamp.Marshal: buffer too small (need 8 bytes)'')
      else Inr (copy_at (copy_at b 0 4 (be32 (Seconds ts))) 4 8 (be32 (Fraction ts))))"

definition TWAMPTimestamp_read :: "bytes \<Rightarrow> TWAMPTimestamp" where
  "TWAMPTimestamp_read b = \<lparr>Seconds = rd32 (seg 0 4 b), Fraction = rd32 (seg 4 8 b)\<rparr>"

definition TWAMPTimestamp_Unmarshal :: "bytes \<Rightarrow> TWAMPTimestamp res" where
  "TWAMPTimestamp_Unmarshal b =
     (if length b < 8 then Inl (Panic ''TWAMPTimestamp.Unmarshal: buffer too small (need 8 bytes)'')
      else Inr (TWAMPTimestamp_read b))"

section \<open>Arithmetic\<close>

definition DurationBetween :: "TWAMPTimestamp \<Rightarrow> TWAMPTimestamp \<Rightarrow> int" where
  "DurationBetween start e =
     (let secDiff =
            (if Seconds e < Seconds start \<and> 2 ^ 31 < Seconds start - Seconds e
             then uint (Seconds e) + 2 ^ 32 - uint (Seconds start)
             else if Seconds start < Seconds e \<and> 2 ^ 31 < Seconds e - Seconds start
             then uint (Seconds e) - (uint (Seconds start) + 2 ^ 32)
             else uint (Seconds e) - uint (Seconds start));
          (fracDiff, secDiff) =
            (if Fraction start \<le> Fraction e
             then (uint (Fraction e) - uint (Fraction start), secDiff)
             else (uint (Fraction e) + 2 ^ 32 - uint (Fraction start), secDiff - 1));
          nanoDiff = int (frac_to_nano (nat fracDiff))
      in wrap64 (wrap64 (secDiff * time_Second) + nanoDiff))"

text \<open>
  \<open>uint32(float64(n) * NanoToFrac)\<close>. For a negative \<open>n\<close> the product is out of the range of a
  \<open>uint32\<close> and Go leaves the conversion to the implementation: \<open>conv\<close> is that conversion of
  the truncated product.
\<close>

definition nanos_to_uint32 :: "(int \<Rightarrow> u32) \<Rightarrow> int \<Rightarrow> u32" where
  "nanos_to_uint32 conv n =
     (if 0 \<le> n then of_nat (nano_to_frac (nat n)) else conv (- int (nano_to_frac (nat (- n)))))"

definition TWAMPTimestamp_Add :: "(int \<Rightarrow> u32) \<Rightarrow> TWAMPTimestamp \<Rightarrow> int \<Rightarrow> TWAMPTimestamp" where
  "TWAMPTimestamp_Add conv ts d =
     (let secs = quot d time_Second; nanos = remn d time_Second;
          fracToAdd = nanos_to_uint32 conv nanos;
          newFracU64 = unat (Fraction ts) + unat fracToAdd;
          (carry, newFracU64) =
            (if 2 ^ 32 \<le> newFracU64 then (1, newFracU64 - 2 ^ 32) else (0, newFracU64))
      in \<lparr>Seconds = Seconds ts + word_of_int secs + carry, Fraction = of_nat newFracU64\<rparr>)"

definition TWAMPTimestamp_Sub :: "(int \<Rightarrow> u32) \<Rightarrow> TWAMPTimestamp \<Rightarrow> int \<Rightarrow> TWAMPTimestamp" where
  "TWAMPTimestamp_Sub conv ts d =
     (let secs = quot d time_Second; nanos = remn d time_Second;
          fracToSub = nanos_to_uint32 conv nanos;
          (borrow, newFrac) =
            (if Fraction ts < fracToSub
             then (1, of_nat (unat (Fraction ts) + 2 ^ 32 - unat fracToSub))
             else (0, Fraction ts - fracToSub))
      in \<lparr>Seconds = Seconds ts - word_of_int secs - borrow, Fraction = newFrac\<rparr>)"

section \<open>Comparison\<close>

definition TWAMPTimestamp_Equal :: "TWAMPTimestamp \<Rightarrow> TWAMPTimestamp \<Rightarrow> bool" where
  "TWAMPTimestamp_Equal ts u \<longleftrightarrow> Seconds ts = Seconds u \<and> Fraction ts = Fraction u"

definition TWAMPTimestamp_Before :: "TWAMPTimestamp \<Rightarrow> TWAMPTimestamp \<Rightarrow> bool" where
  "TWAMPTimestamp_Before ts u =
     (if Seconds ts < Seconds u then True
      else if Seconds u < Seconds ts then False
      else Fraction ts < Fraction u)"

definition TWAMPTimestamp_After :: "TWAMPTimestamp \<Rightarrow> TWAMPTimestamp \<Rightarrow> bool" where
  "TWAMPTimestamp_After ts u =
     (if Seconds u < Seconds ts then True
      else if Seconds ts < Seconds u then False
      else Fraction u < Fraction ts)"

section \<open>The conversions are exact\<close>

lemma bitlen_bounds: "p < 2 ^ bitlen p" "0 < p \<Longrightarrow> 2 ^ (bitlen p - 1) \<le> p"
proof (induction p rule: bitlen.induct)
  case (1 n)
  {
    case 1
    show ?case
      using "1.IH"(1) by (cases "n = 0") (auto simp: bitlen.simps [of n])
  next
    case 2
    show ?case
    proof (cases "n = 1")
      case True
      then show ?thesis by (simp add: bitlen.simps [of "Suc 0"] bitlen.simps [of 0])
    next
      case False
      then have d: "0 < n div 2" using 2 by auto
      then have b: "0 < bitlen (n div 2)" by (simp add: bitlen.simps [of "n div 2"])
      have "2 ^ (bitlen (n div 2) - 1) \<le> n div 2"
        using "1.IH"(2) 2 d by auto
      then have "2 * 2 ^ (bitlen (n div 2) - 1) \<le> n" by auto
      then show ?thesis
        using 2 b by (simp add: bitlen.simps [of n] flip: power_Suc)
    qed
  }
qed

lemma bitlen_le: "p < 2 ^ k \<Longrightarrow> bitlen p \<le> k"
  using bitlen_bounds(2) [of p]
  by (cases "p = 0") (auto simp: bitlen.simps [of 0] not_le dest!: order.strict_trans1
      intro!: leI)

lemma f64_round_exact: "p < 2 ^ 53 \<Longrightarrow> f64_round p = p"
  using bitlen_le [of p 53] by (simp add: f64_round_def)

lemma f64_round_lower:
  assumes "m * 2 ^ k \<le> p" and "bitlen p - 53 \<le> k"
  shows "m * 2 ^ k \<le> f64_round p"
proof -
  define s where "s = bitlen p - 53"
  have k: "(2 :: nat) ^ k = 2 ^ (k - s) * 2 ^ s"
    using assms(2) by (simp add: s_def flip: power_add)
  have "m * 2 ^ (k - s) \<le> p div 2 ^ s"
    using assms(1) by (simp add: k less_eq_div_iff_mult_less_eq algebra_simps)
  then have "m * 2 ^ (k - s) * 2 ^ s \<le> p div 2 ^ s * 2 ^ s" by simp
  also have "\<dots> \<le> f64_round p"
    by (simp add: f64_round_def Let_def flip: s_def)
  finally show ?thesis by (simp add: k mult.assoc)
qed

lemma f64_round_upper: "2 * f64_round p \<le> 2 * p + 2 ^ (bitlen p - 53)"
proof -
  define s where "s = bitlen p - 53"
  define q r where "q = p div 2 ^ s" and "r = p mod 2 ^ s"
  have p: "p = q * 2 ^ s + r"
    unfolding q_def r_def by (rule div_mult_mod_eq [symmetric])
  have "f64_round p = (if 2 ^ s < 2 * r \<or> 2 ^ s = 2 * r \<and> odd q then q + 1 else q) * 2 ^ s"
    by (simp add: f64_round_def Let_def s_def q_def r_def)
  then show ?thesis
    unfolding s_def [symmetric] by (auto simp: p algebra_simps)
qed

lemma frac_to_nano_exact: "f < 2 ^ 32 \<Longrightarrow> frac_to_nano f = f * 10 ^ 9 div 2 ^ 32"
proof -
  assume "f < 2 ^ 32"
  then have "f * FracToNano < 2 ^ 53" by (simp add: FracToNano_def)
  then have "frac_to_nano f = f * FracToNano div 2 ^ 23"
    by (simp add: frac_to_nano_def f64_round_exact)
  also have "\<dots> = f * (FracToNano * 512) div (2 ^ 23 * 512)"
    by (metis div_mult_mult2 mult.assoc zero_neq_numeral)
  finally show ?thesis by (simp add: FracToNano_def)
qed

text \<open>
  The product with the rounded constant, rounded again, can exceed the exact quotient, but by
  less than the gap of \<open>512 / 10^9\<close> that separates a non-integer quotient from the next integer.
\<close>

lemma nano_bounds:
  assumes "n < 10 ^ 9"
  defines "F \<equiv> n * 2 ^ 32 div 10 ^ 9"
  shows "F * 2 ^ 50 \<le> n * NanoToFrac" "10 ^ 9 * (n * NanoToFrac + 2 ^ 28) < (F + 1) * 10 ^ 9 * 2 ^ 50"
proof -
  define r where "r = n * 2 ^ 32 mod 10 ^ 9"
  have n: "n * 2 ^ 32 = F * 10 ^ 9 + r"
    unfolding F_def r_def by (rule div_mult_mod_eq [symmetric])
  have "r = 512 * (n * 2 ^ 23 mod 1953125)"
    unfolding r_def using mult_mod_right [of 512 "n * 2 ^ 23" 1953125] by (simp add: algebra_simps)
  moreover have "n * 2 ^ 23 mod 1953125 < 1953125" by simp
  ultimately have r: "r \<le> 10 ^ 9 - 512" by simp
  have P: "n * NanoToFrac * 10 ^ 9 = n * 2 ^ 82 + n * 301175296"
    by (simp add: NanoToFrac_def)
  have "F * 2 ^ 50 * 10 ^ 9 \<le> n * 2 ^ 82" using n by simp
  then have "F * 2 ^ 50 * 10 ^ 9 \<le> n * NanoToFrac * 10 ^ 9" unfolding P by simp
  then show "F * 2 ^ 50 \<le> n * NanoToFrac" by (simp add: ac_simps)
  have "n * 2 ^ 82 = (F * 10 ^ 9 + r) * 2 ^ 50" using n by simp
  then show "10 ^ 9 * (n * NanoToFrac + 2 ^ 28) < (F + 1) * 10 ^ 9 * 2 ^ 50"
    using P r assms(1) by (simp add: algebra_simps)
qed

lemma nano_to_frac_eq:
  assumes "n < 10 ^ 9"
  shows "nano_to_frac n = n * 2 ^ 32 div 10 ^ 9"
proof -
  define F where "F = n * 2 ^ 32 div 10 ^ 9"
  let ?p = "n * NanoToFrac"
  note b = nano_bounds [OF assms, folded F_def]
  have "?p < 2 ^ 82" using assms by (simp add: NanoToFrac_def)
  then have len: "bitlen ?p \<le> 82" by (rule bitlen_le)
  have lo: "F * 2 ^ 50 \<le> f64_round ?p"
    using b(1) len by (intro f64_round_lower) auto
  have "2 * f64_round ?p \<le> 2 * ?p + 2 ^ (bitlen ?p - 53)" by (rule f64_round_upper)
  also have "\<dots> \<le> 2 * ?p + 2 ^ 29"
    using len by (intro add_left_mono power_increasing) auto
  finally have "10 ^ 9 * f64_round ?p \<le> 10 ^ 9 * (?p + 2 ^ 28)" by simp
  also note b(2)
  finally have hi: "f64_round ?p < (F + 1) * 2 ^ 50" by simp
  show ?thesis
    unfolding nano_to_frac_def F_def [symmetric]
    using lo hi by (intro div_nat_eqI) (simp_all add: algebra_simps)
qed

text \<open>Nanoseconds to a fraction and back: truncated twice, off by at most one.\<close>

lemma nano_back:
  assumes "n < 10 ^ 9"
  shows "frac_to_nano (n * 2 ^ 32 div 10 ^ 9) = (if n mod 1953125 = 0 then n else n - 1)"
proof -
  define F where "F = n * 2 ^ 32 div 10 ^ 9"
  define r where "r = n * 2 ^ 32 mod 10 ^ 9"
  have n: "n * 2 ^ 32 = F * 10 ^ 9 + r"
    unfolding F_def r_def by (rule div_mult_mod_eq [symmetric])
  have r9: "r < 10 ^ 9" by (simp add: r_def)
  have "F < 2 ^ 32" unfolding F_def using assms by (simp add: less_mult_imp_div_less)
  then have f: "frac_to_nano F = F * 10 ^ 9 div 2 ^ 32" by (rule frac_to_nano_exact)
  have "r = 512 * (n * 2 ^ 23 mod 1953125)"
    unfolding r_def using mult_mod_right [of 512 "n * 2 ^ 23" 1953125] by (simp add: algebra_simps)
  then have "r = 0 \<longleftrightarrow> 1953125 dvd n * 2 ^ 23" by (simp add: dvd_eq_mod_eq_0)
  also have "\<dots> \<longleftrightarrow> 1953125 dvd n"
    by (rule coprime_dvd_mult_left_iff) (simp add: coprime_iff_gcd_eq_1 gcd_non_0_nat)
  finally have r0: "r = 0 \<longleftrightarrow> n mod 1953125 = 0" by (simp add: dvd_eq_mod_eq_0)
  have "F * 10 ^ 9 div 2 ^ 32 = (if r = 0 then n else n - 1)"
  proof (cases "r = 0")
    case True
    then show ?thesis using n by (simp flip: n)
  next
    case False
    then have "0 < n" using n by (cases n) auto
    then show ?thesis
      using n r9 False by (intro div_nat_eqI) (auto simp: algebra_simps)
  qed
  then show ?thesis unfolding F_def [symmetric] by (simp only: f r0)
qed

lemma word_of_int_wrap64: "word_of_int (wrap64 x) = (word_of_int x :: u32)"
proof -
  have "wrap64 x = x - 2 ^ 64 * ((x + 2 ^ 63) div 2 ^ 64)"
    by (simp add: wrap64_def minus_mult_div_eq_mod [symmetric])
  then have "word_of_int (wrap64 x) =
      (word_of_int x - word_of_int (2 ^ 64) * word_of_int ((x + 2 ^ 63) div 2 ^ 64) :: u32)"
    by (simp only: of_int_diff of_int_mult)
  moreover have "(word_of_int (2 ^ 64) :: u32) = 0" by simp
  ultimately show ?thesis by (simp only: mult_zero_left diff_zero)
qed

lemma word_of_int_and_mask: "word_of_int (x AND 0xFFFFFFFF) = (word_of_int x :: u32)"
proof -
  have m: "(0xFFFFFFFF :: int) = mask 32" by (simp add: mask_eq_exp_minus_1)
  show ?thesis
    unfolding m by (rule bit_word_eqI) (simp add: bit_simps)
qed

lemma Seconds_FromTime: "Seconds (FromTime t) = word_of_int (unix_secs t + NTPEpochOffset)"
  by (simp add: FromTime_def Let_def word_of_int_and_mask word_of_int_wrap64)

lemma Fraction_FromTime:
  assumes "nanosecond t < 10 ^ 9"
  shows "unat (Fraction (FromTime t)) = nanosecond t * 2 ^ 32 div 10 ^ 9"
proof -
  have "nanosecond t * 2 ^ 32 div 10 ^ 9 < 2 ^ 32"
    using assms by (simp add: less_mult_imp_div_less)
  then show ?thesis
    using assms by (simp add: FromTime_def Let_def nano_to_frac_eq unat_of_nat)
qed

section \<open>Timestamps as 64-bit fixed-point numbers\<close>

text \<open>
  The abstract value of a timestamp is the 64-bit number of 2^-32 seconds since the start of
  its era; arithmetic is addition and subtraction of such numbers, modulo an era.
\<close>

definition ts_abs :: "TWAMPTimestamp \<Rightarrow> int" where
  "ts_abs ts = uint (Seconds ts) * 2 ^ 32 + uint (Fraction ts)"

definition duration_abs :: "(int \<Rightarrow> u32) \<Rightarrow> int \<Rightarrow> int" where
  "duration_abs conv d =
     quot d time_Second * 2 ^ 32 + uint (nanos_to_uint32 conv (remn d time_Second))"

lemma ts_abs_bounds: "0 \<le> ts_abs ts" "ts_abs ts < 2 ^ 64"
proof -
  have "uint (Seconds ts) \<le> 2 ^ 32 - 1" "uint (Fraction ts) \<le> 2 ^ 32 - 1"
    using uint_bounded [of "Seconds ts"] uint_bounded [of "Fraction ts"] by simp_all
  then show "0 \<le> ts_abs ts" "ts_abs ts < 2 ^ 64" by (simp_all add: ts_abs_def)
qed

lemma ts_abs_fields:
  "uint (Seconds ts) = ts_abs ts div 2 ^ 32" "uint (Fraction ts) = ts_abs ts mod 2 ^ 32"
  using uint_bounded [of "Fraction ts"] by (simp_all add: ts_abs_def)

lemma ts_abs_inject: "ts_abs a = ts_abs b \<longleftrightarrow> a = b"
proof
  assume "ts_abs a = ts_abs b"
  then have "Seconds a = Seconds b" "Fraction a = Fraction b"
    by (simp_all add: word_uint_eq_iff ts_abs_fields)
  then show "a = b" by (cases a; cases b) simp
qed simp

lemma fixed64:
  fixes h f :: int
  assumes "0 \<le> f" "f < 2 ^ 32"
  shows "h mod 2 ^ 32 * 2 ^ 32 + f = (h * 2 ^ 32 + f) mod 2 ^ 64"
proof -
  have "(h * 2 ^ 32 + f) mod (2 ^ 32 * 2 ^ 32) =
      2 ^ 32 * ((h * 2 ^ 32 + f) div 2 ^ 32 mod 2 ^ 32) + (h * 2 ^ 32 + f) mod 2 ^ 32"
    by (rule zmod_zmult2_eq) simp
  moreover have "(h * 2 ^ 32 + f) div 2 ^ 32 = h" "(h * 2 ^ 32 + f) mod 2 ^ 32 = f"
    using assms by simp_all
  ultimately show ?thesis by simp
qed

lemma uint_offset:
  "uint (a + word_of_int k) = (uint a + k) mod 2 ^ 32" for a :: u32
proof -
  have "a + word_of_int k = word_of_int (uint a + k)" by simp
  then show ?thesis by (simp only: uint_word_of_int) simp
qed

lemma uint_of_nat32: "n < 2 ^ 32 \<Longrightarrow> uint (of_nat n :: u32) = int n"
  by (simp add: unsigned_of_nat take_bit_eq_mod)

lemma unat_lt32: "unat a < 2 ^ 32" for a :: u32
  using unsigned_less [of a] by simp

lemma Add_fields:
  fixes conv :: "int \<Rightarrow> u32" and ts :: TWAMPTimestamp and d :: int
  defines "q \<equiv> quot d time_Second" and "f \<equiv> nanos_to_uint32 conv (remn d time_Second)"
  defines "c \<equiv> (if 2 ^ 32 \<le> uint (Fraction ts) + uint f then 1 else 0) :: int"
  shows "Seconds (TWAMPTimestamp_Add conv ts d) = Seconds ts + word_of_int (q + c)"
    and "uint (Fraction (TWAMPTimestamp_Add conv ts d)) = uint (Fraction ts) + uint f - c * 2 ^ 32"
proof -
  let ?n = "unat (Fraction ts) + unat f"
  have n: "int ?n = uint (Fraction ts) + uint f" by simp
  have r: "TWAMPTimestamp_Add conv ts d =
      (if 2 ^ 32 \<le> ?n
       then \<lparr>Seconds = Seconds ts + word_of_int q + 1, Fraction = of_nat (?n - 2 ^ 32)\<rparr>
       else \<lparr>Seconds = Seconds ts + word_of_int q, Fraction = of_nat ?n\<rparr>)"
    by (simp add: TWAMPTimestamp_Add_def Let_def q_def f_def)
  have c: "c = (if 2 ^ 32 \<le> ?n then 1 else 0)"
  proof -
    have "2 ^ 32 = int (2 ^ 32)" by simp
    then have "2 ^ 32 \<le> int ?n \<longleftrightarrow> 2 ^ 32 \<le> ?n" by (simp only: of_nat_le_iff)
    then show ?thesis unfolding c_def n by (simp only:)
  qed
  show "Seconds (TWAMPTimestamp_Add conv ts d) = Seconds ts + word_of_int (q + c)"
    by (simp add: r c)
  show "uint (Fraction (TWAMPTimestamp_Add conv ts d)) = uint (Fraction ts) + uint f - c * 2 ^ 32"
  proof (cases "2 ^ 32 \<le> ?n")
    case True
    then have "uint (of_nat (?n - 2 ^ 32) :: u32) = int (?n - 2 ^ 32)"
      using unat_lt32 [of "Fraction ts"] unat_lt32 [of f] by (intro uint_of_nat32) linarith
    also have "\<dots> = uint (Fraction ts) + uint f - 2 ^ 32"
      using True by (simp add: of_nat_diff)
    finally show ?thesis using True by (simp add: r c)
  next
    case False
    then have "uint (of_nat ?n :: u32) = int ?n"
      by (intro uint_of_nat32) linarith
    with False show ?thesis by (simp add: r c)
  qed
qed

lemma Sub_fields:
  fixes conv :: "int \<Rightarrow> u32" and ts :: TWAMPTimestamp and d :: int
  defines "q \<equiv> quot d time_Second" and "f \<equiv> nanos_to_uint32 conv (remn d time_Second)"
  defines "c \<equiv> (if uint (Fraction ts) < uint f then 1 else 0) :: int"
  shows "Seconds (TWAMPTimestamp_Sub conv ts d) = Seconds ts + word_of_int (- q - c)"
    and "uint (Fraction (TWAMPTimestamp_Sub conv ts d)) = uint (Fraction ts) - uint f + c * 2 ^ 32"
proof -
  let ?n = "unat (Fraction ts) + 2 ^ 32 - unat f"
  have r: "TWAMPTimestamp_Sub conv ts d =
      (if Fraction ts < f
       then \<lparr>Seconds = Seconds ts - word_of_int q - 1, Fraction = of_nat ?n\<rparr>
       else \<lparr>Seconds = Seconds ts - word_of_int q, Fraction = Fraction ts - f\<rparr>)"
    by (simp add: TWAMPTimestamp_Sub_def Let_def q_def f_def)
  have c: "c = (if Fraction ts < f then 1 else 0)"
    by (simp add: c_def word_less_def)
  show "Seconds (TWAMPTimestamp_Sub conv ts d) = Seconds ts + word_of_int (- q - c)"
    by (simp add: r c)
  show "uint (Fraction (TWAMPTimestamp_Sub conv ts d)) = uint (Fraction ts) - uint f + c * 2 ^ 32"
  proof (cases "Fraction ts < f")
    case True
    then have lt: "unat (Fraction ts) < unat f" by (simp add: word_less_nat_alt)
    then have "uint (of_nat ?n :: u32) = int ?n"
      using unat_lt32 [of f] by (intro uint_of_nat32) linarith
    also have "\<dots> = uint (Fraction ts) - uint f + 2 ^ 32"
      using unat_lt32 [of f] by (simp add: of_nat_diff)
    finally show ?thesis using True by (simp add: r c)
  next
    case False
    then have "uint (Fraction ts - f) = uint (Fraction ts) - uint f"
      by (simp add: uint_minus_simple_alt [THEN iffD1] not_less)
    with False show ?thesis by (simp add: r c)
  qed
qed

lemma uint_bounds32: "0 \<le> uint a \<and> uint a < 2 ^ 32" for a :: u32
  using uint_bounded [of a] by simp

lemma carry_bounds:
  fixes x y :: int
  assumes "0 \<le> x \<and> x < 2 ^ 32" and "0 \<le> y \<and> y < 2 ^ 32"
  shows "0 \<le> x + y - (if 2 ^ 32 \<le> x + y then 1 else 0) * 2 ^ 32 \<and>
    x + y - (if 2 ^ 32 \<le> x + y then 1 else 0) * 2 ^ 32 < 2 ^ 32"
  using assms by auto

lemma borrow_bounds:
  fixes x y :: int
  assumes "0 \<le> x \<and> x < 2 ^ 32" and "0 \<le> y \<and> y < 2 ^ 32"
  shows "0 \<le> x - y + (if x < y then 1 else 0) * 2 ^ 32 \<and>
    x - y + (if x < y then 1 else 0) * 2 ^ 32 < 2 ^ 32"
  using assms by auto

lemma Add_abs:
  "ts_abs (TWAMPTimestamp_Add conv ts d) = (ts_abs ts + duration_abs conv d) mod 2 ^ 64"
proof -
  define q f where "q = quot d time_Second" and "f = nanos_to_uint32 conv (remn d time_Second)"
  define c :: int where "c = (if 2 ^ 32 \<le> uint (Fraction ts) + uint f then 1 else 0)"
  note fields = Add_fields [of conv ts d, folded q_def f_def, folded c_def]
  have b: "0 \<le> uint (Fraction ts) + uint f - c * 2 ^ 32 \<and> uint (Fraction ts) + uint f - c * 2 ^ 32 < 2 ^ 32"
    unfolding c_def by (rule carry_bounds [OF uint_bounds32 uint_bounds32])
  have "ts_abs (TWAMPTimestamp_Add conv ts d) =
      ((uint (Seconds ts) + (q + c)) * 2 ^ 32 + (uint (Fraction ts) + uint f - c * 2 ^ 32)) mod 2 ^ 64"
    unfolding ts_abs_def fields uint_offset by (rule fixed64 [OF conjunct1 [OF b] conjunct2 [OF b]])
  also have "(uint (Seconds ts) + (q + c)) * 2 ^ 32 + (uint (Fraction ts) + uint f - c * 2 ^ 32) =
      ts_abs ts + duration_abs conv d"
    by (simp add: ts_abs_def duration_abs_def algebra_simps flip: q_def f_def)
  finally show ?thesis .
qed

lemma Sub_abs:
  "ts_abs (TWAMPTimestamp_Sub conv ts d) = (ts_abs ts - duration_abs conv d) mod 2 ^ 64"
proof -
  define q f where "q = quot d time_Second" and "f = nanos_to_uint32 conv (remn d time_Second)"
  define c :: int where "c = (if uint (Fraction ts) < uint f then 1 else 0)"
  note fields = Sub_fields [of conv ts d, folded q_def f_def, folded c_def]
  have b: "0 \<le> uint (Fraction ts) - uint f + c * 2 ^ 32 \<and> uint (Fraction ts) - uint f + c * 2 ^ 32 < 2 ^ 32"
    unfolding c_def by (rule borrow_bounds [OF uint_bounds32 uint_bounds32])
  have "ts_abs (TWAMPTimestamp_Sub conv ts d) =
      ((uint (Seconds ts) + (- q - c)) * 2 ^ 32 + (uint (Fraction ts) - uint f + c * 2 ^ 32)) mod 2 ^ 64"
    unfolding ts_abs_def fields uint_offset by (rule fixed64 [OF conjunct1 [OF b] conjunct2 [OF b]])
  also have "(uint (Seconds ts) + (- q - c)) * 2 ^ 32 + (uint (Fraction ts) - uint f + c * 2 ^ 32) =
      ts_abs ts - duration_abs conv d"
    by (simp add: ts_abs_def duration_abs_def algebra_simps flip: q_def f_def)
  finally show ?thesis .
qed

text \<open>
  \<open>DurationBetween\<close> picks the difference of seconds of least absolute value, then borrows
  for the fraction: \<open>sec_gap\<close> is the first, \<open>duration_gap\<close> the difference in 2^-32 seconds.
\<close>

definition sec_gap :: "int \<Rightarrow> int \<Rightarrow> int" where
  "sec_gap x y =
     (if 2 ^ 31 < x - y then y + 2 ^ 32 - x else if 2 ^ 31 < y - x then y - (x + 2 ^ 32) else y - x)"

definition duration_gap :: "TWAMPTimestamp \<Rightarrow> TWAMPTimestamp \<Rightarrow> int" where
  "duration_gap s e =
     sec_gap (uint (Seconds s)) (uint (Seconds e)) * 2 ^ 32 + (uint (Fraction e) - uint (Fraction s))"

lemma word_gap: "a < b \<and> 2 ^ 31 < b - a \<longleftrightarrow> 2 ^ 31 < uint b - uint a" for a b :: u32
proof (cases "a \<le> b")
  case True
  then have "uint (b - a) = uint b - uint a"
    by (simp add: uint_minus_simple_alt [THEN iffD1])
  with True show ?thesis by (auto simp: word_less_def)
next
  case False
  then have "uint b < uint a" by (simp add: word_less_def not_le)
  with False show ?thesis by auto
qed

lemma sec_gap_bounds: "\<bar>x - y\<bar> < 2 ^ 32 \<Longrightarrow> \<bar>sec_gap x y\<bar> \<le> 2 ^ 31"
  by (auto simp: sec_gap_def)

lemma sec_gap_mod: "\<exists>k. sec_gap x y = y - x + k * 2 ^ 32"
  unfolding sec_gap_def
  by (intro exI [of _ "if 2 ^ 31 < x - y then 1 else if 2 ^ 31 < y - x then - 1 else 0"]) simp

lemma scaled_div:
  "0 \<le> f \<Longrightarrow> f < 2 ^ 32 \<Longrightarrow>
    s * time_Second + int (frac_to_nano (nat f)) = (s * 2 ^ 32 + f) * 10 ^ 9 div 2 ^ 32"
  for s f :: int
proof -
  assume f: "0 \<le> f" "f < 2 ^ 32"
  then have "frac_to_nano (nat f) = nat f * 10 ^ 9 div 2 ^ 32"
    by (intro frac_to_nano_exact) simp
  then have "int (frac_to_nano (nat f)) = f * 10 ^ 9 div 2 ^ 32"
    using f by (simp add: zdiv_int)
  moreover have "(s * 2 ^ 32 + f) * 10 ^ 9 div 2 ^ 32 = (f * 10 ^ 9 + s * 10 ^ 9 * 2 ^ 32) div 2 ^ 32"
    by (simp add: algebra_simps)
  ultimately show ?thesis by simp
qed

lemma scaled_bounds:
  fixes s f :: int
  assumes "\<bar>s\<bar> \<le> 2 ^ 31 + 1" "0 \<le> f" "f < 2 ^ 32"
  shows "wrap64 (wrap64 (s * time_Second) + int (frac_to_nano (nat f))) =
    (s * 2 ^ 32 + f) * 10 ^ 9 div 2 ^ 32"
proof -
  have "frac_to_nano (nat f) = nat f * 10 ^ 9 div 2 ^ 32"
    using assms by (intro frac_to_nano_exact) simp
  then have n: "frac_to_nano (nat f) < 10 ^ 9"
    using assms by (simp add: less_mult_imp_div_less)
  have w: "wrap64 (s * time_Second) = s * time_Second"
    using assms(1) by (intro wrap64_id) auto
  have "wrap64 (s * time_Second + int (frac_to_nano (nat f))) =
      s * time_Second + int (frac_to_nano (nat f))"
    using assms(1) n by (intro wrap64_id) auto
  then show ?thesis unfolding w using assms by (simp only: scaled_div)
qed

lemma DurationBetween_gap: "DurationBetween s e = duration_gap s e * 10 ^ 9 div 2 ^ 32"
proof -
  let ?x = "uint (Seconds s)" and ?y = "uint (Seconds e)"
  have b: "\<bar>sec_gap ?x ?y\<bar> \<le> 2 ^ 31"
    using uint_bounds32 [of "Seconds s"] uint_bounds32 [of "Seconds e"]
    by (intro sec_gap_bounds) linarith
  have g: "(if Seconds e < Seconds s \<and> 2 ^ 31 < Seconds s - Seconds e then ?y + 2 ^ 32 - ?x
      else if Seconds s < Seconds e \<and> 2 ^ 31 < Seconds e - Seconds s then ?y - (?x + 2 ^ 32)
      else ?y - ?x) = sec_gap ?x ?y"
    unfolding word_gap sec_gap_def by (rule refl)
  show ?thesis
  proof (cases "Fraction s \<le> Fraction e")
    case True
    then have "uint (Fraction s) \<le> uint (Fraction e)" by (simp add: word_le_def)
    then have "wrap64 (wrap64 (sec_gap ?x ?y * time_Second) +
        int (frac_to_nano (nat (uint (Fraction e) - uint (Fraction s))))) =
        (sec_gap ?x ?y * 2 ^ 32 + (uint (Fraction e) - uint (Fraction s))) * 10 ^ 9 div 2 ^ 32"
      using b uint_bounds32 [of "Fraction s"] uint_bounds32 [of "Fraction e"]
      by (intro scaled_bounds) linarith+
    then show ?thesis
      using True by (simp only: DurationBetween_def Let_def g if_True prod.case duration_gap_def)
  next
    case False
    then have "uint (Fraction e) < uint (Fraction s)" by (simp add: word_less_def not_le)
    then have "wrap64 (wrap64 ((sec_gap ?x ?y - 1) * time_Second) +
        int (frac_to_nano (nat (uint (Fraction e) + 2 ^ 32 - uint (Fraction s))))) =
        ((sec_gap ?x ?y - 1) * 2 ^ 32 + (uint (Fraction e) + 2 ^ 32 - uint (Fraction s))) * 10 ^ 9 div 2 ^ 32"
      using b uint_bounds32 [of "Fraction s"] uint_bounds32 [of "Fraction e"]
      by (intro scaled_bounds) linarith+
    also have "(sec_gap ?x ?y - 1) * 2 ^ 32 + (uint (Fraction e) + 2 ^ 32 - uint (Fraction s)) =
        duration_gap s e"
      by (simp add: duration_gap_def)
    finally show ?thesis
      using False by (simp only: DurationBetween_def Let_def g if_False prod.case)
  qed
qed

lemma gap_bound:
  fixes s a b :: int
  assumes "\<bar>s\<bar> \<le> 2 ^ 31" and "0 \<le> a \<and> a < 2 ^ 32" and "0 \<le> b \<and> b < 2 ^ 32"
  shows "\<bar>s * 2 ^ 32 + (a - b)\<bar> < 2 ^ 63 + 2 ^ 32"
  using assms by (simp add: abs_le_iff abs_less_iff)

lemma era_mod:
  assumes "0 \<le> x" and "x < (2::int) ^ 33"
  shows "x mod 2 ^ 32 = (if x < 2 ^ 32 then x else x - 2 ^ 32)"
proof (cases "x < 2 ^ 32")
  case True
  with assms show ?thesis by simp
next
  case False
  then have "x mod 2 ^ 32 = (x - 2 ^ 32) mod 2 ^ 32"
    by (metis diff_add_cancel mod_add_self2)
  also have "\<dots> = x - 2 ^ 32"
    using assms False by (intro mod_pos_pos_trivial) simp_all
  finally show ?thesis using False by simp
qed

lemma len32: "LENGTH(32) = 32"
  by simp

lemma gap_diff:
  fixes g D :: int
  shows "\<bar>g\<bar> < 2 ^ 63 + 2 ^ 32 \<Longrightarrow> \<bar>D\<bar> < 2 ^ 63 - 2 ^ 32 \<Longrightarrow> \<bar>g - D\<bar> < 2 ^ 64"
  by (simp add: abs_less_iff)

lemma duration_gap_eq:
  assumes "ts_abs e = (ts_abs s + D) mod 2 ^ 64" and "\<bar>D\<bar> < 2 ^ 63 - 2 ^ 32"
  shows "duration_gap s e = D"
proof -
  let ?x = "uint (Seconds s)" and ?y = "uint (Seconds e)"
  obtain k where k: "sec_gap ?x ?y = ?y - ?x + k * 2 ^ 32"
    using sec_gap_mod by blast
  then have "duration_gap s e = ts_abs e - ts_abs s + k * 2 ^ 64"
    by (simp add: duration_gap_def ts_abs_def algebra_simps)
  moreover obtain m where "ts_abs e = ts_abs s + D - m * 2 ^ 64"
    using assms(1) by (metis minus_mult_div_eq_mod mult.commute)
  ultimately have d: "duration_gap s e - D = (k - m) * 2 ^ 64" by (simp add: algebra_simps)
  have "\<bar>sec_gap ?x ?y\<bar> \<le> 2 ^ 31"
    using uint_bounds32 [of "Seconds s"] uint_bounds32 [of "Seconds e"]
    by (intro sec_gap_bounds) linarith
  then have "\<bar>duration_gap s e\<bar> < 2 ^ 63 + 2 ^ 32"
    unfolding duration_gap_def by (rule gap_bound [OF _ uint_bounds32 uint_bounds32])
  then have "\<bar>(k - m) * 2 ^ 64\<bar> < 2 ^ 64"
    unfolding d [symmetric] by (rule gap_diff [OF _ assms(2)])
  then have "k - m = 0" by (auto simp: abs_if split: if_splits)
  with d show ?thesis by simp
qed

section \<open>Properties\<close>

definition ntp_era :: "go_time \<Rightarrow> int" where
  "ntp_era t = (if unix_secs t < NTPEra1Unix then 0 else 1)"

text \<open>C39: a Go time of the NTP eras 0 and 1 sent as a timestamp and read back: the fraction
  costs at most one nanosecond (none where the nanoseconds are a multiple of 5^9), and the
  seconds are exact when the reference time is of the same era, but wrong by the 2^32 seconds
  of a whole era otherwise, however close the reference time is.\<close>

theorem timestamp_roundtrip:
  assumes "nanosecond t < 10 ^ 9"
    and "- NTPEpochOffset \<le> unix_secs t" and "unix_secs t < 2 ^ 33 - NTPEpochOffset"
  shows "ToTimeWithReference (FromTime t) ref =
    \<lparr>unix_secs = unix_secs t + 2 ^ 32 * (ntp_era ref - ntp_era t),
     nanosecond = (if nanosecond t mod 1953125 = 0 then nanosecond t else nanosecond t - 1)\<rparr>"
proof -
  have s: "uint (Seconds (FromTime t)) = (unix_secs t + NTPEpochOffset) mod 2 ^ 32"
    unfolding Seconds_FromTime uint_word_of_int by (simp only: len32)
  have "(unix_secs t + NTPEpochOffset) mod 2 ^ 32 = unix_secs t + NTPEpochOffset - 2 ^ 32 * ntp_era t"
    using assms(2,3) by (subst era_mod) (simp_all add: ntp_era_def)
  with s show ?thesis
    unfolding ToTimeWithReference_def Fraction_FromTime [OF assms(1)] nano_back [OF assms(1)]
    by (simp add: Let_def ntp_era_def)
qed

text \<open>The witness is one second after the start of era 1 read one second before it.\<close>

theorem timestamp_roundtrip_witness:
  "ToTimeWithReference (FromTime \<lparr>unix_secs = 2085978497, nanosecond = 0\<rparr>)
     \<lparr>unix_secs = 2085978495, nanosecond = 0\<rparr> = \<lparr>unix_secs = - 2208988799, nanosecond = 0\<rparr>"
  using timestamp_roundtrip [of "\<lparr>unix_secs = 2085978497, nanosecond = 0\<rparr>"
      "\<lparr>unix_secs = 2085978495, nanosecond = 0\<rparr>"]
  by (simp add: ntp_era_def)

text \<open>\<open>Add\<close> is addition of the duration to the 64-bit fixed-point value modulo one era,
  with the carry from the fraction, and \<open>Sub\<close> with the same duration undoes it exactly, also
  across the end of an era and whatever the platform does with negative fractions.\<close>

theorem timestamp_Add_Sub:
  "ts_abs (TWAMPTimestamp_Add conv ts d) = (ts_abs ts + duration_abs conv d) mod 2 ^ 64 \<and>
   TWAMPTimestamp_Sub conv (TWAMPTimestamp_Add conv ts d) d = ts"
proof -
  have "ts_abs (TWAMPTimestamp_Sub conv (TWAMPTimestamp_Add conv ts d) d) = ts_abs ts mod 2 ^ 64"
    by (simp only: Sub_abs Add_abs mod_diff_left_eq) simp
  also have "\<dots> = ts_abs ts" using ts_abs_bounds by (intro mod_pos_pos_trivial)
  finally show ?thesis by (simp add: Add_abs ts_abs_inject)
qed

text \<open>C38: \<open>DurationBetween\<close> recovers a true difference of less than 2^31 - 1 seconds in either
  direction, rounded down to nanoseconds, even when the era rolled over between the two
  timestamps, and nothing overflows an \<open>int64\<close> on the way.\<close>

theorem DurationBetween_correct:
  assumes "ts_abs e = (ts_abs s + D) mod 2 ^ 64" and "\<bar>D\<bar> < 2 ^ 63 - 2 ^ 32"
  shows "DurationBetween s e = D * 10 ^ 9 div 2 ^ 32"
  using duration_gap_eq [OF assms] by (simp add: DurationBetween_gap)

theorem DurationBetween_correct_witness:
  "DurationBetween \<lparr>Seconds = 0xFFFFFFFF, Fraction = 0x80000000\<rparr>
     \<lparr>Seconds = 1, Fraction = 0x40000000\<rparr> = 1750000000"
  using DurationBetween_correct [of "\<lparr>Seconds = 1, Fraction = 0x40000000\<rparr>"
      "\<lparr>Seconds = 0xFFFFFFFF, Fraction = 0x80000000\<rparr>" "7516192768"]
  by (simp add: ts_abs_def)

text \<open>The eight bytes of a timestamp and back.\<close>

lemma length_TWAMPTimestamp_bytes [simp]: "length (TWAMPTimestamp_bytes ts) = 8"
  by (simp add: TWAMPTimestamp_bytes_def)

lemma TWAMPTimestamp_read_bytes [simp]: "TWAMPTimestamp_read (TWAMPTimestamp_bytes ts) = ts"
  by (simp add: TWAMPTimestamp_read_def TWAMPTimestamp_bytes_def seg_def)

lemma TWAMPTimestamp_bytes_read [simp]:
  "length b = 8 \<Longrightarrow> TWAMPTimestamp_bytes (TWAMPTimestamp_read b) = b"
  by (simp add: TWAMPTimestamp_read_def TWAMPTimestamp_bytes_def seg_split seg_all)

lemma TWAMPTimestamp_Marshal_bytes:
  "length b = 8 \<Longrightarrow> TWAMPTimestamp_Marshal ts b = Inr (TWAMPTimestamp_bytes ts)"
  by (simp add: TWAMPTimestamp_Marshal_def TWAMPTimestamp_bytes_def copy_at_def)

end
