(* ===== verification/Aes128.thy ===== *)
theory Aes128
  imports Prelude
begin

text \<open>
  AES-128 of \<open>crypto/aes\<close> (FIPS 197) and the CBC mode of \<open>crypto/cipher\<close>, the part of Go's
  standard library on which every secure mode of the program rests: the block functions on
  16-byte lists (column by column, as FIPS 197 loads its state), CBC over whole blocks, and the
  proof that decryption undoes encryption and the reverse. The locale \<open>block_cipher\<close> states
  what CBC needs of a cipher and is interpreted on AES.
\<close>

section \<open>The block cipher\<close>

definition sbox :: "nat list" where
  "sbox = [
    99, 124, 119, 123, 242, 107, 111, 197, 48, 1, 103, 43, 254, 215, 171, 118,
    202, 130, 201, 125, 250, 89, 71, 240, 173, 212, 162, 175, 156, 164, 114, 192,
    183, 253, 147, 38, 54, 63, 247, 204, 52, 165, 229, 241, 113, 216, 49, 21,
    4, 199, 35, 195, 24, 150, 5, 154, 7, 18, 128, 226, 235, 39, 178, 117,
    9, 131, 44, 26, 27, 110, 90, 160, 82, 59, 214, 179, 41, 227, 47, 132,
    83, 209, 0, 237, 32, 252, 177, 91, 106, 203, 190, 57, 74, 76, 88, 207,
    208, 239, 170, 251, 67, 77, 51, 133, 69, 249, 2, 127, 80, 60, 159, 168,
    81, 163, 64, 143, 146, 157, 56, 245, 188, 182, 218, 33, 16, 255, 243, 210,
    205, 12, 19, 236, 95, 151, 68, 23, 196, 167, 126, 61, 100, 93, 25, 115,
    96, 129, 79, 220, 34, 42, 144, 136, 70, 238, 184, 20, 222, 94, 11, 219,
    224, 50, 58, 10, 73, 6, 36, 92, 194, 211, 172, 98, 145, 149, 228, 121,
    231, 200, 55, 109, 141, 213, 78, 169, 108, 86, 244, 234, 101, 122, 174, 8,
    186, 120, 37, 46, 28, 166, 180, 198, 232, 221, 116, 31, 75, 189, 139, 138,
    112, 62, 181, 102, 72, 3, 246, 14, 97, 53, 87, 185, 134, 193, 29, 158,
    225, 248, 152, 17, 105, 217, 142, 148, 155, 30, 135, 233, 206, 85, 40, 223,
    140, 161, 137, 13, 191, 230, 66, 104, 65, 153, 45, 15, 176, 84, 187, 22]"

definition inv_sbox :: "nat list" where
  "inv_sbox = [
    82, 9, 106, 213, 48, 54, 165, 56, 191, 64, 163, 158, 129, 243, 215, 251,
    124, 227, 57, 130, 155, 47, 255, 135, 52, 142, 67, 68, 196, 222, 233, 203,
    84, 123, 148, 50, 166, 194, 35, 61, 238, 76, 149, 11, 66, 250, 195, 78,
    8, 46, 161, 102, 40, 217, 36, 178, 118, 91, 162, 73, 109, 139, 209, 37,
    114, 248, 246, 100, 134, 104, 152, 22, 212, 164, 92, 204, 93, 101, 182, 146,
    108, 112, 72, 80, 253, 237, 185, 218, 94, 21, 70, 87, 167, 141, 157, 132,
    144, 216, 171, 0, 140, 188, 211, 10, 247, 228, 88, 5, 184, 179, 69, 6,
    208, 44, 30, 143, 202, 63, 15, 2, 193, 175, 189, 3, 1, 19, 138, 107,
    58, 145, 17, 65, 79, 103, 220, 234, 151, 242, 207, 206, 240, 180, 230, 115,
    150, 172, 116, 34, 231, 173, 53, 133, 226, 249, 55, 232, 28, 117, 223, 110,
    71, 241, 26, 113, 29, 41, 197, 137, 111, 183, 98, 14, 170, 24, 190, 27,
    252, 86, 62, 75, 198, 210, 121, 32, 154, 219, 192, 254, 120, 205, 90, 244,
    31, 221, 168, 51, 136, 7, 199, 49, 177, 18, 16, 89, 39, 128, 236, 95,
    96, 81, 127, 169, 25, 181, 74, 13, 45, 229, 122, 159, 147, 201, 156, 239,
    160, 224, 59, 77, 174, 42, 245, 176, 200, 235, 187, 60, 131, 83, 153, 97,
    23, 43, 4, 126, 186, 119, 214, 38, 225, 105, 20, 99, 85, 33, 12, 125]"

definition sub_byte :: "u8 \<Rightarrow> u8" where
  "sub_byte x = of_nat (sbox ! unat x)"

definition inv_sub_byte :: "u8 \<Rightarrow> u8" where
  "inv_sub_byte x = of_nat (inv_sbox ! unat x)"

definition shift_rows :: "bytes \<Rightarrow> bytes" where
  "shift_rows s = map ((!) s) [0, 5, 10, 15, 4, 9, 14, 3, 8, 13, 2, 7, 12, 1, 6, 11]"

definition inv_shift_rows :: "bytes \<Rightarrow> bytes" where
  "inv_shift_rows s = map ((!) s) [0, 13, 10, 7, 4, 1, 14, 11, 8, 5, 2, 15, 12, 9, 6, 3]"

text \<open>\<open>xtime\<close> multiplies by x in GF(2^8) modulo x^8 + x^4 + x^3 + x + 1.\<close>

definition xtime :: "u8 \<Rightarrow> u8" where
  "xtime x = push_bit 1 x XOR (if bit x 7 then 0x1B else 0)"

definition gmul3 :: "u8 \<Rightarrow> u8" where "gmul3 x = xtime x XOR x"
definition gmul9 :: "u8 \<Rightarrow> u8" where "gmul9 x = xtime (xtime (xtime x)) XOR x"
definition gmul11 :: "u8 \<Rightarrow> u8" where "gmul11 x = xtime (xtime (xtime x)) XOR xtime x XOR x"
definition gmul13 :: "u8 \<Rightarrow> u8" where "gmul13 x = xtime (xtime (xtime x)) XOR xtime (xtime x) XOR x"
definition gmul14 :: "u8 \<Rightarrow> u8" where
  "gmul14 x = xtime (xtime (xtime x)) XOR xtime (xtime x) XOR xtime x"

fun mix_columns :: "bytes \<Rightarrow> bytes" where
  "mix_columns (a # b # c # d # s) =
     (xtime a XOR gmul3 b XOR c XOR d) # (a XOR xtime b XOR gmul3 c XOR d) #
     (a XOR b XOR xtime c XOR gmul3 d) # (gmul3 a XOR b XOR c XOR xtime d) # mix_columns s"
| "mix_columns s = s"

fun inv_mix_columns :: "bytes \<Rightarrow> bytes" where
  "inv_mix_columns (a # b # c # d # s) =
     (gmul14 a XOR gmul11 b XOR gmul13 c XOR gmul9 d) #
     (gmul9 a XOR gmul14 b XOR gmul11 c XOR gmul13 d) #
     (gmul13 a XOR gmul9 b XOR gmul14 c XOR gmul11 d) #
     (gmul11 a XOR gmul13 b XOR gmul9 c XOR gmul14 d) # inv_mix_columns s"
| "inv_mix_columns s = s"

definition xor_bytes :: "bytes \<Rightarrow> bytes \<Rightarrow> bytes" where
  "xor_bytes a b = map2 (XOR) a b"

text \<open>
  The key schedule: \<open>next_key r k\<close> is the round key after \<open>k\<close>, with the round constant \<open>r\<close>.
\<close>

definition next_key :: "u8 \<Rightarrow> bytes \<Rightarrow> bytes" where
  "next_key r k =
     (let t = xor_bytes [sub_byte (k ! 13), sub_byte (k ! 14), sub_byte (k ! 15), sub_byte (k ! 12)]
                [r, 0, 0, 0];
          w0 = xor_bytes (seg 0 4 k) t;
          w1 = xor_bytes (seg 4 8 k) w0;
          w2 = xor_bytes (seg 8 12 k) w1;
          w3 = xor_bytes (seg 12 16 k) w2
      in w0 @ w1 @ w2 @ w3)"

fun round_keys :: "u8 list \<Rightarrow> bytes \<Rightarrow> bytes list" where
  "round_keys [] k = []"
| "round_keys (r # rs) k = (let k' = next_key r k in k' # round_keys rs k')"

definition rcon :: "u8 list" where
  "rcon = [0x01, 0x02, 0x04, 0x08, 0x10, 0x20, 0x40, 0x80, 0x1B]"

definition last_rcon :: u8 where "last_rcon = 0x36"

definition aes_round :: "bytes \<Rightarrow> bytes \<Rightarrow> bytes" where
  "aes_round s k = xor_bytes (mix_columns (shift_rows (map sub_byte s))) k"

definition inv_aes_round :: "bytes \<Rightarrow> bytes \<Rightarrow> bytes" where
  "inv_aes_round s k = map inv_sub_byte (inv_shift_rows (inv_mix_columns (xor_bytes s k)))"

definition last_key :: "bytes \<Rightarrow> bytes" where
  "last_key k = next_key last_rcon (last (round_keys rcon k))"

definition aes_encrypt :: "bytes \<Rightarrow> bytes \<Rightarrow> bytes" where
  "aes_encrypt k b =
     xor_bytes (shift_rows (map sub_byte
       (foldl aes_round (xor_bytes b k) (round_keys rcon k)))) (last_key k)"

definition aes_decrypt :: "bytes \<Rightarrow> bytes \<Rightarrow> bytes" where
  "aes_decrypt k b =
     xor_bytes (foldl inv_aes_round
       (map inv_sub_byte (inv_shift_rows (xor_bytes b (last_key k)))) (rev (round_keys rcon k))) k"

section \<open>Decryption undoes encryption\<close>

lemma inv_sbox_sbox: "map ((!) inv_sbox) sbox = [0..<256]"
  by code_simp

lemma length_sbox: "length sbox = 256"
  by (simp add: sbox_def)

lemma sbox_bound: "\<forall>y \<in> set sbox. y < 256"
  by (simp add: sbox_def)

lemma inv_sub_sub [simp]: "inv_sub_byte (sub_byte x) = x"
proof -
  have i: "unat x < length sbox"
    using unsigned_less [of x] by (simp add: length_sbox)
  then have "sbox ! unat x < 256" using sbox_bound by simp
  moreover have "inv_sbox ! (sbox ! unat x) = unat x"
    using arg_cong [OF inv_sbox_sbox, of "\<lambda>l. l ! unat x"] i by (simp add: length_sbox)
  ultimately show ?thesis
    by (simp add: inv_sub_byte_def sub_byte_def unat_of_nat)
qed

lemma inv_sub_comp_sub [simp]: "inv_sub_byte \<circ> sub_byte = id"
  by (simp add: fun_eq_iff)

lemma length16E:
  assumes "length s = 16"
  obtains a b c d e f g h i j k l m n q r where "s = [a, b, c, d, e, f, g, h, i, j, k, l, m, n, q, r]"
  using assms by (auto simp: length_Suc_conv eval_nat_numeral)

lemma length_shift [simp]: "length (shift_rows s) = 16" "length (inv_shift_rows s) = 16"
  by (simp_all add: shift_rows_def inv_shift_rows_def)

lemma inv_shift_shift [simp]: "length s = 16 \<Longrightarrow> inv_shift_rows (shift_rows s) = s"
  by (erule length16E) (simp add: shift_rows_def inv_shift_rows_def)

lemma xtime_xor [simp]: "xtime (x XOR y) = xtime x XOR xtime y"
  by (rule bit_word_eqI) (auto simp: xtime_def bit_simps)

lemma xor_cancel [simp]: "x XOR (x XOR y) = y" for x :: u8
  by (simp flip: xor.assoc)

lemma inv_mix_mix [simp]: "inv_mix_columns (mix_columns s) = s"
proof (induction s rule: mix_columns.induct)
  case (1 a b c d s)
  then show ?case
    by (simp add: gmul3_def gmul9_def gmul11_def gmul13_def gmul14_def xor.assoc xor.commute
        xor.left_commute)
qed simp_all

lemma length_mix [simp]: "length (mix_columns s) = length s"
  by (induction s rule: mix_columns.induct) simp_all

lemma length_inv_mix [simp]: "length (inv_mix_columns s) = length s"
  by (induction s rule: inv_mix_columns.induct) simp_all

lemma length_xor_bytes [simp]: "length (xor_bytes a b) = min (length a) (length b)"
  by (simp add: xor_bytes_def)

lemma nth_xor_bytes [simp]:
  "i < length a \<Longrightarrow> i < length b \<Longrightarrow> xor_bytes a b ! i = a ! i XOR b ! i"
  by (simp add: xor_bytes_def)

lemma xor_bytes_twice [simp]: "length a \<le> length b \<Longrightarrow> xor_bytes (xor_bytes a b) b = a"
  by (rule nth_equalityI) (simp_all add: xor.assoc)

lemma length_next_key [simp]: "length k = 16 \<Longrightarrow> length (next_key r k) = 16"
  by (simp add: next_key_def Let_def)

lemma length_round_keys: "length k = 16 \<Longrightarrow> \<forall>k' \<in> set (round_keys rs k). length k' = 16"
  by (induction rs k rule: round_keys.induct) (simp_all add: Let_def)

lemma round_keys_Nil [simp]: "round_keys rs k = [] \<longleftrightarrow> rs = []"
  by (cases rs) (simp_all add: Let_def)

lemma length_last_key [simp]: "length k = 16 \<Longrightarrow> length (last_key k) = 16"
proof -
  assume k: "length k = 16"
  have "round_keys rcon k \<noteq> []" by (simp only: round_keys_Nil) (simp add: rcon_def)
  then show ?thesis
    unfolding last_key_def
    by (rule length_next_key [OF bspec [OF length_round_keys [OF k] last_in_set]])
qed

lemma length_aes_round [simp]:
  "length s = 16 \<Longrightarrow> length k = 16 \<Longrightarrow> length (aes_round s k) = 16"
  by (simp add: aes_round_def)

lemma length_inv_aes_round [simp]: "length (inv_aes_round s k) = 16"
  by (simp add: inv_aes_round_def)

lemma inv_round_round [simp]:
  "length s = 16 \<Longrightarrow> length k = 16 \<Longrightarrow> inv_aes_round (aes_round s k) k = s"
  by (simp add: inv_aes_round_def aes_round_def)

lemma length_rounds:
  "length s = 16 \<Longrightarrow> \<forall>k \<in> set ks. length k = 16 \<Longrightarrow> length (foldl aes_round s ks) = 16"
  by (induction ks arbitrary: s) simp_all

lemma inv_rounds_rounds:
  "length s = 16 \<Longrightarrow> \<forall>k \<in> set ks. length k = 16 \<Longrightarrow>
    foldl inv_aes_round (foldl aes_round s ks) (rev ks) = s"
  by (induction ks arbitrary: s) simp_all

lemma length_aes_encrypt [simp]: "length k = 16 \<Longrightarrow> length (aes_encrypt k b) = 16"
  by (simp add: aes_encrypt_def)

lemma length_inv_rounds: "length s = 16 \<Longrightarrow> length (foldl inv_aes_round s ks) = 16"
  by (induction ks arbitrary: s) simp_all

lemma length_aes_decrypt [simp]: "length k = 16 \<Longrightarrow> length (aes_decrypt k b) = 16"
  by (simp add: aes_decrypt_def length_inv_rounds)

lemma aes_decrypt_encrypt:
  assumes "length k = 16" and "length b = 16"
  shows "aes_decrypt k (aes_encrypt k b) = b"
  using assms length_round_keys [of k rcon]
  by (simp add: aes_decrypt_def aes_encrypt_def inv_rounds_rounds length_rounds)

text \<open>
  The other direction follows by counting: on the finitely many 16-byte blocks the injective
  encryption is onto.
\<close>

lemma finite_blocks: "finite {b :: bytes. length b = n}"
proof -
  have "{b :: bytes. length b = n} = {b. set b \<subseteq> UNIV \<and> length b = n}" by simp
  then show ?thesis by (simp only: finite_lists_length_eq [OF finite])
qed

lemma aes_encrypt_decrypt:
  assumes "length k = 16" and "length b = 16"
  shows "aes_encrypt k (aes_decrypt k b) = b"
proof -
  let ?B = "{b :: bytes. length b = 16}"
  have "inj_on (aes_encrypt k) ?B"
    by (rule inj_on_inverseI [of _ "aes_decrypt k"]) (simp add: aes_decrypt_encrypt assms)
  moreover have "aes_encrypt k ` ?B \<subseteq> ?B" using assms by auto
  ultimately have "aes_encrypt k ` ?B = ?B" by (intro endo_inj_surj [OF finite_blocks])
  then have "b \<in> aes_encrypt k ` ?B" using assms by simp
  then obtain p where "length p = 16" and "b = aes_encrypt k p" by auto
  then show ?thesis by (simp add: aes_decrypt_encrypt assms)
qed

section \<open>Cipher block chaining\<close>

text \<open>
  \<open>NewCBCEncrypter(block, iv).CryptBlocks\<close> and its inverse, on whole blocks (Go panics on a
  partial block, which every caller rules out), and the IV a stream goes on with: the last
  ciphertext block.
\<close>

fun cbc_enc :: "(bytes \<Rightarrow> bytes) \<Rightarrow> bytes \<Rightarrow> bytes \<Rightarrow> bytes" where
  "cbc_enc E iv p =
     (if length p < 16 then []
      else (let c = E (xor_bytes (take 16 p) iv) in c @ cbc_enc E c (drop 16 p)))"

fun cbc_dec :: "(bytes \<Rightarrow> bytes) \<Rightarrow> bytes \<Rightarrow> bytes \<Rightarrow> bytes" where
  "cbc_dec D iv c =
     (if length c < 16 then []
      else xor_bytes (D (take 16 c)) iv @ cbc_dec D (take 16 c) (drop 16 c))"

declare cbc_enc.simps [simp del] cbc_dec.simps [simp del]

definition last_block :: "bytes \<Rightarrow> bytes" where
  "last_block c = drop (length c - 16) c"

locale block_cipher =
  fixes E :: "bytes \<Rightarrow> bytes \<Rightarrow> bytes" and D :: "bytes \<Rightarrow> bytes \<Rightarrow> bytes"
  assumes len_E: "length k = 16 \<Longrightarrow> length b = 16 \<Longrightarrow> length (E k b) = 16"
    and len_D: "length k = 16 \<Longrightarrow> length b = 16 \<Longrightarrow> length (D k b) = 16"
    and D_E: "length k = 16 \<Longrightarrow> length b = 16 \<Longrightarrow> D k (E k b) = b"
    and E_D: "length k = 16 \<Longrightarrow> length b = 16 \<Longrightarrow> E k (D k b) = b"
begin

lemma len_cbc_enc:
  "length k = 16 \<Longrightarrow> length iv = 16 \<Longrightarrow> 16 dvd length p \<Longrightarrow> length (cbc_enc (E k) iv p) = length p"
proof (induction p arbitrary: iv rule: length_induct)
  case (1 p)
  show ?case
  proof (cases "length p < 16")
    case True
    with 1 show ?thesis by (auto simp: cbc_enc.simps dest: dvd_imp_le)
  next
    case False
    then show ?thesis
      using 1 len_E by (subst cbc_enc.simps) (simp add: Let_def dvd_diff_nat)
  qed
qed

lemma len_cbc_dec:
  "length k = 16 \<Longrightarrow> length iv = 16 \<Longrightarrow> 16 dvd length p \<Longrightarrow> length (cbc_dec (D k) iv p) = length p"
proof (induction p arbitrary: iv rule: length_induct)
  case (1 p)
  show ?case
  proof (cases "length p < 16")
    case True
    with 1 show ?thesis by (auto simp: cbc_dec.simps dest: dvd_imp_le)
  next
    case False
    then show ?thesis
      using 1 len_D by (subst cbc_dec.simps) (simp add: dvd_diff_nat)
  qed
qed

lemma cbc_dec_enc:
  "length k = 16 \<Longrightarrow> length iv = 16 \<Longrightarrow> 16 dvd length p \<Longrightarrow>
    cbc_dec (D k) iv (cbc_enc (E k) iv p) = p"
proof (induction p arbitrary: iv rule: length_induct)
  case (1 p)
  show ?case
  proof (cases "length p < 16")
    case True
    with 1 show ?thesis by (auto simp: cbc_enc.simps cbc_dec.simps dest: dvd_imp_le)
  next
    case False
    then show ?thesis
      using 1 len_E
      by (subst cbc_enc.simps, subst cbc_dec.simps) (simp add: Let_def dvd_diff_nat D_E)
  qed
qed

lemma cbc_enc_dec:
  "length k = 16 \<Longrightarrow> length iv = 16 \<Longrightarrow> 16 dvd length p \<Longrightarrow>
    cbc_enc (E k) iv (cbc_dec (D k) iv p) = p"
proof (induction p arbitrary: iv rule: length_induct)
  case (1 p)
  show ?case
  proof (cases "length p < 16")
    case True
    with 1 show ?thesis by (auto simp: cbc_enc.simps cbc_dec.simps dest: dvd_imp_le)
  next
    case False
    then show ?thesis
      using 1 len_D
      by (subst cbc_dec.simps, subst cbc_enc.simps) (simp add: Let_def dvd_diff_nat E_D)
  qed
qed

lemma cbc_enc_append:
  "length k = 16 \<Longrightarrow> length iv = 16 \<Longrightarrow> 16 dvd length a \<Longrightarrow>
    cbc_enc (E k) iv (a @ b) =
      cbc_enc (E k) iv a @ cbc_enc (E k) (last_block (iv @ cbc_enc (E k) iv a)) b"
proof (induction a arbitrary: iv rule: length_induct)
  case (1 a)
  show ?case
  proof (cases "length a < 16")
    case True
    with 1 show ?thesis by (auto simp: cbc_enc.simps [of _ _ "[]"] last_block_def dest: dvd_imp_le)
  next
    case False
    let ?c = "E k (xor_bytes (take 16 a) iv)"
    have c: "length ?c = 16" using 1 False len_E by simp
    have "cbc_enc (E k) iv (a @ b) = ?c @ cbc_enc (E k) ?c (drop 16 a @ b)"
      using False by (subst cbc_enc.simps) (simp add: Let_def)
    moreover have "cbc_enc (E k) iv a = ?c @ cbc_enc (E k) ?c (drop 16 a)"
      using False by (subst cbc_enc.simps) (simp add: Let_def)
    moreover have "length (drop 16 a) < length a" "16 dvd length (drop 16 a)"
      using False 1 by (simp_all add: dvd_diff_nat)
    ultimately show ?thesis
      using 1 c by (simp add: last_block_def)
  qed
qed

lemma cbc_dec_append:
  "length iv = 16 \<Longrightarrow> 16 dvd length a \<Longrightarrow>
    cbc_dec (D k) iv (a @ b) = cbc_dec (D k) iv a @ cbc_dec (D k) (last_block (iv @ a)) b"
proof (induction a arbitrary: iv rule: length_induct)
  case (1 a)
  show ?case
  proof (cases "length a < 16")
    case True
    with 1 show ?thesis by (auto simp: cbc_dec.simps [of _ _ "[]"] last_block_def dest: dvd_imp_le)
  next
    case False
    have "cbc_dec (D k) iv (a @ b) = xor_bytes (D k (take 16 a)) iv @ cbc_dec (D k) (take 16 a) (drop 16 a @ b)"
      using False by (subst cbc_dec.simps) simp
    moreover have "cbc_dec (D k) iv a = xor_bytes (D k (take 16 a)) iv @ cbc_dec (D k) (take 16 a) (drop 16 a)"
      using False by (subst cbc_dec.simps) simp
    moreover have "length (drop 16 a) < length a" "16 dvd length (drop 16 a)"
      using False 1 by (simp_all add: dvd_diff_nat)
    moreover have "last_block (take 16 a @ drop 16 a) = last_block (iv @ a)"
      using False by (simp add: last_block_def)
    ultimately show ?thesis
      using 1 False by (simp del: append_take_drop_id)
  qed
qed

end

interpretation aes: block_cipher aes_encrypt aes_decrypt
  by unfold_locales (simp_all add: aes_decrypt_encrypt aes_encrypt_decrypt)

end
