(* ===== verification/Sha1_Hmac.thy ===== *)
theory Sha1_Hmac
  imports Prelude
begin

text \<open>
  \<open>crypto/sha1\<close> (FIPS 180-4) and \<open>crypto/hmac\<close> (RFC 2104) of Go's standard library, the
  integrity protection of the secure modes: executable definitions on byte lists, and the length
  of a digest, which is all the program's control flow depends on.
\<close>

section \<open>SHA-1\<close>

definition be64 :: "64 word \<Rightarrow> bytes" where
  "be64 v = be32 (ucast (drop_bit 32 v)) @ be32 (ucast v)"

definition sha1_pad :: "bytes \<Rightarrow> bytes" where
  "sha1_pad m = m @ [0x80] @ zeros ((119 - length m mod 64) mod 64) @ be64 (8 * of_nat (length m))"

definition rotl32 :: "nat \<Rightarrow> u32 \<Rightarrow> u32" where
  "rotl32 n x = push_bit n x OR drop_bit (32 - n) x"

text \<open>The message schedule: the last sixteen words, extended word by word.\<close>

fun expand_words :: "nat \<Rightarrow> u32 list \<Rightarrow> u32 list" where
  "expand_words 0 w = w"
| "expand_words (Suc n) w =
     (let t = length w in
      expand_words n (w @ [rotl32 1 (w ! (t - 3) XOR w ! (t - 8) XOR w ! (t - 14) XOR w ! (t - 16))]))"

definition block_words :: "bytes \<Rightarrow> u32 list" where
  "block_words b = map (\<lambda>i. rd32 (seg (4 * i) (4 * i + 4) b)) [0..<16]"

type_synonym sha1_state = "u32 \<times> u32 \<times> u32 \<times> u32 \<times> u32"

definition sha1_f :: "nat \<Rightarrow> u32 \<Rightarrow> u32 \<Rightarrow> u32 \<Rightarrow> u32" where
  "sha1_f t b c d =
     (if t < 20 then (b AND c) OR (NOT b AND d)
      else if t < 40 then b XOR c XOR d
      else if t < 60 then (b AND c) OR (b AND d) OR (c AND d)
      else b XOR c XOR d)"

definition sha1_k :: "nat \<Rightarrow> u32" where
  "sha1_k t =
     (if t < 20 then 0x5A827999 else if t < 40 then 0x6ED9EBA1
      else if t < 60 then 0x8F1BBCDC else 0xCA62C1D6)"

definition sha1_round :: "sha1_state \<Rightarrow> nat \<times> u32 \<Rightarrow> sha1_state" where
  "sha1_round s tw =
     (case (s, tw) of ((a, b, c, d, e), (t, w)) \<Rightarrow>
        (rotl32 5 a + sha1_f t b c d + e + sha1_k t + w, a, rotl32 30 b, c, d))"

definition sha1_block :: "sha1_state \<Rightarrow> bytes \<Rightarrow> sha1_state" where
  "sha1_block h b =
     (case (h, foldl sha1_round h (enumerate 0 (expand_words 64 (block_words b)))) of
        ((a, b, c, d, e), (a', b', c', d', e')) \<Rightarrow> (a + a', b + b', c + c', d + d', e + e'))"

fun sha1_blocks :: "sha1_state \<Rightarrow> bytes \<Rightarrow> sha1_state" where
  "sha1_blocks h m = (if length m < 64 then h else sha1_blocks (sha1_block h (take 64 m)) (drop 64 m))"

declare sha1_blocks.simps [simp del]

definition sha1_bytes :: "sha1_state \<Rightarrow> bytes" where
  "sha1_bytes h = (case h of (a, b, c, d, e) \<Rightarrow> be32 a @ be32 b @ be32 c @ be32 d @ be32 e)"

definition sha1 :: "bytes \<Rightarrow> bytes" where
  "sha1 m = sha1_bytes
     (sha1_blocks (0x67452301, 0xEFCDAB89, 0x98BADCFE, 0x10325476, 0xC3D2E1F0) (sha1_pad m))"

section \<open>HMAC\<close>

definition hmac_key :: "bytes \<Rightarrow> bytes" where
  "hmac_key k = (let k' = (if 64 < length k then sha1 k else k) in k' @ zeros (64 - length k'))"

definition hmac_sha1 :: "bytes \<Rightarrow> bytes \<Rightarrow> bytes" where
  "hmac_sha1 k m =
     sha1 (map (\<lambda>x. x XOR 0x5C) (hmac_key k) @ sha1 (map (\<lambda>x. x XOR 0x36) (hmac_key k) @ m))"

lemma length_sha1 [simp]: "length (sha1 m) = 20"
  by (simp add: sha1_def sha1_bytes_def split: prod.split)

lemma length_hmac_sha1 [simp]: "length (hmac_sha1 k m) = 20"
  by (simp add: hmac_sha1_def)

lemma sha1_pad_blocks: "64 dvd length (sha1_pad m)"
proof -
  have len: "length (sha1_pad m) = 64 * (length m div 64) + (length m mod 64 + (119 - length m mod 64) mod 64 + 9)"
    by (simp add: sha1_pad_def be64_def)
  have "64 dvd r + (119 - r) mod 64 + 9" if "r < 64" for r :: nat
  proof (cases "r < 56")
    case True
    then have "(119 - r) mod 64 = 55 - r" by (simp add: mod_if)
    with True show ?thesis by simp
  next
    case False
    then have "(119 - r) mod 64 = 119 - r" using that by simp
    with that show ?thesis by simp
  qed
  then have "64 dvd length m mod 64 + (119 - length m mod 64) mod 64 + 9" by simp
  then show ?thesis unfolding len by (intro dvd_add [OF dvd_triv_left])
qed

end
