(* ===== verification/Crypto.thy ===== *)
theory Crypto
  imports Common_Types Aes128 Sha1_Hmac
begin

text \<open>
  The package \<open>crypto\<close>: key derivation, tokens, HMACs, the CBC stream of the control channel
  and the encryption of test packets, in its copying and its in-place form. Keys, IVs and
  messages are byte lists with the length guards of the code. \<open>pbkdf2\<close> (package
  \<open>golang.org/x/crypto\<close>, not part of the repository) is the argument \<open>kdf\<close>: secret, salt and
  iteration count to 48 bytes. Random bytes are arguments of the callers.
\<close>

section \<open>Keys, tokens and message authentication\<close>

record TWAMPKeys =
  AESKey :: bytes
  HMACKey :: bytes
  TestAESKey :: bytes
  TestHMACKey :: bytes
  ClientIV :: bytes
  ServerIV :: bytes

record TokenContents =
  tc_Challenge :: bytes
  tc_AESKey :: bytes
  tc_HMACKey :: bytes

text \<open>
  \<open>aes.NewCipher\<close> keeps the key of the cipher it returns. It takes longer keys too, which no
  caller has: each checks for 16 bytes first.
\<close>

definition aes_NewCipher :: "bytes \<Rightarrow> bytes res" where
  "aes_NewCipher key =
     (if length key = 16 then Inr key else Inl (Errorf ''crypto/aes: invalid key size''))"

definition DeriveKey ::
    "(bytes \<Rightarrow> bytes \<Rightarrow> nat \<Rightarrow> bytes) \<Rightarrow> bytes \<Rightarrow> bytes \<Rightarrow> u32 \<Rightarrow> (bytes \<times> bytes) res" where
  "DeriveKey kdf secret salt count =
     (if length salt \<noteq> 16 then Inl ErrInvalidSaltLen
      else (let key = kdf secret salt (unat count) in Inr (seg 0 16 key, drop 16 key)))"

definition CreateToken :: "bytes \<Rightarrow> bytes \<Rightarrow> bytes \<Rightarrow> bytes res" where
  "CreateToken challenge aesKey hmacKey =
     (if length challenge \<noteq> 16 then Inl (Errorf ''challenge must be exactly 16 bytes'')
      else if length aesKey \<noteq> 16 then Inl (Errorf ''AES key must be exactly 16 bytes'')
      else if length hmacKey \<noteq> 32 then Inl (Errorf ''HMAC key must be exactly 32 bytes'')
      else
        (let plaintext = zeros 64;
             plaintext = copy_at plaintext 0 16 challenge;
             plaintext = copy_at plaintext 16 32 aesKey;
             plaintext = copy_at plaintext 32 64 hmacKey
         in case aes_NewCipher challenge of
              Inl e \<Rightarrow> Inl (Wrap ''failed to create cipher'' [e])
            | Inr block \<Rightarrow> Inr (cbc_enc (aes_encrypt block) (zeros 16) plaintext)))"

definition DecryptToken :: "bytes \<Rightarrow> bytes \<Rightarrow> TokenContents res" where
  "DecryptToken token challenge =
     (if length token \<noteq> 64 then Inl (Errorf ''token must be exactly 64 bytes'')
      else if length challenge \<noteq> 16 then Inl (Errorf ''challenge must be exactly 16 bytes'')
      else
        (case aes_NewCipher challenge of
           Inl e \<Rightarrow> Inl (Wrap ''failed to create cipher'' [e])
         | Inr block \<Rightarrow>
             (let plaintext = cbc_dec (aes_decrypt block) (zeros 16) token;
                  contents = \<lparr>tc_Challenge = seg 0 16 plaintext, tc_AESKey = seg 16 32 plaintext,
                              tc_HMACKey = seg 32 64 plaintext\<rparr>
              in if tc_Challenge contents \<noteq> challenge
                 then Inl (Errorf ''token validation failed: challenge mismatch'')
                 else Inr contents)))"

definition DeriveTestSessionKeys ::
    "bytes \<Rightarrow> bytes \<Rightarrow> session_id \<Rightarrow> (bytes \<times> bytes) res" where
  "DeriveTestSessionKeys controlAESKey controlHMACKey sid =
     (if length controlAESKey \<noteq> 16 then Inl ErrInvalidKeyLength
      else if length controlHMACKey \<noteq> 32 then Inl ErrInvalidKeyLength
      else
        (case aes_NewCipher sid of
           Inl e \<Rightarrow> Inl e
         | Inr block \<Rightarrow>
             Inr (aes_encrypt block controlAESKey,
                  cbc_enc (aes_encrypt block) (zeros 16) controlHMACKey)))"

definition CalculateHMAC :: "bytes \<Rightarrow> bytes \<Rightarrow> bytes res" where
  "CalculateHMAC key message =
     (if length key \<noteq> 32 then Inl ErrInvalidKeyLength
      else Inr (take 16 (hmac_sha1 key message)))"

definition CalculateHMACWithPrefix :: "bytes \<Rightarrow> bytes \<Rightarrow> bytes \<Rightarrow> bytes res" where
  "CalculateHMACWithPrefix key prefix message =
     (if length key \<noteq> 32 then Inl ErrInvalidKeyLength
      else Inr (take 16 (hmac_sha1 key ((if 0 < length prefix then prefix else []) @ message))))"

definition VerifyHMAC :: "bytes \<Rightarrow> bytes \<Rightarrow> bytes \<Rightarrow> bool res" where
  "VerifyHMAC key message expectedHMAC =
     (if length key \<noteq> 32 then Inl ErrInvalidKeyLength
      else if length expectedHMAC \<noteq> 16 then Inl ErrInvalidHMACLength
      else
        (case CalculateHMAC key message of
           Inl e \<Rightarrow> Inl e
         | Inr calculatedHMAC \<Rightarrow> Inr (calculatedHMAC = expectedHMAC)))"

section \<open>Padded blocks\<close>

definition EncryptBlocks :: "bytes \<Rightarrow> bytes \<Rightarrow> bytes \<Rightarrow> bytes res" where
  "EncryptBlocks key iv plaintext =
     (if length key \<noteq> 16 then Inl ErrInvalidKeyLength
      else if length iv \<noteq> 16 then Inl ErrInvalidBlockSize
      else
        (case aes_NewCipher key of
           Inl e \<Rightarrow> Inl e
         | Inr block \<Rightarrow>
             (let padding = 16 - length plaintext mod 16;
                  padding = (if padding = 0 then 16 else padding);
                  paddedText = plaintext @ replicate padding (of_nat padding)
              in Inr (cbc_enc (aes_encrypt block) iv paddedText))))"

definition DecryptBlocks :: "bytes \<Rightarrow> bytes \<Rightarrow> bytes \<Rightarrow> bytes res" where
  "DecryptBlocks key iv ciphertext =
     (if length key \<noteq> 16 then Inl ErrInvalidKeyLength
      else if length iv \<noteq> 16 then Inl ErrInvalidBlockSize
      else if length ciphertext mod 16 \<noteq> 0 then Inl ErrInvalidBlockSize
      else if length ciphertext = 0 then Inl ErrInvalidBlockSize
      else
        (case aes_NewCipher key of
           Inl e \<Rightarrow> Inl e
         | Inr block \<Rightarrow>
             (let plaintext = cbc_dec (aes_decrypt block) iv ciphertext;
                  padding = unat (plaintext ! (length plaintext - 1))
              in if padding = 0 \<or> 16 < padding then Inl (Errorf ''invalid padding value'')
                 else if list_ex (\<lambda>i. plaintext ! i \<noteq> of_nat padding)
                          [length plaintext - padding ..< length plaintext]
                 then Inl (Errorf ''invalid padding'')
                 else Inr (take (length plaintext - padding) plaintext))))"

section \<open>The control-channel stream\<close>

record CBCStream =
  cs_block :: bytes
  cs_iv :: bytes

definition NewCBCStream :: "bytes \<Rightarrow> bytes \<Rightarrow> CBCStream res" where
  "NewCBCStream key iv =
     (if length key \<noteq> 16 then Inl ErrInvalidKeyLength
      else if length iv \<noteq> 16 then Inl ErrInvalidBlockSize
      else
        (case aes_NewCipher key of
           Inl e \<Rightarrow> Inl e
         | Inr block \<Rightarrow> Inr \<lparr>cs_block = block, cs_iv = iv\<rparr>))"

definition CBCStream_Encrypt :: "CBCStream \<Rightarrow> bytes \<Rightarrow> bytes res \<times> CBCStream" where
  "CBCStream_Encrypt s plaintext =
     (if length plaintext = 0 \<or> length plaintext mod 16 \<noteq> 0 then (Inl ErrInvalidBlockSize, s)
      else
        (let ciphertext = cbc_enc (aes_encrypt (cs_block s)) (cs_iv s) plaintext in
         (Inr ciphertext, s\<lparr>cs_iv := last_block ciphertext\<rparr>)))"

definition CBCStream_Decrypt :: "CBCStream \<Rightarrow> bytes \<Rightarrow> bytes res \<times> CBCStream" where
  "CBCStream_Decrypt s ciphertext =
     (if length ciphertext = 0 \<or> length ciphertext mod 16 \<noteq> 0 then (Inl ErrInvalidBlockSize, s)
      else
        (Inr (cbc_dec (aes_decrypt (cs_block s)) (cs_iv s) ciphertext),
         s\<lparr>cs_iv := last_block ciphertext\<rparr>))"

definition EncryptTWAMPControlMessage :: "bytes \<Rightarrow> bytes \<Rightarrow> bytes \<Rightarrow> bytes res" where
  "EncryptTWAMPControlMessage key iv plaintext =
     (case NewCBCStream key iv of
        Inl e \<Rightarrow> Inl e
      | Inr stream \<Rightarrow> fst (CBCStream_Encrypt stream plaintext))"

definition DecryptTWAMPControlMessage :: "bytes \<Rightarrow> bytes \<Rightarrow> bytes \<Rightarrow> bytes res" where
  "DecryptTWAMPControlMessage key iv ciphertext =
     (case NewCBCStream key iv of
        Inl e \<Rightarrow> Inl e
      | Inr stream \<Rightarrow> fst (CBCStream_Decrypt stream ciphertext))"

section \<open>Test packets\<close>

definition encryptTestPacket :: "bytes \<Rightarrow> bytes \<Rightarrow> bytes \<Rightarrow> bool \<Rightarrow> bool \<Rightarrow> bytes res" where
  "encryptTestPacket key iv packet isAuthenticated isReflector =
     (if length key \<noteq> 16 then Inl ErrInvalidKeyLength
      else if length iv \<noteq> 16 then Inl ErrInvalidBlockSize
      else
        (case aes_NewCipher key of
           Inl e \<Rightarrow> Inl e
         | Inr block \<Rightarrow>
             (let minSize = (if isReflector then MinReflectorAuthPacketSize
                             else MinSenderAuthPacketSize)
              in if isAuthenticated then
                   (if length packet < minSize then Inl ErrInvalidBlockSize
                    else Inr (copy_at packet 0 16 (aes_encrypt block (seg 0 16 packet))))
                 else
                   (let encryptLen = (if isReflector then HMACCoverageReflectorEncrypted
                                      else HMACCoverageSenderEncrypted)
                    in if length packet < minSize then Inl ErrInvalidBlockSize
                       else Inr (copy_at packet 0 encryptLen
                              (cbc_enc (aes_encrypt block) (zeros 16) (seg 0 encryptLen packet)))))))"

definition decryptTestPacket :: "bytes \<Rightarrow> bytes \<Rightarrow> bytes \<Rightarrow> bool \<Rightarrow> bool \<Rightarrow> bytes res" where
  "decryptTestPacket key iv packet isAuthenticated isReflector =
     (if length key \<noteq> 16 then Inl ErrInvalidKeyLength
      else if length iv \<noteq> 16 then Inl ErrInvalidBlockSize
      else
        (case aes_NewCipher key of
           Inl e \<Rightarrow> Inl e
         | Inr block \<Rightarrow>
             (let minSize = (if isReflector then MinReflectorAuthPacketSize
                             else MinSenderAuthPacketSize)
              in if isAuthenticated then
                   (if length packet < minSize then Inl ErrInvalidBlockSize
                    else Inr (copy_at packet 0 16 (aes_decrypt block (seg 0 16 packet))))
                 else
                   (let encryptLen = (if isReflector then HMACCoverageReflectorEncrypted
                                      else HMACCoverageSenderEncrypted)
                    in if length packet < minSize then Inl ErrInvalidBlockSize
                       else Inr (copy_at packet 0 encryptLen
                              (cbc_dec (aes_decrypt block) (zeros 16) (seg 0 encryptLen packet)))))))"

definition EncryptTWAMPTestPacket :: "bytes \<Rightarrow> bytes \<Rightarrow> bytes \<Rightarrow> bool \<Rightarrow> bytes res" where
  "EncryptTWAMPTestPacket key iv packet isAuthenticated =
     encryptTestPacket key iv packet isAuthenticated False"

definition EncryptTWAMPReflectorTestPacket :: "bytes \<Rightarrow> bytes \<Rightarrow> bytes \<Rightarrow> bool \<Rightarrow> bytes res" where
  "EncryptTWAMPReflectorTestPacket key iv packet isAuthenticated =
     encryptTestPacket key iv packet isAuthenticated True"

definition DecryptTWAMPTestPacket :: "bytes \<Rightarrow> bytes \<Rightarrow> bytes \<Rightarrow> bool \<Rightarrow> bytes res" where
  "DecryptTWAMPTestPacket key iv packet isAuthenticated =
     decryptTestPacket key iv packet isAuthenticated False"

definition DecryptTWAMPReflectorTestPacket :: "bytes \<Rightarrow> bytes \<Rightarrow> bytes \<Rightarrow> bool \<Rightarrow> bytes res" where
  "DecryptTWAMPReflectorTestPacket key iv packet isAuthenticated =
     decryptTestPacket key iv packet isAuthenticated True"

text \<open>
  The in-place forms return the error and the packet as the caller finds it afterwards. In
  place, \<open>CryptBlocks\<close> overwrites its own input; Go defines the result to be the same for an
  exact overlap.
\<close>

definition encryptTestPacketInPlace ::
    "bytes \<Rightarrow> bytes \<Rightarrow> bytes \<Rightarrow> bool \<Rightarrow> bool \<Rightarrow> unit res \<times> bytes" where
  "encryptTestPacketInPlace key iv packet isAuthenticated isReflector =
     (if length key \<noteq> 16 then (Inl ErrInvalidKeyLength, packet)
      else if length iv \<noteq> 16 then (Inl ErrInvalidBlockSize, packet)
      else
        (case aes_NewCipher key of
           Inl e \<Rightarrow> (Inl e, packet)
         | Inr block \<Rightarrow>
             if isAuthenticated then
               (if length packet < (if isReflector then MinReflectorAuthPacketSize
                                    else MinSenderAuthPacketSize)
                then (Inl ErrInvalidBlockSize, packet)
                else (Inr (), aes_encrypt block (take 16 packet) @ drop 16 packet))
             else
               (let (encryptLen, minSize) =
                      (if isReflector
                       then (HMACCoverageReflectorEncrypted, MinReflectorAuthPacketSize)
                       else (HMACCoverageSenderEncrypted, MinSenderAuthPacketSize))
                in if length packet < minSize then (Inl ErrInvalidBlockSize, packet)
                   else (Inr (), cbc_enc (aes_encrypt block) (zeros 16) (take encryptLen packet)
                                   @ drop encryptLen packet))))"

definition decryptTestPacketInPlace ::
    "bytes \<Rightarrow> bytes \<Rightarrow> bytes \<Rightarrow> bool \<Rightarrow> bool \<Rightarrow> unit res \<times> bytes" where
  "decryptTestPacketInPlace key iv packet isAuthenticated isReflector =
     (if length key \<noteq> 16 then (Inl ErrInvalidKeyLength, packet)
      else if length iv \<noteq> 16 then (Inl ErrInvalidBlockSize, packet)
      else
        (case aes_NewCipher key of
           Inl e \<Rightarrow> (Inl e, packet)
         | Inr block \<Rightarrow>
             if isAuthenticated then
               (if length packet < (if isReflector then MinReflectorAuthPacketSize
                                    else MinSenderAuthPacketSize)
                then (Inl ErrInvalidBlockSize, packet)
                else (Inr (), aes_decrypt block (take 16 packet) @ drop 16 packet))
             else
               (let (encryptLen, minSize) =
                      (if isReflector
                       then (HMACCoverageReflectorEncrypted, MinReflectorAuthPacketSize)
                       else (HMACCoverageSenderEncrypted, MinSenderAuthPacketSize))
                in if length packet < minSize then (Inl ErrInvalidBlockSize, packet)
                   else (Inr (), cbc_dec (aes_decrypt block) (zeros 16) (take encryptLen packet)
                                   @ drop encryptLen packet))))"

definition EncryptTWAMPTestPacketInPlace ::
    "bytes \<Rightarrow> bytes \<Rightarrow> bytes \<Rightarrow> bool \<Rightarrow> unit res \<times> bytes" where
  "EncryptTWAMPTestPacketInPlace key iv packet isAuthenticated =
     encryptTestPacketInPlace key iv packet isAuthenticated False"

definition EncryptTWAMPReflectorTestPacketInPlace ::
    "bytes \<Rightarrow> bytes \<Rightarrow> bytes \<Rightarrow> bool \<Rightarrow> unit res \<times> bytes" where
  "EncryptTWAMPReflectorTestPacketInPlace key iv packet isAuthenticated =
     encryptTestPacketInPlace key iv packet isAuthenticated True"

definition DecryptTWAMPTestPacketInPlace ::
    "bytes \<Rightarrow> bytes \<Rightarrow> bytes \<Rightarrow> bool \<Rightarrow> unit res \<times> bytes" where
  "DecryptTWAMPTestPacketInPlace key iv packet isAuthenticated =
     decryptTestPacketInPlace key iv packet isAuthenticated False"

definition DecryptTWAMPReflectorTestPacketInPlace ::
    "bytes \<Rightarrow> bytes \<Rightarrow> bytes \<Rightarrow> bool \<Rightarrow> unit res \<times> bytes" where
  "DecryptTWAMPReflectorTestPacketInPlace key iv packet isAuthenticated =
     decryptTestPacketInPlace key iv packet isAuthenticated True"

section \<open>Lemmas\<close>

lemma aes_NewCipher_16 [simp]: "length key = 16 \<Longrightarrow> aes_NewCipher key = Inr key"
  by (simp add: aes_NewCipher_def)

text \<open>CBC under AES with a zero IV or any other 16-byte IV.\<close>

lemmas cbc_simps = aes.len_cbc_enc aes.len_cbc_dec aes.cbc_dec_enc aes.cbc_enc_dec

lemma token_plaintext:
  assumes "length c = 16" and "length a = 16" and "length h = 32"
  shows "copy_at (copy_at (copy_at (zeros 64) 0 16 c) 16 32 a) 32 64 h = c @ a @ h"
  using assms by (simp add: wire del: append_assoc)

lemma CreateToken_eq:
  "CreateToken challenge a h = Inr token \<longleftrightarrow>
    length challenge = 16 \<and> length a = 16 \<and> length h = 32 \<and>
    token = cbc_enc (aes_encrypt challenge) (zeros 16) (challenge @ a @ h)"
  by (auto simp: CreateToken_def token_plaintext Let_def)

lemma seg_parts:
  assumes "length p = 64"
  shows "seg 0 16 p @ seg 16 32 p @ seg 32 64 p = p"
  using seg_split [of 16 32 64 p] seg_split [of 0 16 64 p] seg_all [OF assms] by simp

text \<open>The last bytes of a padded plaintext, by index as the code checks them.\<close>

lemma padding_bytes:
  assumes "n \<le> length p"
  shows "\<not> list_ex (\<lambda>i. p ! i \<noteq> x) [length p - n ..< length p] \<longleftrightarrow> drop (length p - n) p = replicate n x"
proof -
  have "drop (length p - n) p = replicate n x \<longleftrightarrow> (\<forall>i<n. p ! (length p - n + i) = x)"
    using assms by (auto simp: list_eq_iff_nth_eq)
  also have "\<dots> \<longleftrightarrow> (\<forall>j \<in> {length p - n ..< length p}. p ! j = x)"
  proof (intro iffI ballI allI impI)
    fix j assume *: "\<forall>i<n. p ! (length p - n + i) = x" and "j \<in> {length p - n ..< length p}"
    then have "j - (length p - n) < n" and "length p - n + (j - (length p - n)) = j" using assms by auto
    with * show "p ! j = x" by metis
  next
    fix i assume *: "\<forall>j \<in> {length p - n ..< length p}. p ! j = x" and "i < n"
    then have "length p - n + i \<in> {length p - n ..< length p}" using assms by auto
    with * show "p ! (length p - n + i) = x" by blast
  qed
  finally show ?thesis by (auto simp: list_ex_iff)
qed

lemma padding_length:
  fixes l n :: nat
  assumes "16 dvd l + n" and "0 < n" and "n \<le> 16"
  shows "n = 16 - l mod 16"
proof -
  obtain q where "l + n = 16 * q" using assms(1) by (elim dvdE)
  moreover have "l = 16 * (l div 16) + l mod 16" "l mod 16 < 16" by simp_all
  ultimately have "q = l div 16 + 1" and "l mod 16 + n = 16 * q - 16 * (l div 16)"
    using assms(2,3) by linarith+
  then show ?thesis by simp
qed

section \<open>Streams\<close>

definition whole_blocks :: "bytes \<Rightarrow> bool" where
  "whole_blocks m \<longleftrightarrow> m \<noteq> [] \<and> 16 dvd length m"

text \<open>One end encrypts messages one by one; the other decrypts what it reads, chunk by chunk.\<close>

fun encrypt_all :: "CBCStream \<Rightarrow> bytes list \<Rightarrow> bytes res \<times> CBCStream" where
  "encrypt_all s [] = (Inr [], s)"
| "encrypt_all s (m # ms) =
     (case CBCStream_Encrypt s m of
        (Inl e, s') \<Rightarrow> (Inl e, s')
      | (Inr c, s') \<Rightarrow> (case encrypt_all s' ms of
            (Inl e, s'') \<Rightarrow> (Inl e, s'')
          | (Inr cs, s'') \<Rightarrow> (Inr (c @ cs), s'')))"

fun decrypt_all :: "CBCStream \<Rightarrow> bytes list \<Rightarrow> bytes res \<times> CBCStream" where
  "decrypt_all s [] = (Inr [], s)"
| "decrypt_all s (c # cs) =
     (case CBCStream_Decrypt s c of
        (Inl e, s') \<Rightarrow> (Inl e, s')
      | (Inr m, s') \<Rightarrow> (case decrypt_all s' cs of
            (Inl e, s'') \<Rightarrow> (Inl e, s'')
          | (Inr ms, s'') \<Rightarrow> (Inr (m @ ms), s'')))"

definition stream_ok :: "CBCStream \<Rightarrow> bool" where
  "stream_ok s \<longleftrightarrow> length (cs_block s) = 16 \<and> length (cs_iv s) = 16"

lemma last_block_append: "16 \<le> length c \<Longrightarrow> last_block (iv @ c) = last_block c"
  by (simp add: last_block_def)

lemma length_last_block: "16 \<le> length c \<Longrightarrow> length (last_block c) = 16"
  by (simp add: last_block_def)

lemma whole_blocks_16: "whole_blocks m \<Longrightarrow> 16 \<le> length m"
  by (auto simp: whole_blocks_def dest: dvd_imp_le)

lemma CBCStream_Encrypt_eq:
  assumes "stream_ok s" and "whole_blocks m"
  defines "c \<equiv> cbc_enc (aes_encrypt (cs_block s)) (cs_iv s) m"
  shows "CBCStream_Encrypt s m = (Inr c, s\<lparr>cs_iv := last_block (cs_iv s @ c)\<rparr>)"
    and "stream_ok (s\<lparr>cs_iv := last_block (cs_iv s @ c)\<rparr>)"
  using assms whole_blocks_16 [OF assms(2)]
  by (simp_all add: CBCStream_Encrypt_def Let_def stream_ok_def whole_blocks_def last_block_append
      length_last_block aes.len_cbc_enc mod_eq_0_iff_dvd)

lemma CBCStream_Decrypt_eq:
  assumes "stream_ok s" and "whole_blocks c"
  shows "CBCStream_Decrypt s c =
      (Inr (cbc_dec (aes_decrypt (cs_block s)) (cs_iv s) c), s\<lparr>cs_iv := last_block (cs_iv s @ c)\<rparr>)"
    and "stream_ok (s\<lparr>cs_iv := last_block (cs_iv s @ c)\<rparr>)"
  using assms whole_blocks_16 [OF assms(2)]
  by (simp_all add: CBCStream_Decrypt_def stream_ok_def whole_blocks_def last_block_append
      length_last_block mod_eq_0_iff_dvd)

lemma last_block_chain: "16 \<le> length c \<Longrightarrow> last_block (last_block c @ d) = last_block (c @ d)"
  by (auto simp: last_block_def add.commute)

lemma encrypt_all_eq:
  assumes "stream_ok s" and "list_all whole_blocks ms"
  shows "encrypt_all s ms =
    (Inr (cbc_enc (aes_encrypt (cs_block s)) (cs_iv s) (concat ms)),
     s\<lparr>cs_iv := last_block (cs_iv s @ cbc_enc (aes_encrypt (cs_block s)) (cs_iv s) (concat ms))\<rparr>)"
  using assms
proof (induction ms arbitrary: s)
  case Nil
  then show ?case by (simp add: cbc_enc.simps last_block_def stream_ok_def)
next
  case (Cons m ms)
  have m: "whole_blocks m" using Cons.prems by simp
  note e = CBCStream_Encrypt_eq [OF Cons.prems(1) m]
  show ?case
    using Cons e(2) m
    by (simp add: e(1) stream_ok_def whole_blocks_def aes.cbc_enc_append last_block_chain)
qed

lemma decrypt_all_eq:
  assumes "stream_ok s" and "list_all whole_blocks cs"
  shows "decrypt_all s cs =
    (Inr (cbc_dec (aes_decrypt (cs_block s)) (cs_iv s) (concat cs)),
     s\<lparr>cs_iv := last_block (cs_iv s @ concat cs)\<rparr>)"
  using assms
proof (induction cs arbitrary: s)
  case Nil
  then show ?case by (simp add: cbc_dec.simps last_block_def stream_ok_def)
next
  case (Cons c cs)
  have c: "whole_blocks c" using Cons.prems by simp
  note e = CBCStream_Decrypt_eq [OF Cons.prems(1) c]
  show ?case
    using Cons e(2) c
    by (simp add: e(1) stream_ok_def whole_blocks_def aes.cbc_dec_append last_block_chain)
qed

section \<open>Encrypted prefixes\<close>

text \<open>How many bytes of a packet a mode encrypts, the shortest packet, and the cipher used.\<close>

definition coverage :: "bool \<Rightarrow> bool \<Rightarrow> nat" where
  "coverage auth isRefl = (if auth then 16 else HMACCoverage True isRefl)"

definition min_packet :: "bool \<Rightarrow> nat" where
  "min_packet isRefl = (if isRefl then MinReflectorAuthPacketSize else MinSenderAuthPacketSize)"

definition test_enc :: "bytes \<Rightarrow> bool \<Rightarrow> bytes \<Rightarrow> bytes" where
  "test_enc key auth = (if auth then aes_encrypt key else cbc_enc (aes_encrypt key) (zeros 16))"

definition test_dec :: "bytes \<Rightarrow> bool \<Rightarrow> bytes \<Rightarrow> bytes" where
  "test_dec key auth = (if auth then aes_decrypt key else cbc_dec (aes_decrypt key) (zeros 16))"

lemma min_packet_coverage: "coverage auth isRefl \<le> min_packet isRefl"
  by (simp add: min_packet_def coverage_def HMACCoverage_def)

lemma coverage_cases: "auth \<and> coverage auth isRefl = 16 \<or> \<not> auth \<and> 16 dvd coverage auth isRefl"
  by (auto simp: coverage_def HMACCoverage_def)

lemma test_enc_dec:
  assumes "length key = 16" and "length b = coverage auth isRefl"
  shows "length (test_enc key auth b) = length b" and "length (test_dec key auth b) = length b"
    and "test_dec key auth (test_enc key auth b) = b"
    and "test_enc key auth (test_dec key auth b) = b"
  using assms coverage_cases [of auth isRefl]
  by (auto simp: test_enc_def test_dec_def cbc_simps aes.len_E aes.len_D aes_decrypt_encrypt
      aes_encrypt_decrypt)

lemma copy_prefix: "length s = n \<Longrightarrow> n \<le> length p \<Longrightarrow> copy_at p 0 n s = s @ drop n p"
  by (simp add: copy_at_def)

lemma encryptTestPacket_eq:
  "encryptTestPacket key iv p auth isRefl =
    (if length key \<noteq> 16 then Inl ErrInvalidKeyLength
     else if length iv \<noteq> 16 \<or> length p < min_packet isRefl then Inl ErrInvalidBlockSize
     else Inr (test_enc key auth (take (coverage auth isRefl) p) @ drop (coverage auth isRefl) p))"
proof -
  have "length (test_enc key auth (take (coverage auth isRefl) p)) = coverage auth isRefl"
    if "length key = 16" "\<not> length p < min_packet isRefl"
    using that min_packet_coverage [of auth isRefl] by (subst test_enc_dec(1)) auto
  then show ?thesis
    by (auto simp: encryptTestPacket_def Let_def copy_prefix seg_def min_packet_def coverage_def
        HMACCoverage_def test_enc_def)
qed

lemma decryptTestPacket_eq:
  "decryptTestPacket key iv p auth isRefl =
    (if length key \<noteq> 16 then Inl ErrInvalidKeyLength
     else if length iv \<noteq> 16 \<or> length p < min_packet isRefl then Inl ErrInvalidBlockSize
     else Inr (test_dec key auth (take (coverage auth isRefl) p) @ drop (coverage auth isRefl) p))"
proof -
  have "length (test_dec key auth (take (coverage auth isRefl) p)) = coverage auth isRefl"
    if "length key = 16" "\<not> length p < min_packet isRefl"
    using that min_packet_coverage [of auth isRefl] by (subst test_enc_dec(2)) auto
  then show ?thesis
    by (auto simp: decryptTestPacket_def Let_def copy_prefix seg_def min_packet_def coverage_def
        HMACCoverage_def test_dec_def)
qed

lemma prefix_inverse:
  assumes "n \<le> length p" and "length (f (take n p)) = n" and "g (f (take n p)) = take n p"
    and "c = f (take n p) @ drop n p"
  shows "g (take n c) @ drop n c = p" and "length c = length p" and "drop n c = drop n p"
  using assms by simp_all

lemma test_packet_inverse:
  "decryptTestPacket key iv c auth isRefl = Inr p \<longleftrightarrow> encryptTestPacket key iv p auth isRefl = Inr c"
proof -
  let ?n = "coverage auth isRefl"
  define ok where "ok l \<longleftrightarrow> length key = 16 \<and> length iv = 16 \<and> min_packet isRefl \<le> l" for l
  have n: "?n \<le> l" if "ok l" for l
    using that min_packet_coverage [of auth isRefl] by (simp add: ok_def)
  have enc: "encryptTestPacket key iv p auth isRefl = Inr c \<longleftrightarrow>
      ok (length p) \<and> c = test_enc key auth (take ?n p) @ drop ?n p"
    by (auto simp: encryptTestPacket_eq ok_def)
  have dec: "decryptTestPacket key iv c auth isRefl = Inr p \<longleftrightarrow>
      ok (length c) \<and> p = test_dec key auth (take ?n c) @ drop ?n c"
    by (auto simp: decryptTestPacket_eq ok_def)
  have fwd: "p = test_dec key auth (take ?n c) @ drop ?n c" "length c = length p"
      "drop ?n c = drop ?n p"
    if "ok (length p)" "c = test_enc key auth (take ?n p) @ drop ?n p"
    using that n [OF that(1)] test_enc_dec [of key "take ?n p" auth isRefl]
      prefix_inverse [of ?n p "test_enc key auth" "test_dec key auth" c]
    by (simp_all add: ok_def)
  have bwd: "c = test_enc key auth (take ?n p) @ drop ?n p" "length p = length c"
    if "ok (length c)" "p = test_dec key auth (take ?n c) @ drop ?n c"
    using that n [OF that(1)] test_enc_dec [of key "take ?n c" auth isRefl]
      prefix_inverse [of ?n c "test_dec key auth" "test_enc key auth" p]
    by (simp_all add: ok_def)
  show ?thesis
    unfolding enc dec using fwd bwd by metis
qed

lemma encryptTestPacket_rest:
  assumes "encryptTestPacket key iv p auth isRefl = Inr c"
  shows "length c = length p \<and> drop (coverage auth isRefl) c = drop (coverage auth isRefl) p"
  using assms min_packet_coverage [of auth isRefl]
    test_enc_dec(1) [of key "take (coverage auth isRefl) p" auth isRefl]
  by (auto simp: encryptTestPacket_eq split: if_splits)

lemma DecryptToken_iff:
  "DecryptToken token challenge = Inr c \<longleftrightarrow>
    CreateToken challenge (tc_AESKey c) (tc_HMACKey c) = Inr token \<and> tc_Challenge c = challenge"
proof
  assume d: "DecryptToken token challenge = Inr c"
  define p where "p = cbc_dec (aes_decrypt challenge) (zeros 16) token"
  have l: "length token = 64" "length challenge = 16"
    using d by (auto simp: DecryptToken_def split: if_splits)
  then have p: "length p = 64" by (simp add: p_def cbc_simps)
  have c: "c = \<lparr>tc_Challenge = seg 0 16 p, tc_AESKey = seg 16 32 p, tc_HMACKey = seg 32 64 p\<rparr>"
    and ch: "seg 0 16 p = challenge"
    using d l by (auto simp: DecryptToken_def Let_def p_def split: if_splits)
  have "cbc_enc (aes_encrypt challenge) (zeros 16) p = token"
    using l by (simp add: p_def cbc_simps)
  with seg_parts [OF p] show
    "CreateToken challenge (tc_AESKey c) (tc_HMACKey c) = Inr token \<and> tc_Challenge c = challenge"
    using l p ch by (simp add: CreateToken_eq c)
next
  assume "CreateToken challenge (tc_AESKey c) (tc_HMACKey c) = Inr token \<and> tc_Challenge c = challenge"
  then show "DecryptToken token challenge = Inr c"
    by (cases c) (simp add: CreateToken_eq DecryptToken_def Let_def cbc_simps seg_all)
qed

section \<open>Properties\<close>

text \<open>C35: the server accepts a token exactly when it is the one \<open>CreateToken\<close> makes from the
  challenge and the keys it returns. The challenge alone, which the greeting sends in clear, is
  the key: whoever saw the greeting can make a token for keys of its choice, with no shared
  secret.\<close>

theorem token_accept:
  "DecryptToken token challenge = Inr c \<longleftrightarrow>
    CreateToken challenge (tc_AESKey c) (tc_HMACKey c) = Inr token \<and> tc_Challenge c = challenge"
  by (rule DecryptToken_iff)

text \<open>\<open>DecryptBlocks\<close> accepts exactly the ciphertexts that \<open>EncryptBlocks\<close> produces under
  the same key and IV and returns their plaintext, so the PKCS#7 padding is unambiguous.\<close>

theorem blocks_roundtrip:
  "DecryptBlocks key iv c = Inr p \<longleftrightarrow> EncryptBlocks key iv p = Inr c"
proof -
  define n where "n = 16 - length p mod 16"
  have n: "0 < n" "n \<le> 16" by (simp_all add: n_def)
  have dvd: "16 dvd length p + n"
  proof -
    have "length p + n = 16 * (length p div 16) + 16"
      unfolding n_def using mult_div_mod_eq [of 16 "length p"] mod_less_divisor [of 16 "length p"]
      by linarith
    then show ?thesis by (simp only: dvd_add dvd_triv_left dvd_refl)
  qed
  have enc: "EncryptBlocks key iv p = Inr c \<longleftrightarrow> length key = 16 \<and> length iv = 16 \<and>
      c = cbc_enc (aes_encrypt key) iv (p @ replicate n (of_nat n))"
    using n by (auto simp: EncryptBlocks_def Let_def n_def)
  show ?thesis
  proof
    assume d: "DecryptBlocks key iv c = Inr p"
    define q where "q = cbc_dec (aes_decrypt key) iv c"
    define m where "m = unat (q ! (length q - 1))"
    have l: "length key = 16" "length iv = 16" "16 dvd length c" "c \<noteq> []"
      using d by (auto simp: DecryptBlocks_def split: if_splits)
    have m: "0 < m" "m \<le> 16" and p: "p = take (length q - m) q"
      and pad: "\<not> list_ex (\<lambda>i. q ! i \<noteq> of_nat m) [length q - m ..< length q]"
      using d l by (auto simp: DecryptBlocks_def Let_def q_def m_def split: if_splits)
    have lq: "length q = length c" using l by (simp add: q_def cbc_simps)
    then have mq: "m \<le> length q" using m l by (auto dest: dvd_imp_le)
    have q: "q = p @ replicate m (of_nat m)"
      using pad [unfolded padding_bytes [OF mq]] p by (metis append_take_drop_id)
    then have "m = n" unfolding n_def using l m lq by (intro padding_length) auto
    moreover have "cbc_enc (aes_encrypt key) iv q = c"
      using l by (simp add: q_def cbc_simps)
    ultimately have "cbc_enc (aes_encrypt key) iv (p @ replicate n (of_nat n)) = c"
      using q by simp
    then show "EncryptBlocks key iv p = Inr c" using l by (simp add: enc)
  next
    assume "EncryptBlocks key iv p = Inr c"
    then have l: "length key = 16" "length iv = 16"
      and c: "c = cbc_enc (aes_encrypt key) iv (p @ replicate n (of_nat n))" by (auto simp: enc)
    define q :: bytes where "q = p @ replicate n (of_nat n)"
    have dec: "cbc_dec (aes_decrypt key) iv c = q" and lc: "length c = length q"
      using l dvd by (simp_all add: c q_def cbc_simps)
    have "last q = of_nat n" "q \<noteq> []" using n by (simp_all add: q_def)
    then have "q ! (length q - 1) = of_nat n" by (simp add: last_conv_nth)
    then have un: "unat (q ! (length q - 1)) = n" using n by (simp add: unat_of_nat)
    have "\<not> list_ex (\<lambda>i. q ! i \<noteq> of_nat n) [length q - n ..< length q]"
      by (subst padding_bytes) (simp_all add: q_def)
    moreover have "take (length q - n) q = p" by (simp add: q_def)
    moreover have "length q mod 16 = 0" using dvd by (simp add: q_def mod_eq_0_iff_dvd)
    moreover have "q \<noteq> []" using n by (simp add: q_def)
    ultimately show "DecryptBlocks key iv c = Inr p"
      using l n by (simp add: DecryptBlocks_def Let_def dec lc un [unfolded One_nat_def])
  qed
qed

text \<open>Decrypting a test packet and encrypting it are inverse in both directions and for both
  packet types: what one end decrypts successfully is exactly what the other end encrypted, and
  everything behind the covered blocks travels unchanged.\<close>

theorem test_packet_roundtrip:
  "(decryptTestPacket key iv c auth isRefl = Inr p \<longleftrightarrow>
      encryptTestPacket key iv p auth isRefl = Inr c) \<and>
   (case encryptTestPacket key iv p auth isRefl of
      Inl e \<Rightarrow> e \<in> {ErrInvalidKeyLength, ErrInvalidBlockSize}
    | Inr c' \<Rightarrow> length c' = length p \<and>
        drop (coverage auth isRefl) c' = drop (coverage auth isRefl) p)"
proof (cases "encryptTestPacket key iv p auth isRefl")
  case (Inl e)
  then show ?thesis by (auto simp: test_packet_inverse) (auto simp: encryptTestPacket_eq split: if_splits)
next
  case (Inr c')
  then show ?thesis using encryptTestPacket_rest [OF Inr] by (simp add: test_packet_inverse)
qed

text \<open>The in-place encryption and decryption of test packets give the same packet and the same
  error as the copying ones, and leave the packet as it was when they fail.\<close>

theorem in_place_equivalent:
  "encryptTestPacketInPlace key iv p auth isRefl =
     (case encryptTestPacket key iv p auth isRefl of
        Inl e \<Rightarrow> (Inl e, p) | Inr q \<Rightarrow> (Inr (), q)) \<and>
   decryptTestPacketInPlace key iv p auth isRefl =
     (case decryptTestPacket key iv p auth isRefl of
        Inl e \<Rightarrow> (Inl e, p) | Inr q \<Rightarrow> (Inr (), q))"
  unfolding encryptTestPacket_eq decryptTestPacket_eq encryptTestPacketInPlace_def
    decryptTestPacketInPlace_def
  by (auto simp: coverage_def test_enc_def test_dec_def min_packet_def HMACCoverage_def)

text \<open>C34: a control channel stays in step: whatever sequence of block-aligned messages one end
  encrypts, and however the other end cuts the bytes into block-aligned reads, it recovers the
  messages, and both streams end with the same IV.\<close>

theorem stream_sync:
  assumes "stream_ok s" and "list_all whole_blocks ms" and "list_all whole_blocks cs"
    and "encrypt_all s ms = (Inr (concat cs), s')"
  shows "decrypt_all s cs = (Inr (concat ms), s')"
proof -
  have "16 dvd length (concat ms)"
    using assms(2) by (induction ms) (auto simp: whole_blocks_def)
  moreover have "cbc_enc (aes_encrypt (cs_block s)) (cs_iv s) (concat ms) = concat cs"
    and "s' = s\<lparr>cs_iv := last_block (cs_iv s @ concat cs)\<rparr>"
    using assms by (auto simp: encrypt_all_eq)
  ultimately show ?thesis
    using assms(1,3) by (metis decrypt_all_eq stream_ok_def aes.cbc_dec_enc)
qed

text \<open>The witness: messages of one and two blocks, read as two blocks and one.\<close>

theorem stream_sync_witness:
  "let s = \<lparr>cs_block = zeros 16, cs_iv = zeros 16\<rparr>;
       c = cbc_enc (aes_encrypt (zeros 16)) (zeros 16) (zeros 48)
   in decrypt_all s [take 32 c, drop 32 c] =
        (Inr (zeros 48), \<lparr>cs_block = zeros 16, cs_iv = last_block (zeros 16 @ c)\<rparr>)"
proof -
  define s where "s = \<lparr>cs_block = zeros 16, cs_iv = zeros 16\<rparr>"
  define c where "c = cbc_enc (aes_encrypt (zeros 16)) (zeros 16) (zeros 48)"
  have s: "stream_ok s" by (simp add: s_def stream_ok_def)
  have ms: "list_all whole_blocks [zeros 16, zeros 32]"
    by (simp add: whole_blocks_def zeros_def)
  have c: "length c = 48" by (simp add: c_def aes.len_cbc_enc)
  then have cs: "list_all whole_blocks [take 32 c, drop 32 c]"
    by (auto simp: whole_blocks_def)
  have z: "zeros 16 @ zeros 32 = zeros 48" by (simp add: zeros_def replicate_add [symmetric])
  have "encrypt_all s [zeros 16, zeros 32] =
      (Inr (concat [take 32 c, drop 32 c]), s\<lparr>cs_iv := last_block (zeros 16 @ c)\<rparr>)"
    unfolding encrypt_all_eq [OF s ms] by (simp add: z) (simp add: s_def c_def)
  from stream_sync [OF s ms cs this] show ?thesis
    by (simp add: z Let_def flip: c_def) (simp add: s_def)
qed

end
