(* ===== verification/Control_Messages.thy ===== *)
theory Control_Messages
  imports Common_Types Timestamp
begin

text \<open>
  The TWAMP-Control messages of \<open>messages/control.go\<close> and \<open>messages/control_rfc5938.go\<close>: one
  record per message, \<open>Marshal\<close> as stores into a zeroed buffer and \<open>Unmarshal\<close> with the
  checks of the code in their order. \<open>Unmarshal\<close> takes the receiver, of which it keeps the
  fields it does not store into, and returns it updated; a receiver that was partly stored into
  before an error is dropped, as by every caller. Fixed arrays are byte lists of that length
  (the \<open>ok\<close> predicates). The locale \<open>wire_codec\<close> says what a codec promises and is interpreted
  on every message.
\<close>

section \<open>Validation\<close>

abbreviation "ServerGreetingSize \<equiv> 64 :: nat"
abbreviation "SetupResponseSize \<equiv> 164 :: nat"
abbreviation "ServerStartSize \<equiv> 48 :: nat"
abbreviation "RequestTWSessionSize \<equiv> 112 :: nat"
abbreviation "AcceptSessionSize \<equiv> 48 :: nat"
abbreviation "StartSessionsSize \<equiv> 32 :: nat"
abbreviation "StartAckSize \<equiv> 32 :: nat"
abbreviation "StopSessionsSize \<equiv> 32 :: nat"

definition validateMBZ :: "bytes \<Rightarrow> nat \<Rightarrow> nat \<Rightarrow> unit res" where
  "validateMBZ data i j =
     (if list_ex (\<lambda>k. data ! k \<noteq> 0) [i ..< j] then Inl ErrInvalidMBZ else Inr ())"

definition validateTypePDescriptor :: "u32 \<Rightarrow> unit res" where
  "validateTypePDescriptor descriptor =
     (if drop_bit 24 descriptor AND 0xFF \<noteq> 0
      then Inl (Errorf ''Type-P descriptor padding byte must be zero'')
      else if drop_bit 16 descriptor AND 0x03 \<noteq> 0
      then Inl (Errorf ''Type-P descriptor DSCP field lower 2 bits must be zero'')
      else if descriptor AND 0xFFFF \<noteq> 0
      then Inl (Errorf ''Type-P descriptor reserved bytes must be zero'')
      else Inr ())"

section \<open>ServerGreeting\<close>

record ServerGreeting =
  sg_Unused :: bytes
  sg_Modes :: u32
  sg_Challenge :: bytes
  sg_Salt :: bytes
  sg_Count :: u32
  sg_MBZ :: bytes

definition ServerGreeting_Marshal :: "ServerGreeting \<Rightarrow> bytes res" where
  "ServerGreeting_Marshal sg =
     (let buf = zeros ServerGreetingSize;
          buf = copy_at buf 12 16 (be32 (sg_Modes sg));
          buf = copy_at buf 16 32 (sg_Challenge sg);
          buf = copy_at buf 32 48 (sg_Salt sg);
          buf = copy_at buf 48 52 (be32 (sg_Count sg))
      in Inr buf)"

definition ServerGreeting_Unmarshal :: "ServerGreeting \<Rightarrow> bytes \<Rightarrow> ServerGreeting res" where
  "ServerGreeting_Unmarshal sg data =
     (if length data < ServerGreetingSize then Inl ErrInvalidMessageLength
      else case validateMBZ data 0 12 of Inl e \<Rightarrow> Inl e
      | Inr _ \<Rightarrow> case validateMBZ data 52 64 of Inl e \<Rightarrow> Inl e
      | Inr _ \<Rightarrow> Inr (sg\<lparr>sg_Modes := rd32 (seg 12 16 data), sg_Challenge := seg 16 32 data,
                      sg_Salt := seg 32 48 data, sg_Count := rd32 (seg 48 52 data)\<rparr>))"

section \<open>SetupResponse\<close>

record SetupResponse =
  sr_Mode :: u32
  sr_KeyID :: bytes
  sr_Token :: bytes
  sr_ClientIV :: bytes

definition SetupResponse_Marshal :: "SetupResponse \<Rightarrow> bytes res" where
  "SetupResponse_Marshal sr =
     (let buf = zeros SetupResponseSize;
          buf = copy_at buf 0 4 (be32 (sr_Mode sr));
          buf = copy_at buf 4 84 (sr_KeyID sr);
          buf = copy_at buf 84 148 (sr_Token sr);
          buf = copy_at buf 148 164 (sr_ClientIV sr)
      in Inr buf)"

definition SetupResponse_Unmarshal :: "SetupResponse \<Rightarrow> bytes \<Rightarrow> SetupResponse res" where
  "SetupResponse_Unmarshal sr data =
     (if length data < SetupResponseSize then Inl ErrInvalidMessageLength
      else Inr (sr\<lparr>sr_Mode := rd32 (seg 0 4 data), sr_KeyID := seg 4 84 data,
                   sr_Token := seg 84 148 data, sr_ClientIV := seg 148 164 data\<rparr>))"

section \<open>ServerStart\<close>

record ServerStart =
  sst_MBZ :: bytes
  sst_Accept :: u8
  sst_ServerIV :: bytes
  sst_StartTime :: TWAMPTimestamp
  sst_MBZ2 :: bytes

definition ServerStart_Marshal :: "ServerStart \<Rightarrow> bytes res" where
  "ServerStart_Marshal ss =
     (let buf = zeros ServerStartSize;
          buf = buf[15 := sst_Accept ss];
          buf = copy_at buf 16 32 (sst_ServerIV ss);
          buf = copy_at buf 32 40 (TWAMPTimestamp_bytes (sst_StartTime ss))
      in Inr buf)"

definition ServerStart_Unmarshal :: "ServerStart \<Rightarrow> bytes \<Rightarrow> ServerStart res" where
  "ServerStart_Unmarshal ss data =
     (if length data < ServerStartSize then Inl ErrInvalidMessageLength
      else case validateMBZ data 0 15 of Inl e \<Rightarrow> Inl e
      | Inr _ \<Rightarrow> case validateMBZ data 40 48 of Inl e \<Rightarrow> Inl e
      | Inr _ \<Rightarrow> Inr (ss\<lparr>sst_Accept := data ! 15, sst_ServerIV := seg 16 32 data,
                      sst_StartTime := TWAMPTimestamp_read (seg 32 40 data)\<rparr>))"

section \<open>RequestTWSession\<close>

record RequestTWSession =
  rts_Command :: u8
  rts_MBZ1 :: u8
  rts_IPVN :: u8
  rts_ConfSender :: u8
  rts_ConfReceiver :: u8
  rts_MBZ2 :: bytes
  rts_NumSlots :: u32
  rts_NumPackets :: u32
  rts_SenderPort :: u16
  rts_ReceiverPort :: u16
  rts_SenderAddress :: bytes
  rts_ReceiverAddress :: bytes
  rts_SID :: session_id
  rts_PaddingLength :: u32
  rts_StartTime :: TWAMPTimestamp
  rts_Timeout :: TWAMPTimestamp
  rts_TypePDescriptor :: u32
  rts_MBZ3 :: bytes
  rts_HMAC :: bytes

definition RequestTWSession_Marshal :: "RequestTWSession \<Rightarrow> bool \<Rightarrow> bytes res" where
  "RequestTWSession_Marshal rts includeHMAC =
     (let buf = zeros RequestTWSessionSize;
          buf = buf[0 := rts_Command rts];
          buf = buf[1 := rts_IPVN rts AND 0x0F];
          buf = buf[2 := rts_ConfSender rts];
          buf = buf[3 := rts_ConfReceiver rts];
          buf = copy_at buf 4 8 (be32 (rts_NumSlots rts));
          buf = copy_at buf 8 12 (be32 (rts_NumPackets rts));
          buf = copy_at buf 12 14 (be16 (rts_SenderPort rts));
          buf = copy_at buf 14 16 (be16 (rts_ReceiverPort rts));
          buf = copy_at buf 16 32 (rts_SenderAddress rts);
          buf = copy_at buf 32 48 (rts_ReceiverAddress rts);
          buf = copy_at buf 48 64 (rts_SID rts);
          buf = copy_at buf 64 68 (be32 (rts_PaddingLength rts));
          buf = copy_at buf 68 76 (TWAMPTimestamp_bytes (rts_StartTime rts));
          buf = copy_at buf 76 84 (TWAMPTimestamp_bytes (rts_Timeout rts));
          buf = copy_at buf 84 88 (be32 (rts_TypePDescriptor rts));
          buf = (if includeHMAC then copy_at buf 96 112 (rts_HMAC rts) else buf)
      in Inr buf)"

text \<open>The fields \<open>Unmarshal\<close> stores, before its last two checks and the HMAC.\<close>

definition RequestTWSession_fields :: "RequestTWSession \<Rightarrow> bytes \<Rightarrow> RequestTWSession" where
  "RequestTWSession_fields rts data =
     rts\<lparr>rts_Command := data ! 0, rts_IPVN := data ! 1 AND 0x0F, rts_ConfSender := data ! 2,
         rts_ConfReceiver := data ! 3, rts_NumSlots := rd32 (seg 4 8 data),
         rts_NumPackets := rd32 (seg 8 12 data), rts_SenderPort := rd16 (seg 12 14 data),
         rts_ReceiverPort := rd16 (seg 14 16 data), rts_SenderAddress := seg 16 32 data,
         rts_ReceiverAddress := seg 32 48 data, rts_SID := seg 48 64 data,
         rts_PaddingLength := rd32 (seg 64 68 data),
         rts_StartTime := TWAMPTimestamp_read (seg 68 76 data),
         rts_Timeout := TWAMPTimestamp_read (seg 76 84 data),
         rts_TypePDescriptor := rd32 (seg 84 88 data)\<rparr>"

definition RequestTWSession_Unmarshal ::
    "RequestTWSession \<Rightarrow> bytes \<Rightarrow> bool \<Rightarrow> RequestTWSession res" where
  "RequestTWSession_Unmarshal rts data includeHMAC =
     (if length data < RequestTWSessionSize then Inl ErrInvalidMessageLength
      else if data ! 1 AND 0xF0 \<noteq> 0 then Inl ErrInvalidMBZ
      else if data ! 1 AND 0x0F \<noteq> 4 \<and> data ! 1 AND 0x0F \<noteq> 6 then Inl ErrInvalidIPVN
      else if rd32 (seg 4 8 data) \<noteq> 0 then Inl ErrInvalidNumSlots
      else if rd32 (seg 8 12 data) \<noteq> 0 then Inl ErrInvalidNumPackets
      else if of_nat MaxTWAMPPacketSize < rd32 (seg 64 68 data) then Inl ErrInvalidPaddingLength
      else case validateTypePDescriptor (rd32 (seg 84 88 data)) of Inl e \<Rightarrow> Inl e
      | Inr _ \<Rightarrow> case validateMBZ data 88 96 of Inl e \<Rightarrow> Inl e
      | Inr _ \<Rightarrow>
         if includeHMAC
         then Inr ((RequestTWSession_fields rts data)\<lparr>rts_HMAC := seg 96 112 data\<rparr>)
         else case validateMBZ data 96 112 of Inl e \<Rightarrow> Inl e
         | Inr _ \<Rightarrow> Inr (RequestTWSession_fields rts data))"

section \<open>AcceptSession\<close>

record AcceptSession =
  as_Accept :: u8
  as_MBZ :: u8
  as_Port :: u16
  as_SID :: session_id
  as_MBZ2 :: bytes
  as_HMAC :: bytes

definition AcceptSession_Marshal :: "AcceptSession \<Rightarrow> bool \<Rightarrow> bytes res" where
  "AcceptSession_Marshal as includeHMAC =
     (let buf = zeros AcceptSessionSize;
          buf = buf[0 := as_Accept as];
          buf = copy_at buf 2 4 (be16 (as_Port as));
          buf = copy_at buf 4 20 (as_SID as);
          buf = (if includeHMAC then copy_at buf 32 48 (as_HMAC as) else buf)
      in Inr buf)"

definition AcceptSession_Unmarshal :: "AcceptSession \<Rightarrow> bytes \<Rightarrow> bool \<Rightarrow> AcceptSession res" where
  "AcceptSession_Unmarshal as data includeHMAC =
     (if length data < AcceptSessionSize then Inl ErrInvalidMessageLength
      else
        (let as = as\<lparr>as_Accept := data ! 0, as_MBZ := data ! 1\<rparr> in
         if as_MBZ as \<noteq> 0 then Inl ErrInvalidMBZ
         else
           (let as = as\<lparr>as_Port := rd16 (seg 2 4 data), as_SID := seg 4 20 data\<rparr> in
            case validateMBZ data 20 32 of Inl e \<Rightarrow> Inl e
            | Inr _ \<Rightarrow>
               if includeHMAC then Inr (as\<lparr>as_HMAC := seg 32 48 data\<rparr>)
               else case validateMBZ data 32 48 of Inl e \<Rightarrow> Inl e | Inr _ \<Rightarrow> Inr as)))"

section \<open>StartSessions and StartAck\<close>

record StartSessions =
  sts_Command :: u8
  sts_MBZ :: bytes
  sts_HMAC :: bytes

definition StartSessions_Marshal :: "StartSessions \<Rightarrow> bool \<Rightarrow> bytes res" where
  "StartSessions_Marshal ss includeHMAC =
     (let buf = zeros StartSessionsSize;
          buf = buf[0 := sts_Command ss];
          buf = (if includeHMAC then copy_at buf 16 32 (sts_HMAC ss) else buf)
      in Inr buf)"

definition StartSessions_Unmarshal :: "StartSessions \<Rightarrow> bytes \<Rightarrow> bool \<Rightarrow> StartSessions res" where
  "StartSessions_Unmarshal ss data includeHMAC =
     (if length data < StartSessionsSize then Inl ErrInvalidMessageLength
      else
        (let ss = ss\<lparr>sts_Command := data ! 0\<rparr> in
         case validateMBZ data 1 16 of Inl e \<Rightarrow> Inl e
         | Inr _ \<Rightarrow>
            if includeHMAC then Inr (ss\<lparr>sts_HMAC := seg 16 32 data\<rparr>)
            else case validateMBZ data 16 32 of Inl e \<Rightarrow> Inl e | Inr _ \<Rightarrow> Inr ss))"

record StartAck =
  sa_Accept :: u8
  sa_MBZ :: bytes
  sa_HMAC :: bytes

definition StartAck_Marshal :: "StartAck \<Rightarrow> bool \<Rightarrow> bytes res" where
  "StartAck_Marshal sa includeHMAC =
     (let buf = zeros StartAckSize;
          buf = buf[0 := sa_Accept sa];
          buf = (if includeHMAC then copy_at buf 16 32 (sa_HMAC sa) else buf)
      in Inr buf)"

definition StartAck_Unmarshal :: "StartAck \<Rightarrow> bytes \<Rightarrow> bool \<Rightarrow> StartAck res" where
  "StartAck_Unmarshal sa data includeHMAC =
     (if length data < StartAckSize then Inl ErrInvalidMessageLength
      else
        (let sa = sa\<lparr>sa_Accept := data ! 0\<rparr> in
         case validateMBZ data 1 16 of Inl e \<Rightarrow> Inl e
         | Inr _ \<Rightarrow>
            if includeHMAC then Inr (sa\<lparr>sa_HMAC := seg 16 32 data\<rparr>)
            else case validateMBZ data 16 32 of Inl e \<Rightarrow> Inl e | Inr _ \<Rightarrow> Inr sa))"

section \<open>StopSessions\<close>

record StopSessions =
  stp_Command :: u8
  stp_Accept :: u8
  stp_MBZ1 :: bytes
  stp_NumSessions :: u32
  stp_MBZ2 :: bytes
  stp_HMAC :: bytes

definition StopSessions_Marshal :: "StopSessions \<Rightarrow> bool \<Rightarrow> bytes res" where
  "StopSessions_Marshal ss includeHMAC =
     (let buf = zeros StopSessionsSize;
          buf = buf[0 := stp_Command ss];
          buf = buf[1 := stp_Accept ss];
          buf = copy_at buf 4 8 (be32 (stp_NumSessions ss));
          buf = (if includeHMAC then copy_at buf 16 32 (stp_HMAC ss) else buf)
      in Inr buf)"

definition StopSessions_Unmarshal :: "StopSessions \<Rightarrow> bytes \<Rightarrow> bool \<Rightarrow> StopSessions res" where
  "StopSessions_Unmarshal ss data includeHMAC =
     (if length data < StopSessionsSize then Inl ErrInvalidMessageLength
      else
        (let ss = ss\<lparr>stp_Command := data ! 0, stp_Accept := data ! 1\<rparr> in
         case validateMBZ data 2 4 of Inl e \<Rightarrow> Inl e
         | Inr _ \<Rightarrow>
         let ss = ss\<lparr>stp_NumSessions := rd32 (seg 4 8 data)\<rparr> in
         case validateMBZ data 8 16 of Inl e \<Rightarrow> Inl e
         | Inr _ \<Rightarrow>
            if includeHMAC then Inr (ss\<lparr>stp_HMAC := seg 16 32 data\<rparr>)
            else case validateMBZ data 16 32 of Inl e \<Rightarrow> Inl e | Inr _ \<Rightarrow> Inr ss))"

section \<open>StopNSessions\<close>

record StopNSessions =
  sns_Command :: u8
  sns_Accept :: u8
  sns_MBZ1 :: bytes
  sns_NumSessions :: u32
  sns_MBZ2 :: bytes
  sns_SessionIDs :: "session_id list"
  sns_HMAC :: bytes

text \<open>
  The loop over the session identifiers stops at \<open>NumSessions\<close> or at the end of the slice,
  whichever is first; what it returns is the buffer and the offset behind the last one stored.
\<close>

fun put_sids :: "bytes \<Rightarrow> nat \<Rightarrow> session_id list \<Rightarrow> bytes \<times> nat" where
  "put_sids buf off [] = (buf, off)"
| "put_sids buf off (sid # sids) = put_sids (copy_at buf off (off + 16) sid) (off + 16) sids"

definition StopNSessions_Marshal :: "StopNSessions \<Rightarrow> bool \<Rightarrow> bytes res" where
  "StopNSessions_Marshal sns includeHMAC =
     (let size = 16 + unat (sns_NumSessions sns) * 16 + 16;
          buf = zeros size;
          buf = buf[0 := sns_Command sns];
          buf = buf[1 := sns_Accept sns];
          buf = copy_at buf 4 8 (be32 (sns_NumSessions sns));
          (buf, off) = put_sids buf 16 (take (unat (sns_NumSessions sns)) (sns_SessionIDs sns));
          buf = (if includeHMAC then copy_at buf off (off + 16) (sns_HMAC sns) else buf)
      in Inr buf)"

definition StopNSessions_Unmarshal :: "StopNSessions \<Rightarrow> bytes \<Rightarrow> bool \<Rightarrow> StopNSessions res" where
  "StopNSessions_Unmarshal sns data includeHMAC =
     (if length data < 16 then Inl ErrInvalidMessageLength
      else
        (let sns = sns\<lparr>sns_Command := data ! 0, sns_Accept := data ! 1\<rparr> in
         case validateMBZ data 2 4 of Inl e \<Rightarrow> Inl e
         | Inr _ \<Rightarrow>
         let sns = sns\<lparr>sns_MBZ1 := seg 2 4 data, sns_NumSessions := rd32 (seg 4 8 data)\<rparr> in
         case validateMBZ data 8 16 of Inl e \<Rightarrow> Inl e
         | Inr _ \<Rightarrow>
         let sns = sns\<lparr>sns_MBZ2 := seg 8 16 data\<rparr>;
             n = unat (sns_NumSessions sns);
             expectedSize = 16 + n * 16 + 16 in
         if length data < expectedSize then Inl ErrInvalidMessageLength
         else
           (let sns = sns\<lparr>sns_SessionIDs :=
                  map (\<lambda>i. seg (16 + 16 * i) (32 + 16 * i) data) [0 ..< n]\<rparr>;
                off = 16 + 16 * n in
            if includeHMAC then Inr (sns\<lparr>sns_HMAC := seg off (off + 16) data\<rparr>)
            else case validateMBZ data off (off + 16) of Inl e \<Rightarrow> Inl e | Inr _ \<Rightarrow> Inr sns)))"

section \<open>RequestTWSessionIndividual\<close>

text \<open>It embeds \<open>RequestTWSession\<close> and has no field of its own.\<close>

type_synonym RequestTWSessionIndividual = RequestTWSession

definition RequestTWSessionIndividual_Marshal ::
    "RequestTWSessionIndividual \<Rightarrow> bool \<Rightarrow> bytes res" where
  "RequestTWSessionIndividual_Marshal rtsi includeHMAC =
     (case RequestTWSession_Marshal rtsi includeHMAC of
        Inl e \<Rightarrow> Inl e
      | Inr buf \<Rightarrow> Inr (buf[0 := CmdRequestTWSessionIndividual]))"

definition RequestTWSessionIndividual_Unmarshal ::
    "RequestTWSessionIndividual \<Rightarrow> bytes \<Rightarrow> bool \<Rightarrow> RequestTWSessionIndividual res" where
  "RequestTWSessionIndividual_Unmarshal rtsi data includeHMAC =
     (case RequestTWSession_Unmarshal rtsi data includeHMAC of
        Inl e \<Rightarrow> Inl e
      | Inr rtsi \<Rightarrow>
          if rts_Command rtsi \<noteq> CmdRequestTWSessionIndividual
          then Inl (Errorf ''invalid command for RequestTWSessionIndividual'')
          else Inr rtsi)"

section \<open>What a codec promises\<close>

text \<open>
  The messages that are \<open>ok\<close> are encoded in their size and read back; two of them never share an
  encoding.
\<close>

locale codec =
  fixes enc :: "'a \<Rightarrow> bytes res" and dec :: "bytes \<Rightarrow> 'a res"
    and sz :: "'a \<Rightarrow> nat" and ok :: "'a \<Rightarrow> bool"
  assumes roundtrip: "ok m \<Longrightarrow> \<exists>b. enc m = Inr b \<and> length b = sz m \<and> dec b = Inr m"
begin

lemma enc_inject: "ok m \<Longrightarrow> ok m' \<Longrightarrow> enc m = enc m' \<Longrightarrow> m = m'"
  by (metis roundtrip sum.inject(2))

end

text \<open>
  The codec of a control message promises more: \<open>dec\<close> reads the encoding from the front of the
  data and accepts nothing else.
\<close>

locale wire_codec =
  fixes enc :: "'a \<Rightarrow> bytes res" and dec :: "bytes \<Rightarrow> 'a res"
    and sz :: "'a \<Rightarrow> nat" and ok :: "'a \<Rightarrow> bool"
  assumes enc_ok: "ok m \<Longrightarrow> \<exists>b. enc m = Inr b \<and> length b = sz m"
    and dec_enc: "ok m \<Longrightarrow> enc m = Inr b \<Longrightarrow> dec (b @ rest) = Inr m"
    and enc_dec: "dec b = Inr m \<Longrightarrow> ok m \<and> sz m \<le> length b \<and> enc m = Inr (take (sz m) b)"
begin

lemma accept: "dec b = Inr m \<longleftrightarrow> ok m \<and> sz m \<le> length b \<and> enc m = Inr (take (sz m) b)"
proof
  assume "ok m \<and> sz m \<le> length b \<and> enc m = Inr (take (sz m) b)"
  then have "dec (take (sz m) b @ drop (sz m) b) = Inr m" by (blast intro: dec_enc)
  then show "dec b = Inr m" by simp
qed (rule enc_dec)

end

sublocale wire_codec \<subseteq> codec enc dec sz ok
proof unfold_locales
  show "\<exists>b. enc m = Inr b \<and> length b = sz m \<and> dec b = Inr m" if "ok m" for m
    using enc_ok [OF that] dec_enc [OF that, of _ "[]"] by auto
qed

lemma validateMBZ_eq:
  assumes "j \<le> length data"
  shows "validateMBZ data i j = (if seg i j data = zeros (j - i) then Inr () else Inl ErrInvalidMBZ)"
proof -
  have "list_ex (\<lambda>k. data ! k \<noteq> 0) [i ..< j] \<longleftrightarrow> seg i j data \<noteq> zeros (j - i)"
  proof
    assume "list_ex (\<lambda>k. data ! k \<noteq> 0) [i ..< j]"
    then obtain k where k: "i \<le> k" "k < j" "data ! k \<noteq> 0" by (auto simp: list_ex_iff)
    then have "seg i j data ! (k - i) \<noteq> 0" using assms by (simp add: nth_seg)
    moreover have "zeros (j - i) ! (k - i) = 0" using k by (simp add: nth_zeros)
    ultimately show "seg i j data \<noteq> zeros (j - i)" by auto
  next
    assume "seg i j data \<noteq> zeros (j - i)"
    then obtain k where "k < j - i" "seg i j data ! k \<noteq> 0"
      using assms by (auto simp: list_eq_iff_nth_eq nth_zeros)
    then have "i + k \<in> set [i ..< j]" "data ! (i + k) \<noteq> 0" using assms by (auto simp: nth_seg)
    then show "list_ex (\<lambda>k. data ! k \<noteq> 0) [i ..< j]" unfolding list_ex_iff by blast
  qed
  then show ?thesis by (simp add: validateMBZ_def)
qed

lemma seg_split_assoc: "i \<le> j \<Longrightarrow> j \<le> k \<Longrightarrow> seg i j b @ seg j k b @ r = seg i k b @ r"
  by (simp flip: append_assoc add: seg_split)

lemma take_seg: "seg 0 n b = take n b"
  by (simp add: seg_def)

lemma byte_seg: "i < length b \<Longrightarrow> b ! i # r = seg i (Suc i) b @ r"
  by (simp add: seg_single)

text \<open>
  The collection \<open>reading\<close> reads one field after another from an encoding; \<open>joining\<close> puts the
  fields of accepted data together again.
\<close>

named_theorems reading \<open>fields of an encoding\<close>
named_theorems joining \<open>an encoding of fields\<close>

lemma seg_zeros_all: "seg 0 n (zeros n) = zeros n"
  by (simp add: seg_all)

lemma zeros_1: "zeros (Suc 0) = [0]"
  by (simp add: zeros_def)

lemma seg_Cons: "0 < i \<Longrightarrow> seg i j (x # b) = seg (i - 1) (j - 1) b"
  by (cases i; cases j) (simp_all add: seg_def)

lemma two_bytes: "Suc 0 < length b \<Longrightarrow> b ! 0 # b ! Suc 0 # r = seg 0 2 b @ r"
  by (cases b; cases "tl b") (auto simp: seg_def)

lemma four_bytes:
  assumes "3 < length b"
  shows "b ! 0 # b ! Suc 0 # b ! 2 # b ! 3 # r = seg 0 4 b @ r"
proof -
  have "seg 0 4 b @ r = seg 0 2 b @ (seg 2 3 b @ seg 3 4 b) @ r" by (simp add: seg_split seg_split_assoc)
  also have "\<dots> = seg 0 2 b @ (b ! 2 # b ! 3 # r)"
    using assms seg_single [of 2 b] seg_single [of 3 b] by simp
  also have "\<dots> = b ! 0 # b ! Suc 0 # b ! 2 # b ! 3 # r"
    using assms by (subst two_bytes) simp_all
  finally show ?thesis by simp
qed

lemma byte_and_zero:
  "Suc 0 < length b \<Longrightarrow> b ! Suc 0 = 0 \<Longrightarrow> b ! 0 # 0 # r = seg 0 2 b @ r"
  using two_bytes [of b r] by simp

lemma first_byte: "Suc 0 < length b \<Longrightarrow> b ! 0 # r = seg 0 (Suc 0) b @ r"
  by (cases b) (simp_all add: seg_def)

lemmas [reading] = validateMBZ_eq seg_Cons seg_all seg_zeros_all zeros_1
lemmas [joining] = seg_split seg_split_assoc

lemma join_zeros [joining]:
  "seg 0 n b = zeros n \<Longrightarrow> n \<le> j \<Longrightarrow> zeros n @ seg n j b = seg 0 j b"
  "seg 0 n b = zeros n \<Longrightarrow> n \<le> j \<Longrightarrow> zeros n @ seg n j b @ r = seg 0 j b @ r"
  "seg j (j + n) b = zeros n \<Longrightarrow> i \<le> j \<Longrightarrow> seg i j b @ zeros n = seg i (j + n) b"
  "seg j (j + n) b = zeros n \<Longrightarrow> i \<le> j \<Longrightarrow> seg i j b @ zeros n @ r = seg i (j + n) b @ r"
  using seg_split [of 0 n j b] seg_split_assoc [of 0 n j b r]
    seg_split [of i j "j + n" b] seg_split_assoc [of i j "j + n" b r]
  by simp_all

lemma joined [joining]: "seg 0 n b = take n b \<longleftrightarrow> True"
  by (simp add: take_seg)

section \<open>Codecs of the handshake\<close>

definition ServerGreeting_zero :: ServerGreeting where
  "ServerGreeting_zero = \<lparr>sg_Unused = zeros 12, sg_Modes = 0, sg_Challenge = zeros 16,
     sg_Salt = zeros 16, sg_Count = 0, sg_MBZ = zeros 12\<rparr>"

definition ServerGreeting_ok :: "ServerGreeting \<Rightarrow> bool" where
  "ServerGreeting_ok sg \<longleftrightarrow> sg_Unused sg = zeros 12 \<and> length (sg_Challenge sg) = 16 \<and>
     length (sg_Salt sg) = 16 \<and> sg_MBZ sg = zeros 12"

lemma ServerGreeting_Marshal_eq:
  "length (sg_Challenge sg) = 16 \<Longrightarrow> length (sg_Salt sg) = 16 \<Longrightarrow>
    ServerGreeting_Marshal sg = Inr (zeros 12 @ be32 (sg_Modes sg) @ sg_Challenge sg @ sg_Salt sg @
      be32 (sg_Count sg) @ zeros 12)"
  by (simp add: ServerGreeting_Marshal_def Let_def wire del: append_assoc)

interpretation greeting_codec: wire_codec ServerGreeting_Marshal
  "ServerGreeting_Unmarshal ServerGreeting_zero" "\<lambda>_. 64" ServerGreeting_ok
proof unfold_locales
  fix m assume "ServerGreeting_ok m"
  then show "\<exists>b. ServerGreeting_Marshal m = Inr b \<and> length b = 64"
    by (simp add: ServerGreeting_Marshal_eq ServerGreeting_ok_def)
next
  fix m b rest assume "ServerGreeting_ok m" and "ServerGreeting_Marshal m = Inr b"
  then show "ServerGreeting_Unmarshal ServerGreeting_zero (b @ rest) = Inr m"
    by (cases m) (auto simp: ServerGreeting_Marshal_eq ServerGreeting_ok_def
        ServerGreeting_Unmarshal_def ServerGreeting_zero_def reading)
next
  fix m b assume "ServerGreeting_Unmarshal ServerGreeting_zero b = Inr m"
  then show "ServerGreeting_ok m \<and> 64 \<le> length b \<and> ServerGreeting_Marshal m = Inr (take 64 b)"
    by (auto simp: ServerGreeting_Unmarshal_def ServerGreeting_ok_def ServerGreeting_zero_def
        ServerGreeting_Marshal_eq reading joining split: if_splits)
qed

definition SetupResponse_zero :: SetupResponse where
  "SetupResponse_zero = \<lparr>sr_Mode = 0, sr_KeyID = zeros 80, sr_Token = zeros 64,
     sr_ClientIV = zeros 16\<rparr>"

definition SetupResponse_ok :: "SetupResponse \<Rightarrow> bool" where
  "SetupResponse_ok sr \<longleftrightarrow>
     length (sr_KeyID sr) = 80 \<and> length (sr_Token sr) = 64 \<and> length (sr_ClientIV sr) = 16"

lemma SetupResponse_Marshal_eq:
  "SetupResponse_ok sr \<Longrightarrow>
    SetupResponse_Marshal sr = Inr (be32 (sr_Mode sr) @ sr_KeyID sr @ sr_Token sr @ sr_ClientIV sr)"
  by (simp add: SetupResponse_Marshal_def SetupResponse_ok_def Let_def wire del: append_assoc)

interpretation setup_codec: wire_codec SetupResponse_Marshal
  "SetupResponse_Unmarshal SetupResponse_zero" "\<lambda>_. 164" SetupResponse_ok
proof unfold_locales
  fix m assume ok: "SetupResponse_ok m"
  then show "\<exists>b. SetupResponse_Marshal m = Inr b \<and> length b = 164"
    by (simp add: SetupResponse_Marshal_eq) (simp add: SetupResponse_ok_def)
next
  fix m b rest assume "SetupResponse_ok m" and "SetupResponse_Marshal m = Inr b"
  then show "SetupResponse_Unmarshal SetupResponse_zero (b @ rest) = Inr m"
    by (cases m) (auto simp: SetupResponse_Marshal_eq SetupResponse_ok_def
        SetupResponse_Unmarshal_def SetupResponse_zero_def reading)
next
  fix m b assume d: "SetupResponse_Unmarshal SetupResponse_zero b = Inr m"
  then have "SetupResponse_ok m"
    by (auto simp: SetupResponse_Unmarshal_def SetupResponse_ok_def split: if_splits)
  with d show "SetupResponse_ok m \<and> 164 \<le> length b \<and> SetupResponse_Marshal m = Inr (take 164 b)"
    by (auto simp: SetupResponse_Marshal_eq SetupResponse_Unmarshal_def joining split: if_splits)
qed

definition ServerStart_zero :: ServerStart where
  "ServerStart_zero = \<lparr>sst_MBZ = zeros 15, sst_Accept = 0, sst_ServerIV = zeros 16,
     sst_StartTime = \<lparr>Seconds = 0, Fraction = 0\<rparr>, sst_MBZ2 = zeros 8\<rparr>"

definition ServerStart_ok :: "ServerStart \<Rightarrow> bool" where
  "ServerStart_ok ss \<longleftrightarrow>
     sst_MBZ ss = zeros 15 \<and> length (sst_ServerIV ss) = 16 \<and> sst_MBZ2 ss = zeros 8"

lemma ServerStart_Marshal_eq:
  "length (sst_ServerIV ss) = 16 \<Longrightarrow>
    ServerStart_Marshal ss = Inr (zeros 15 @ [sst_Accept ss] @ sst_ServerIV ss @
      TWAMPTimestamp_bytes (sst_StartTime ss) @ zeros 8)"
  by (simp add: ServerStart_Marshal_def Let_def wire del: append_assoc)

interpretation start_codec: wire_codec ServerStart_Marshal
  "ServerStart_Unmarshal ServerStart_zero" "\<lambda>_. 48" ServerStart_ok
proof unfold_locales
  fix m assume "ServerStart_ok m"
  then show "\<exists>b. ServerStart_Marshal m = Inr b \<and> length b = 48"
    by (simp add: ServerStart_Marshal_eq ServerStart_ok_def)
next
  fix m b rest assume "ServerStart_ok m" and "ServerStart_Marshal m = Inr b"
  then show "ServerStart_Unmarshal ServerStart_zero (b @ rest) = Inr m"
    by (cases m) (auto simp: ServerStart_Marshal_eq ServerStart_ok_def nth_append
        ServerStart_Unmarshal_def ServerStart_zero_def reading)
next
  fix m b assume "ServerStart_Unmarshal ServerStart_zero b = Inr m"
  then show "ServerStart_ok m \<and> 48 \<le> length b \<and> ServerStart_Marshal m = Inr (take 48 b)"
    by (auto simp: ServerStart_Unmarshal_def ServerStart_ok_def ServerStart_zero_def
        ServerStart_Marshal_eq reading joining byte_seg split: if_splits)
qed

section \<open>Codecs of the session commands\<close>

text \<open>The HMAC field: 16 bytes, zero where no HMAC is included.\<close>

definition hmac_ok :: "bool \<Rightarrow> bytes \<Rightarrow> bool" where
  "hmac_ok h mac \<longleftrightarrow> length mac = 16 \<and> (h \<or> mac = zeros 16)"

definition RequestTWSession_zero :: RequestTWSession where
  "RequestTWSession_zero = \<lparr>rts_Command = 0, rts_MBZ1 = 0, rts_IPVN = 0, rts_ConfSender = 0,
     rts_ConfReceiver = 0, rts_MBZ2 = zeros 3, rts_NumSlots = 0, rts_NumPackets = 0,
     rts_SenderPort = 0, rts_ReceiverPort = 0, rts_SenderAddress = zeros 16,
     rts_ReceiverAddress = zeros 16, rts_SID = zeroSID, rts_PaddingLength = 0,
     rts_StartTime = \<lparr>Seconds = 0, Fraction = 0\<rparr>, rts_Timeout = \<lparr>Seconds = 0, Fraction = 0\<rparr>,
     rts_TypePDescriptor = 0, rts_MBZ3 = zeros 8, rts_HMAC = zeros 16\<rparr>"

definition RequestTWSession_ok :: "bool \<Rightarrow> RequestTWSession \<Rightarrow> bool" where
  "RequestTWSession_ok h rts \<longleftrightarrow>
     rts_MBZ1 rts = 0 \<and> rts_MBZ2 rts = zeros 3 \<and> rts_MBZ3 rts = zeros 8 \<and>
     (rts_IPVN rts = 4 \<or> rts_IPVN rts = 6) \<and> rts_NumSlots rts = 0 \<and> rts_NumPackets rts = 0 \<and>
     length (rts_SenderAddress rts) = 16 \<and> length (rts_ReceiverAddress rts) = 16 \<and>
     length (rts_SID rts) = 16 \<and> rts_PaddingLength rts \<le> 2048 \<and>
     validateTypePDescriptor (rts_TypePDescriptor rts) = Inr () \<and> hmac_ok h (rts_HMAC rts)"

lemma RequestTWSession_Marshal_eq:
  "length (rts_SenderAddress rts) = 16 \<Longrightarrow> length (rts_ReceiverAddress rts) = 16 \<Longrightarrow>
    length (rts_SID rts) = 16 \<Longrightarrow> hmac_ok h (rts_HMAC rts) \<Longrightarrow>
    RequestTWSession_Marshal rts h = Inr ([rts_Command rts, rts_IPVN rts AND 0x0F, rts_ConfSender rts,
      rts_ConfReceiver rts] @ be32 (rts_NumSlots rts) @ be32 (rts_NumPackets rts) @
      be16 (rts_SenderPort rts) @ be16 (rts_ReceiverPort rts) @ rts_SenderAddress rts @
      rts_ReceiverAddress rts @ rts_SID rts @ be32 (rts_PaddingLength rts) @
      TWAMPTimestamp_bytes (rts_StartTime rts) @ TWAMPTimestamp_bytes (rts_Timeout rts) @
      be32 (rts_TypePDescriptor rts) @ zeros 8 @ rts_HMAC rts)"
  by (cases h; simp add: RequestTWSession_Marshal_def Let_def hmac_ok_def wire
        del: append_assoc append.simps; simp add: zeros_def flip: replicate_add)

lemma nibbles: "x AND 0xF0 = 0 \<Longrightarrow> x AND 0x0F = x" for x :: u8
proof -
  assume "x AND 0xF0 = 0"
  moreover have "x = x AND 0xF0 OR x AND 0x0F"
  proof -
    have "(0xF0 OR 0x0F :: u8) = - 1" by simp
    then show ?thesis by (simp only: and.right_neutral flip: bit.conj_disj_distrib)
  qed
  ultimately show ?thesis by simp
qed

lemma RequestTWSession_read:
  assumes ok: "RequestTWSession_ok h m" and m: "RequestTWSession_Marshal m h = Inr b"
  shows "RequestTWSession_Unmarshal RequestTWSession_zero (b @ rest) h = Inr m"
proof -
  have v: "rts_IPVN m AND 0x0F = rts_IPVN m" "rts_IPVN m AND 0xF0 = 0"
    using ok by (auto simp: RequestTWSession_ok_def)
  have b: "b = [rts_Command m, rts_IPVN m, rts_ConfSender m,
      rts_ConfReceiver m] @ be32 0 @ be32 0 @
      be16 (rts_SenderPort m) @ be16 (rts_ReceiverPort m) @ rts_SenderAddress m @
      rts_ReceiverAddress m @ rts_SID m @ be32 (rts_PaddingLength m) @
      TWAMPTimestamp_bytes (rts_StartTime m) @ TWAMPTimestamp_bytes (rts_Timeout m) @
      be32 (rts_TypePDescriptor m) @ zeros 8 @ rts_HMAC m"
    using m ok by (simp add: RequestTWSession_ok_def RequestTWSession_Marshal_eq v)
  show ?thesis
    using ok v unfolding b RequestTWSession_ok_def hmac_ok_def
    by (cases m, cases h) (simp_all add: RequestTWSession_Unmarshal_def RequestTWSession_fields_def
        RequestTWSession_zero_def reading not_less)
qed

lemma RequestTWSession_accepted:
  assumes "RequestTWSession_Unmarshal RequestTWSession_zero b h = Inr m"
  shows "RequestTWSession_ok h m" and "112 \<le> length b" and "b ! 1 AND 0xF0 = 0"
    and "seg 88 96 b = zeros 8" and "h \<or> seg 96 112 b = zeros 16"
    and "m = (RequestTWSession_fields RequestTWSession_zero b)\<lparr>rts_HMAC := seg 96 112 b\<rparr>"
  using assms
  by (auto simp: RequestTWSession_Unmarshal_def RequestTWSession_ok_def RequestTWSession_zero_def
      RequestTWSession_fields_def hmac_ok_def not_less validateMBZ_eq split: if_splits sum.splits)

lemma RequestTWSession_rebuilt:
  assumes "RequestTWSession_Unmarshal RequestTWSession_zero b h = Inr m"
  shows "RequestTWSession_Marshal m h = Inr (take 112 b)"
proof -
  note a = RequestTWSession_accepted [OF assms]
  have ok: "length (rts_SenderAddress m) = 16" "length (rts_ReceiverAddress m) = 16"
    "length (rts_SID m) = 16" "hmac_ok h (rts_HMAC m)"
    using a(1) by (simp_all add: RequestTWSession_ok_def)
  show ?thesis
    unfolding RequestTWSession_Marshal_eq [OF ok]
    using a(2-5) by (simp add: a(6) RequestTWSession_fields_def nibbles four_bytes joining)
qed

interpretation request_codec: wire_codec "\<lambda>m. RequestTWSession_Marshal m h"
  "\<lambda>b. RequestTWSession_Unmarshal RequestTWSession_zero b h" "\<lambda>_. 112" "RequestTWSession_ok h"
  for h :: bool
proof unfold_locales
  fix m assume "RequestTWSession_ok h m"
  then show "\<exists>b. RequestTWSession_Marshal m h = Inr b \<and> length b = 112"
    by (simp add: RequestTWSession_Marshal_eq RequestTWSession_ok_def) (simp add: hmac_ok_def)
next
  fix m b rest assume "RequestTWSession_ok h m" and "RequestTWSession_Marshal m h = Inr b"
  then show "RequestTWSession_Unmarshal RequestTWSession_zero (b @ rest) h = Inr m"
    by (rule RequestTWSession_read)
next
  fix m b assume "RequestTWSession_Unmarshal RequestTWSession_zero b h = Inr m"
  then show "RequestTWSession_ok h m \<and> 112 \<le> length b \<and>
      RequestTWSession_Marshal m h = Inr (take 112 b)"
    using RequestTWSession_accepted(1,2) RequestTWSession_rebuilt by blast
qed

definition RequestTWSessionIndividual_ok :: "bool \<Rightarrow> RequestTWSessionIndividual \<Rightarrow> bool" where
  "RequestTWSessionIndividual_ok h m \<longleftrightarrow>
     RequestTWSession_ok h m \<and> rts_Command m = CmdRequestTWSessionIndividual"

lemma update_0_same: "b ! 0 = x \<Longrightarrow> b[0 := x] = b"
  by (cases b) simp_all

interpretation individual_codec: wire_codec "\<lambda>m. RequestTWSessionIndividual_Marshal m h"
  "\<lambda>b. RequestTWSessionIndividual_Unmarshal RequestTWSession_zero b h" "\<lambda>_. 112"
  "RequestTWSessionIndividual_ok h" for h :: bool
proof -
  have enc: "RequestTWSessionIndividual_Marshal m h = RequestTWSession_Marshal m h"
    if "RequestTWSession_ok h m" "rts_Command m = CmdRequestTWSessionIndividual" for m
    using that by (simp add: RequestTWSessionIndividual_Marshal_def RequestTWSession_ok_def
        RequestTWSession_Marshal_eq)
  have dec: "RequestTWSessionIndividual_Unmarshal RequestTWSession_zero b h = Inr m \<longleftrightarrow>
      RequestTWSession_Unmarshal RequestTWSession_zero b h = Inr m \<and>
      rts_Command m = CmdRequestTWSessionIndividual" for b m
    by (auto simp: RequestTWSessionIndividual_Unmarshal_def split: sum.splits if_splits)
  show "wire_codec (\<lambda>m. RequestTWSessionIndividual_Marshal m h)
    (\<lambda>b. RequestTWSessionIndividual_Unmarshal RequestTWSession_zero b h) (\<lambda>_. 112)
    (RequestTWSessionIndividual_ok h)"
    using request_codec.enc_ok [of h] request_codec.dec_enc [of h] request_codec.enc_dec [of _ h]
    by unfold_locales (auto simp: RequestTWSessionIndividual_ok_def enc dec)
qed

definition AcceptSession_zero :: AcceptSession where
  "AcceptSession_zero = \<lparr>as_Accept = 0, as_MBZ = 0, as_Port = 0, as_SID = zeroSID,
     as_MBZ2 = zeros 12, as_HMAC = zeros 16\<rparr>"

definition AcceptSession_ok :: "bool \<Rightarrow> AcceptSession \<Rightarrow> bool" where
  "AcceptSession_ok h as \<longleftrightarrow> as_MBZ as = 0 \<and> length (as_SID as) = 16 \<and> as_MBZ2 as = zeros 12 \<and>
     hmac_ok h (as_HMAC as)"

lemma AcceptSession_Marshal_eq:
  "length (as_SID as) = 16 \<Longrightarrow> hmac_ok h (as_HMAC as) \<Longrightarrow>
    AcceptSession_Marshal as h = Inr ([as_Accept as, 0] @ be16 (as_Port as) @ as_SID as @
      zeros 12 @ as_HMAC as)"
  by (cases h; simp add: AcceptSession_Marshal_def Let_def hmac_ok_def wire
        del: append_assoc append.simps; simp add: zeros_def flip: replicate_add)

interpretation accept_codec: wire_codec "\<lambda>m. AcceptSession_Marshal m h"
  "\<lambda>b. AcceptSession_Unmarshal AcceptSession_zero b h" "\<lambda>_. 48" "AcceptSession_ok h" for h :: bool
proof unfold_locales
  fix m assume "AcceptSession_ok h m"
  then show "\<exists>b. AcceptSession_Marshal m h = Inr b \<and> length b = 48"
    by (simp add: AcceptSession_Marshal_eq AcceptSession_ok_def) (simp add: hmac_ok_def)
next
  fix m b rest assume "AcceptSession_ok h m" and "AcceptSession_Marshal m h = Inr b"
  then show "AcceptSession_Unmarshal AcceptSession_zero (b @ rest) h = Inr m"
    by (cases m, cases h) (auto simp: AcceptSession_Marshal_eq AcceptSession_ok_def hmac_ok_def
        AcceptSession_Unmarshal_def AcceptSession_zero_def Let_def reading)
next
  fix m b assume "AcceptSession_Unmarshal AcceptSession_zero b h = Inr m"
  then show "AcceptSession_ok h m \<and> 48 \<le> length b \<and> AcceptSession_Marshal m h = Inr (take 48 b)"
    by (auto simp: AcceptSession_Unmarshal_def AcceptSession_ok_def AcceptSession_zero_def Let_def
        AcceptSession_Marshal_eq hmac_ok_def validateMBZ_eq byte_and_zero joining not_less
        split: if_splits)
qed

definition StartSessions_zero :: StartSessions where
  "StartSessions_zero = \<lparr>sts_Command = 0, sts_MBZ = zeros 15, sts_HMAC = zeros 16\<rparr>"

definition StartSessions_ok :: "bool \<Rightarrow> StartSessions \<Rightarrow> bool" where
  "StartSessions_ok h ss \<longleftrightarrow> sts_MBZ ss = zeros 15 \<and> hmac_ok h (sts_HMAC ss)"

lemma StartSessions_Marshal_eq:
  "hmac_ok h (sts_HMAC ss) \<Longrightarrow>
    StartSessions_Marshal ss h = Inr ([sts_Command ss] @ zeros 15 @ sts_HMAC ss)"
  by (cases h; simp add: StartSessions_Marshal_def Let_def hmac_ok_def wire
        del: append_assoc append.simps; simp add: zeros_def flip: replicate_add)

interpretation start_sessions_codec: wire_codec "\<lambda>m. StartSessions_Marshal m h"
  "\<lambda>b. StartSessions_Unmarshal StartSessions_zero b h" "\<lambda>_. 32" "StartSessions_ok h" for h :: bool
proof unfold_locales
  fix m assume "StartSessions_ok h m"
  then show "\<exists>b. StartSessions_Marshal m h = Inr b \<and> length b = 32"
    by (simp add: StartSessions_Marshal_eq StartSessions_ok_def) (simp add: hmac_ok_def)
next
  fix m b rest assume "StartSessions_ok h m" and "StartSessions_Marshal m h = Inr b"
  then show "StartSessions_Unmarshal StartSessions_zero (b @ rest) h = Inr m"
    by (cases m, cases h) (auto simp: StartSessions_Marshal_eq StartSessions_ok_def hmac_ok_def
        StartSessions_Unmarshal_def StartSessions_zero_def Let_def reading)
next
  fix m b assume "StartSessions_Unmarshal StartSessions_zero b h = Inr m"
  then show "StartSessions_ok h m \<and> 32 \<le> length b \<and> StartSessions_Marshal m h = Inr (take 32 b)"
    by (auto simp: StartSessions_Unmarshal_def StartSessions_ok_def StartSessions_zero_def Let_def
        StartSessions_Marshal_eq hmac_ok_def validateMBZ_eq first_byte joining not_less
        split: if_splits)
qed

definition StartAck_zero :: StartAck where
  "StartAck_zero = \<lparr>sa_Accept = 0, sa_MBZ = zeros 15, sa_HMAC = zeros 16\<rparr>"

definition StartAck_ok :: "bool \<Rightarrow> StartAck \<Rightarrow> bool" where
  "StartAck_ok h sa \<longleftrightarrow> sa_MBZ sa = zeros 15 \<and> hmac_ok h (sa_HMAC sa)"

lemma StartAck_Marshal_eq:
  "hmac_ok h (sa_HMAC sa) \<Longrightarrow>
    StartAck_Marshal sa h = Inr ([sa_Accept sa] @ zeros 15 @ sa_HMAC sa)"
  by (cases h; simp add: StartAck_Marshal_def Let_def hmac_ok_def wire
        del: append_assoc append.simps; simp add: zeros_def flip: replicate_add)

interpretation start_ack_codec: wire_codec "\<lambda>m. StartAck_Marshal m h"
  "\<lambda>b. StartAck_Unmarshal StartAck_zero b h" "\<lambda>_. 32" "StartAck_ok h" for h :: bool
proof unfold_locales
  fix m assume "StartAck_ok h m"
  then show "\<exists>b. StartAck_Marshal m h = Inr b \<and> length b = 32"
    by (simp add: StartAck_Marshal_eq StartAck_ok_def) (simp add: hmac_ok_def)
next
  fix m b rest assume "StartAck_ok h m" and "StartAck_Marshal m h = Inr b"
  then show "StartAck_Unmarshal StartAck_zero (b @ rest) h = Inr m"
    by (cases m, cases h) (auto simp: StartAck_Marshal_eq StartAck_ok_def hmac_ok_def
        StartAck_Unmarshal_def StartAck_zero_def Let_def reading)
next
  fix m b assume "StartAck_Unmarshal StartAck_zero b h = Inr m"
  then show "StartAck_ok h m \<and> 32 \<le> length b \<and> StartAck_Marshal m h = Inr (take 32 b)"
    by (auto simp: StartAck_Unmarshal_def StartAck_ok_def StartAck_zero_def Let_def
        StartAck_Marshal_eq hmac_ok_def validateMBZ_eq first_byte joining not_less
        split: if_splits)
qed

definition StopSessions_zero :: StopSessions where
  "StopSessions_zero = \<lparr>stp_Command = 0, stp_Accept = 0, stp_MBZ1 = zeros 2, stp_NumSessions = 0,
     stp_MBZ2 = zeros 8, stp_HMAC = zeros 16\<rparr>"

definition StopSessions_ok :: "bool \<Rightarrow> StopSessions \<Rightarrow> bool" where
  "StopSessions_ok h ss \<longleftrightarrow>
     stp_MBZ1 ss = zeros 2 \<and> stp_MBZ2 ss = zeros 8 \<and> hmac_ok h (stp_HMAC ss)"

lemma StopSessions_Marshal_eq:
  "hmac_ok h (stp_HMAC ss) \<Longrightarrow>
    StopSessions_Marshal ss h = Inr ([stp_Command ss, stp_Accept ss] @ zeros 2 @
      be32 (stp_NumSessions ss) @ zeros 8 @ stp_HMAC ss)"
  by (cases h; simp add: StopSessions_Marshal_def Let_def hmac_ok_def wire
        del: append_assoc append.simps; simp add: zeros_def flip: replicate_add)

interpretation stop_sessions_codec: wire_codec "\<lambda>m. StopSessions_Marshal m h"
  "\<lambda>b. StopSessions_Unmarshal StopSessions_zero b h" "\<lambda>_. 32" "StopSessions_ok h" for h :: bool
proof unfold_locales
  fix m assume "StopSessions_ok h m"
  then show "\<exists>b. StopSessions_Marshal m h = Inr b \<and> length b = 32"
    by (simp add: StopSessions_Marshal_eq StopSessions_ok_def) (simp add: hmac_ok_def)
next
  fix m b rest assume "StopSessions_ok h m" and "StopSessions_Marshal m h = Inr b"
  then show "StopSessions_Unmarshal StopSessions_zero (b @ rest) h = Inr m"
    by (cases m, cases h) (auto simp: StopSessions_Marshal_eq StopSessions_ok_def hmac_ok_def
        StopSessions_Unmarshal_def StopSessions_zero_def Let_def reading)
next
  fix m b assume "StopSessions_Unmarshal StopSessions_zero b h = Inr m"
  then show "StopSessions_ok h m \<and> 32 \<le> length b \<and> StopSessions_Marshal m h = Inr (take 32 b)"
    by (auto simp: StopSessions_Unmarshal_def StopSessions_ok_def StopSessions_zero_def Let_def
        StopSessions_Marshal_eq hmac_ok_def validateMBZ_eq two_bytes joining not_less
        split: if_splits)
qed

section \<open>The codec of StopNSessions\<close>

definition StopNSessions_zero :: StopNSessions where
  "StopNSessions_zero = \<lparr>sns_Command = 0, sns_Accept = 0, sns_MBZ1 = zeros 2,
     sns_NumSessions = 0, sns_MBZ2 = zeros 8, sns_SessionIDs = [], sns_HMAC = zeros 16\<rparr>"

definition StopNSessions_ok :: "bool \<Rightarrow> StopNSessions \<Rightarrow> bool" where
  "StopNSessions_ok h sns \<longleftrightarrow> sns_MBZ1 sns = zeros 2 \<and> sns_MBZ2 sns = zeros 8 \<and>
     length (sns_SessionIDs sns) = unat (sns_NumSessions sns) \<and>
     (\<forall>sid \<in> set (sns_SessionIDs sns). length sid = 16) \<and> hmac_ok h (sns_HMAC sns)"

definition StopNSessions_size :: "StopNSessions \<Rightarrow> nat" where
  "StopNSessions_size sns = 32 + 16 * unat (sns_NumSessions sns)"

lemma zeros_add: "zeros m @ zeros n = zeros (m + n)"
  by (simp add: zeros_def replicate_add)

lemma length_concat_sids:
  "\<forall>sid \<in> set sids. length sid = 16 \<Longrightarrow> length (concat sids) = 16 * length sids"
  by (induction sids) simp_all

lemma put_sids_fill:
  "\<forall>sid \<in> set sids. length sid = 16 \<Longrightarrow> 16 * length sids \<le> n \<Longrightarrow>
    put_sids (p @ zeros n) (length p) sids =
      ((p @ concat sids) @ zeros (n - 16 * length sids), length p + 16 * length sids)"
proof (induction sids arbitrary: p n)
  case (Cons sid sids)
  have "copy_at (p @ zeros n) (length p) (length p + 16) sid = (p @ sid) @ zeros (n - 16)"
    using Cons.prems copy_at_fill [of p "length p" "length p + 16" n sid] by simp
  then show ?case
    using Cons.prems Cons.IH [of "n - 16" "p @ sid"] by (simp add: algebra_simps)
qed simp

lemma StopNSessions_Marshal_eq:
  assumes "StopNSessions_ok h sns"
  shows "StopNSessions_Marshal sns h = Inr ([sns_Command sns, sns_Accept sns] @ zeros 2 @
    be32 (sns_NumSessions sns) @ zeros 8 @ concat (sns_SessionIDs sns) @ sns_HMAC sns)"
proof -
  define n where "n = unat (sns_NumSessions sns)"
  define p where "p = [sns_Command sns, sns_Accept sns] @ zeros 2 @ be32 (sns_NumSessions sns) @ zeros 8"
  have sids: "length (sns_SessionIDs sns) = n" "\<forall>sid \<in> set (sns_SessionIDs sns). length sid = 16"
    and mac: "length (sns_HMAC sns) = 16" "\<not> h \<Longrightarrow> sns_HMAC sns = zeros 16"
    using assms by (auto simp: StopNSessions_ok_def hmac_ok_def n_def)
  have lp: "length p = 16" by (simp add: p_def)
  have buf: "copy_at ((zeros (16 + n * 16 + 16))[0 := sns_Command sns, 1 := sns_Accept sns]) 4 8
      (be32 (sns_NumSessions sns)) = p @ zeros (n * 16 + 16)"
    by (simp add: p_def wire del: append_assoc append.simps)
      (simp add: zeros_add add.commute)
  have "put_sids (p @ zeros (n * 16 + 16)) 16 (sns_SessionIDs sns) =
      ((p @ concat (sns_SessionIDs sns)) @ zeros 16, 16 + 16 * n)"
    using put_sids_fill [OF sids(2), of "n * 16 + 16" p] sids(1) by (simp add: lp)
  moreover have "copy_at ((p @ concat (sns_SessionIDs sns)) @ zeros 16) (16 + 16 * n) (16 + 16 * n + 16)
      (sns_HMAC sns) = p @ concat (sns_SessionIDs sns) @ sns_HMAC sns"
    by (subst copy_at_fill) (simp_all add: lp mac length_concat_sids sids)
  ultimately show ?thesis
    using mac sids unfolding StopNSessions_Marshal_def Let_def n_def [symmetric] buf
    by (simp add: p_def del: append.simps)
qed

text \<open>Session identifiers read one after another, and put together again.\<close>

lemma concat_segs: "concat (map (\<lambda>i. seg (16 + 16 * i) (32 + 16 * i) b) [0 ..< n]) = seg 16 (16 + 16 * n) b"
proof (induction n)
  case (Suc n)
  then show ?case using seg_split [of 16 "16 + 16 * n" "32 + 16 * n" b] by (simp add: add.commute)
qed (simp add: seg_def)

lemma segs_concat:
  "\<forall>sid \<in> set sids. length sid = 16 \<Longrightarrow> length p = 16 \<Longrightarrow>
    map (\<lambda>i. seg (16 + 16 * i) (32 + 16 * i) (p @ concat sids @ r)) [0 ..< length sids] = sids"
proof (induction sids arbitrary: r rule: rev_induct)
  case (snoc sid sids)
  have "length (concat sids) = 16 * length sids" using snoc.prems by (simp add: length_concat_sids)
  then show ?case using snoc.IH [of "sid @ r"] snoc.prems by (simp add: seg_all)
qed simp

lemma StopNSessions_Unmarshal_ok:
  assumes "seg 2 4 b = zeros 2" and "seg 8 16 b = zeros 8" and "unat (rd32 (seg 4 8 b)) = n"
    and "32 + 16 * n \<le> length b" and "h \<or> seg (16 + 16 * n) (32 + 16 * n) b = zeros 16"
  shows "StopNSessions_Unmarshal StopNSessions_zero b h = Inr
    \<lparr>sns_Command = b ! 0, sns_Accept = b ! 1, sns_MBZ1 = zeros 2,
     sns_NumSessions = rd32 (seg 4 8 b), sns_MBZ2 = zeros 8,
     sns_SessionIDs = map (\<lambda>i. seg (16 + 16 * i) (32 + 16 * i) b) [0 ..< n],
     sns_HMAC = seg (16 + 16 * n) (32 + 16 * n) b\<rparr>"
  using assms
  by (auto simp: StopNSessions_Unmarshal_def Let_def validateMBZ_eq StopNSessions_zero_def
      algebra_simps)

interpretation stop_n_codec: wire_codec "\<lambda>m. StopNSessions_Marshal m h"
  "\<lambda>b. StopNSessions_Unmarshal StopNSessions_zero b h" StopNSessions_size "StopNSessions_ok h" for h :: bool
proof unfold_locales
  fix m assume ok: "StopNSessions_ok h m"
  then show "\<exists>b. StopNSessions_Marshal m h = Inr b \<and> length b = StopNSessions_size m"
    by (simp add: StopNSessions_Marshal_eq)
      (simp add: StopNSessions_ok_def hmac_ok_def StopNSessions_size_def length_concat_sids)
next
  fix m b rest assume ok: "StopNSessions_ok h m" and "StopNSessions_Marshal m h = Inr b"
  then have b: "b = ([sns_Command m, sns_Accept m] @ zeros 2 @ be32 (sns_NumSessions m) @ zeros 8) @
      concat (sns_SessionIDs m) @ sns_HMAC m" by (simp add: StopNSessions_Marshal_eq)
  have sids: "map (\<lambda>i. seg (16 + 16 * i) (32 + 16 * i) (b @ rest)) [0 ..< unat (sns_NumSessions m)] =
      sns_SessionIDs m"
    using ok segs_concat [of "sns_SessionIDs m" "[sns_Command m, sns_Accept m] @ zeros 2 @
        be32 (sns_NumSessions m) @ zeros 8" "sns_HMAC m @ rest"]
    by (simp add: b StopNSessions_ok_def)
  have len: "length (concat (sns_SessionIDs m)) = 16 * unat (sns_NumSessions m)"
    using ok by (simp add: StopNSessions_ok_def length_concat_sids)
  let ?n = "unat (sns_NumSessions m)"
  have lb: "length b = 32 + 16 * ?n" and mac: "seg (16 + 16 * ?n) (32 + 16 * ?n) (b @ rest) = sns_HMAC m"
    using ok by (simp_all add: b len StopNSessions_ok_def hmac_ok_def reading)
  have hdr: "(b @ rest) ! 0 = sns_Command m" "(b @ rest) ! 1 = sns_Accept m"
    "seg 2 4 (b @ rest) = zeros 2" "rd32 (seg 4 8 (b @ rest)) = sns_NumSessions m"
    "seg 8 16 (b @ rest) = zeros 8"
    by (simp_all add: b reading)
  have "h \<or> sns_HMAC m = zeros 16" using ok by (simp add: StopNSessions_ok_def hmac_ok_def)
  moreover have "32 + 16 * ?n \<le> length (b @ rest)" by (simp add: lb)
  ultimately have "StopNSessions_Unmarshal StopNSessions_zero (b @ rest) h = Inr
    \<lparr>sns_Command = sns_Command m, sns_Accept = sns_Accept m, sns_MBZ1 = zeros 2,
     sns_NumSessions = sns_NumSessions m, sns_MBZ2 = zeros 8,
     sns_SessionIDs = sns_SessionIDs m, sns_HMAC = sns_HMAC m\<rparr>"
    using StopNSessions_Unmarshal_ok [of "b @ rest" ?n h, unfolded hdr sids mac] by blast
  then show "StopNSessions_Unmarshal StopNSessions_zero (b @ rest) h = Inr m"
    using ok by (cases m) (simp add: StopNSessions_ok_def)
next
  fix m b assume d: "StopNSessions_Unmarshal StopNSessions_zero b h = Inr m"
  define n where "n = unat (rd32 (seg 4 8 b))"
  have l: "32 + 16 * n \<le> length b"
    and z: "seg 2 4 b = zeros 2" "seg 8 16 b = zeros 8"
      "h \<or> seg (16 + 16 * n) (32 + 16 * n) b = zeros 16"
    and m: "m = \<lparr>sns_Command = b ! 0, sns_Accept = b ! 1, sns_MBZ1 = zeros 2,
      sns_NumSessions = rd32 (seg 4 8 b), sns_MBZ2 = zeros 8,
      sns_SessionIDs = map (\<lambda>i. seg (16 + 16 * i) (32 + 16 * i) b) [0 ..< n],
      sns_HMAC = seg (16 + 16 * n) (32 + 16 * n) b\<rparr>"
    using d unfolding StopNSessions_Unmarshal_def
    by (auto simp: Let_def validateMBZ_eq StopNSessions_zero_def n_def not_less algebra_simps
        split: if_splits)
  have ok: "StopNSessions_ok h m"
    using l z by (auto simp: StopNSessions_ok_def hmac_ok_def m n_def)
  have "seg 16 (16 + 16 * n) b @ seg (16 + 16 * n) (32 + 16 * n) b = seg 16 (32 + 16 * n) b"
    by (rule seg_split) simp_all
  then show "StopNSessions_ok h m \<and> StopNSessions_size m \<le> length b \<and>
      StopNSessions_Marshal m h = Inr (take (StopNSessions_size m) b)"
    unfolding StopNSessions_Marshal_eq [OF ok] using ok l z
    by (simp add: m concat_segs StopNSessions_size_def two_bytes joining n_def [symmetric])
qed

section \<open>Type-P descriptors\<close>

lemma field_zero:
  "drop_bit n d AND mask k = 0 \<longleftrightarrow> (\<forall>i. n \<le> i \<and> i < n + k \<longrightarrow> \<not> bit d i)" for d :: "'a::len word"
proof
  assume z: "drop_bit n d AND mask k = 0"
  show "\<forall>i. n \<le> i \<and> i < n + k \<longrightarrow> \<not> bit d i"
  proof (intro allI impI)
    fix i assume i: "n \<le> i \<and> i < n + k"
    have "\<not> bit (drop_bit n d AND mask k) (i - n)" unfolding z by simp
    with i show "\<not> bit d i" by (auto simp: bit_simps dest: bit_imp_le_length)
  qed
next
  assume "\<forall>i. n \<le> i \<and> i < n + k \<longrightarrow> \<not> bit d i"
  then have "\<not> bit (drop_bit n d AND mask k) i" for i by (auto simp: bit_simps)
  then show "drop_bit n d AND mask k = 0" by (intro bit_word_eqI) simp
qed

lemma validateTypePDescriptor_range:
  "validateTypePDescriptor d = Inr () \<longleftrightarrow>
    (\<forall>i. 24 \<le> i \<and> i < 32 \<longrightarrow> \<not> bit d i) \<and> (\<forall>i. 16 \<le> i \<and> i < 18 \<longrightarrow> \<not> bit d i) \<and>
    (\<forall>i<16. \<not> bit d i)"
proof -
  have m: "(0xFF :: u32) = mask 8" "(0x03 :: u32) = mask 2" "(0xFFFF :: u32) = mask 16"
    by (simp_all add: mask_eq_exp_minus_1)
  show ?thesis
    using field_zero [of 24 d 8] field_zero [of 16 d 2] field_zero [of 0 d 16]
    unfolding validateTypePDescriptor_def m by auto
qed

section \<open>Properties\<close>

text \<open>The three handshake messages. \<open>Unmarshal\<close> of a fresh message accepts data exactly
  when its front is what \<open>Marshal\<close> writes for a message with the fixed lengths and zero MBZ
  fields, and returns that message: no other data is accepted, none of these is refused, and
  every field survives.\<close>

theorem handshake_codecs:
  "(ServerGreeting_Unmarshal ServerGreeting_zero b = Inr g \<longleftrightarrow>
      ServerGreeting_ok g \<and> 64 \<le> length b \<and> ServerGreeting_Marshal g = Inr (take 64 b)) \<and>
   (SetupResponse_Unmarshal SetupResponse_zero b = Inr r \<longleftrightarrow>
      SetupResponse_ok r \<and> 164 \<le> length b \<and> SetupResponse_Marshal r = Inr (take 164 b)) \<and>
   (ServerStart_Unmarshal ServerStart_zero b = Inr s \<longleftrightarrow>
      ServerStart_ok s \<and> 48 \<le> length b \<and> ServerStart_Marshal s = Inr (take 48 b))"
  by (simp only: greeting_codec.accept setup_codec.accept start_codec.accept)

text \<open>C37: session requests, plain and with individual control. Data is accepted exactly when its
  first 112 bytes are the encoding of a request with IP version 4 or 6, no slots and packets, at
  most 2048 bytes of padding, a valid Type-P descriptor, zero MBZ fields and, without HMAC, a zero
  HMAC field; the individual form demands its command byte as well.\<close>

theorem request_codecs:
  "(RequestTWSession_Unmarshal RequestTWSession_zero b h = Inr m \<longleftrightarrow>
      RequestTWSession_ok h m \<and> 112 \<le> length b \<and>
      RequestTWSession_Marshal m h = Inr (take 112 b)) \<and>
   (RequestTWSessionIndividual_Unmarshal RequestTWSession_zero b h = Inr m \<longleftrightarrow>
      RequestTWSession_ok h m \<and> rts_Command m = CmdRequestTWSessionIndividual \<and>
      112 \<le> length b \<and> RequestTWSessionIndividual_Marshal m h = Inr (take 112 b))"
  by (simp only: request_codec.accept individual_codec.accept RequestTWSessionIndividual_ok_def
      conj_assoc)

text \<open>The replies and commands of a session, each in its 48 or 32 bytes, are accepted exactly
  when they are the encoding of a well-formed message.\<close>

theorem command_codecs:
  "(AcceptSession_Unmarshal AcceptSession_zero b h = Inr a \<longleftrightarrow>
      AcceptSession_ok h a \<and> 48 \<le> length b \<and> AcceptSession_Marshal a h = Inr (take 48 b)) \<and>
   (StartSessions_Unmarshal StartSessions_zero b h = Inr s \<longleftrightarrow>
      StartSessions_ok h s \<and> 32 \<le> length b \<and> StartSessions_Marshal s h = Inr (take 32 b)) \<and>
   (StartAck_Unmarshal StartAck_zero b h = Inr k \<longleftrightarrow>
      StartAck_ok h k \<and> 32 \<le> length b \<and> StartAck_Marshal k h = Inr (take 32 b)) \<and>
   (StopSessions_Unmarshal StopSessions_zero b h = Inr t \<longleftrightarrow>
      StopSessions_ok h t \<and> 32 \<le> length b \<and> StopSessions_Marshal t h = Inr (take 32 b))"
  by (simp only: accept_codec.accept start_sessions_codec.accept start_ack_codec.accept
      stop_sessions_codec.accept)

text \<open>Stop-N-Sessions with its list of session identifiers: the count, the identifiers in their
  order and the HMAC survive, and data is accepted exactly when it begins with the encoding of a
  message whose count is the number of its identifiers.\<close>

theorem StopNSessions_codec:
  "StopNSessions_Unmarshal StopNSessions_zero b h = Inr m \<longleftrightarrow>
    StopNSessions_ok h m \<and> 32 + 16 * length (sns_SessionIDs m) \<le> length b \<and>
    StopNSessions_Marshal m h = Inr (take (32 + 16 * length (sns_SessionIDs m)) b)"
  unfolding stop_n_codec.accept StopNSessions_size_def by (auto simp: StopNSessions_ok_def)

text \<open>The Type-P descriptors accepted are exactly the 64 that hold a DSCP value in the upper
  six bits of their second byte and zeros elsewhere.\<close>

theorem validateTypePDescriptor_dscp:
  "validateTypePDescriptor d = Inr () \<longleftrightarrow> d = push_bit 18 (drop_bit 18 d AND 0x3F)"
proof -
  have "validateTypePDescriptor d = Inr () \<longleftrightarrow> (\<forall>i. bit d i \<longrightarrow> 18 \<le> i \<and> i < 24)"
    unfolding validateTypePDescriptor_range
  proof (intro iffI allI impI)
    fix i assume r: "(\<forall>i. 24 \<le> i \<and> i < 32 \<longrightarrow> \<not> bit d i) \<and>
      (\<forall>i. 16 \<le> i \<and> i < 18 \<longrightarrow> \<not> bit d i) \<and> (\<forall>i<16. \<not> bit d i)" and "bit d i"
    then have "\<not> (24 \<le> i \<and> i < 32)" "\<not> (16 \<le> i \<and> i < 18)" "\<not> i < 16" by blast+
    moreover have "i < 32" using \<open>bit d i\<close> by (auto dest: bit_imp_le_length)
    ultimately show "18 \<le> i \<and> i < 24" by linarith
  next
    assume r: "\<forall>i. bit d i \<longrightarrow> 18 \<le> i \<and> i < 24"
    then have "\<not> bit d i" if "24 \<le> i \<or> i < 18" for i using that by fastforce
    then show "(\<forall>i. 24 \<le> i \<and> i < 32 \<longrightarrow> \<not> bit d i) \<and>
      (\<forall>i. 16 \<le> i \<and> i < 18 \<longrightarrow> \<not> bit d i) \<and> (\<forall>i<16. \<not> bit d i)" by simp
  qed
  also have "\<dots> \<longleftrightarrow> d = push_bit 18 (drop_bit 18 d AND 0x3F)"
  proof -
    define e where "e = push_bit 18 (drop_bit 18 d AND 0x3F)"
    have b: "bit e i \<longleftrightarrow> bit d i \<and> 18 \<le> i \<and> i < 24" for i
    proof -
      have m: "(0x3F :: u32) = mask 6" by (simp add: mask_eq_exp_minus_1)
      show ?thesis unfolding e_def m bit_push_bit_iff bit_and_iff bit_drop_bit_eq bit_mask_iff comp_def
        by (auto dest: bit_imp_le_length)
    qed
    have "d = e \<longleftrightarrow> (\<forall>i. bit d i \<longleftrightarrow> bit e i)" by (auto intro: bit_word_eqI)
    also have "\<dots> \<longleftrightarrow> (\<forall>i. bit d i \<longrightarrow> 18 \<le> i \<and> i < 24)" unfolding b by blast
    finally show ?thesis unfolding e_def by blast
  qed
  finally show ?thesis .
qed

end
