(* ===== verification/Test_Messages.thy ===== *)
theory Test_Messages
  imports Control_Messages
begin

text \<open>
  The TWAMP-Test packets of \<open>messages/test.go\<close> and \<open>messages/test_rfc6038.go\<close>, the padding
  helpers of \<open>messages/padding.go\<close> and the buffer pool they take their buffers from. \<open>Marshal\<close>
  slices a 2048-byte pool buffer to the size of the packet, which panics outside 0 to 2048; a
  store by slice expression past a shorter packet lands in the buffer behind it (\<open>copy_at\<close>), a
  store by index panics. The random source is the argument \<open>rnd\<close>: that many bytes, or an error.
  Sizes are Go \<open>int\<close>s.
\<close>

section \<open>Buffers and padding\<close>

text \<open>
  A buffer pool hands out buffers of the size it was made for and takes back only those; what it
  holds is the list of their sizes, as every user clears a buffer before filling it.
\<close>

record BufferPool =
  bp_size :: nat
  bp_pool :: "nat list"

definition NewBufferPool :: "nat \<Rightarrow> BufferPool" where
  "NewBufferPool bufferSize = \<lparr>bp_size = bufferSize, bp_pool = []\<rparr>"

definition BufferPool_Get :: "BufferPool \<Rightarrow> nat \<times> BufferPool" where
  "BufferPool_Get bp =
     (case bp_pool bp of
        [] \<Rightarrow> (bp_size bp, bp)
      | n # ns \<Rightarrow> (n, bp\<lparr>bp_pool := ns\<rparr>))"

definition BufferPool_Put :: "BufferPool \<Rightarrow> nat \<Rightarrow> BufferPool" where
  "BufferPool_Put bp cap =
     (if cap = bp_size bp then bp\<lparr>bp_pool := cap # bp_pool bp\<rparr> else bp)"

text \<open>\<open>PacketBufferPool.Get()[:size]\<close>, cleared: the global pool is made for 2048 bytes.\<close>

definition pool_slice :: "int \<Rightarrow> bytes res" where
  "pool_slice n =
     (if n < 0 \<or> int MaxTWAMPPacketSize < n then Inl (Panic ''slice bounds out of range'')
      else Inr (zeros (nat n)))"

type_synonym random_source = "nat \<Rightarrow> bytes res"

definition GenerateRandomPadding :: "random_source \<Rightarrow> int \<Rightarrow> bytes res" where
  "GenerateRandomPadding rnd n = (if n \<le> 0 then Inr [] else rnd (nat n))"

definition GenerateZeroPadding :: "int \<Rightarrow> bytes" where
  "GenerateZeroPadding n = (if n \<le> 0 then [] else zeros (nat n))"

definition FillRandomPadding :: "random_source \<Rightarrow> bytes \<Rightarrow> bytes res" where
  "FillRandomPadding rnd buf = (if length buf = 0 then Inr buf else rnd (length buf))"

definition FillZeroPadding :: "bytes \<Rightarrow> bytes" where
  "FillZeroPadding buf = map (\<lambda>_. 0) buf"

text \<open>Big-endian error estimates, as they are stored and read.\<close>

definition ee_bytes :: "ErrorEstimate \<Rightarrow> bytes" where
  "ee_bytes ee = be16 (ErrorEstimate_ToUint16 ee)"

definition ee_read :: "bytes \<Rightarrow> ErrorEstimate" where
  "ee_read b = ErrorEstimate_FromUint16 (rd16 b)"

section \<open>Sender packets\<close>

record SenderTestPacket =
  tp_SeqNumber :: u32
  tp_Timestamp :: TWAMPTimestamp
  tp_ErrorEstimate :: ErrorEstimate
  tp_PaddingSize :: int

definition SenderTestPacket_Marshal :: "SenderTestPacket \<Rightarrow> bytes res" where
  "SenderTestPacket_Marshal p =
     (case pool_slice (14 + tp_PaddingSize p) of Inl e \<Rightarrow> Inl e
      | Inr buf \<Rightarrow>
         (let buf = copy_at buf 0 4 (be32 (tp_SeqNumber p));
              buf = copy_at buf 4 12 (TWAMPTimestamp_bytes (tp_Timestamp p));
              buf = copy_at buf 12 14 (ee_bytes (tp_ErrorEstimate p))
          in Inr buf))"

definition SenderTestPacket_Unmarshal :: "SenderTestPacket \<Rightarrow> bytes \<Rightarrow> SenderTestPacket res" where
  "SenderTestPacket_Unmarshal p data =
     (if length data < 14 then Inl ErrInvalidMessageLength
      else Inr (p\<lparr>tp_SeqNumber := rd32 (seg 0 4 data),
                  tp_Timestamp := TWAMPTimestamp_read (seg 4 12 data),
                  tp_ErrorEstimate := ee_read (seg 12 14 data),
                  tp_PaddingSize := int (length data) - 14\<rparr>))"

record SenderTestPacketAuth =
  ta_SeqNumber :: u32
  ta_MBZ :: bytes
  ta_Timestamp :: TWAMPTimestamp
  ta_ErrorEstimate :: ErrorEstimate
  ta_MBZ2 :: bytes
  ta_HMAC :: bytes
  ta_PaddingSize :: int

definition SenderTestPacketAuth_Marshal :: "random_source \<Rightarrow> SenderTestPacketAuth \<Rightarrow> bytes res" where
  "SenderTestPacketAuth_Marshal rnd p =
     (case pool_slice (48 + ta_PaddingSize p) of Inl e \<Rightarrow> Inl e
      | Inr buf \<Rightarrow>
         (let buf = copy_at buf 0 4 (be32 (ta_SeqNumber p));
              buf = copy_at buf 16 24 (TWAMPTimestamp_bytes (ta_Timestamp p));
              buf = copy_at buf 24 26 (ee_bytes (ta_ErrorEstimate p));
              buf = copy_at buf 32 48 (ta_HMAC p)
          in if 0 < ta_PaddingSize p
             then (case FillRandomPadding rnd (drop 48 buf) of Inl e \<Rightarrow> Inl e
                   | Inr pad \<Rightarrow> Inr (copy_at buf 48 (length buf) pad))
             else Inr buf))"

definition SenderTestPacketAuth_Unmarshal ::
    "SenderTestPacketAuth \<Rightarrow> bytes \<Rightarrow> SenderTestPacketAuth res" where
  "SenderTestPacketAuth_Unmarshal p data =
     (if length data < 48 then Inl ErrInvalidMessageLength
      else case validateMBZ data 4 16 of Inl e \<Rightarrow> Inl e
      | Inr _ \<Rightarrow> case validateMBZ data 26 32 of Inl e \<Rightarrow> Inl e
      | Inr _ \<Rightarrow> Inr (p\<lparr>ta_SeqNumber := rd32 (seg 0 4 data),
                     ta_Timestamp := TWAMPTimestamp_read (seg 16 24 data),
                     ta_ErrorEstimate := ee_read (seg 24 26 data),
                     ta_HMAC := seg 32 48 data,
                     ta_PaddingSize := int (length data) - 48\<rparr>))"

section \<open>Reflector packets\<close>

record ReflectorTestPacket =
  rp_SeqNumber :: u32
  rp_Timestamp :: TWAMPTimestamp
  rp_ErrorEstimate :: ErrorEstimate
  rp_MBZ :: bytes
  rp_ReceiveTimestamp :: TWAMPTimestamp
  rp_SenderSeqNumber :: u32
  rp_SenderTimestamp :: TWAMPTimestamp
  rp_SenderErrorEstimate :: ErrorEstimate
  rp_MBZ2 :: bytes
  rp_SenderTTL :: u8
  rp_PaddingSize :: int

definition ReflectorTestPacket_Marshal :: "ReflectorTestPacket \<Rightarrow> bytes res" where
  "ReflectorTestPacket_Marshal p =
     (case pool_slice (41 + rp_PaddingSize p) of Inl e \<Rightarrow> Inl e
      | Inr buf \<Rightarrow>
         (let buf = copy_at buf 0 4 (be32 (rp_SeqNumber p));
              buf = copy_at buf 4 12 (TWAMPTimestamp_bytes (rp_Timestamp p));
              buf = copy_at buf 12 14 (ee_bytes (rp_ErrorEstimate p));
              buf = copy_at buf 16 24 (TWAMPTimestamp_bytes (rp_ReceiveTimestamp p));
              buf = copy_at buf 24 28 (be32 (rp_SenderSeqNumber p));
              buf = copy_at buf 28 36 (TWAMPTimestamp_bytes (rp_SenderTimestamp p));
              buf = copy_at buf 36 38 (ee_bytes (rp_SenderErrorEstimate p))
          in if length buf \<le> 40 then Inl (Panic ''index out of range'')
             else Inr (buf[40 := rp_SenderTTL p])))"

definition ReflectorTestPacket_Unmarshal ::
    "ReflectorTestPacket \<Rightarrow> bytes \<Rightarrow> ReflectorTestPacket res" where
  "ReflectorTestPacket_Unmarshal p data =
     (if length data < 41 then Inl ErrInvalidMessageLength
      else case validateMBZ data 14 16 of Inl e \<Rightarrow> Inl e
      | Inr _ \<Rightarrow> case validateMBZ data 38 40 of Inl e \<Rightarrow> Inl e
      | Inr _ \<Rightarrow> Inr (p\<lparr>rp_SeqNumber := rd32 (seg 0 4 data),
                     rp_Timestamp := TWAMPTimestamp_read (seg 4 12 data),
                     rp_ErrorEstimate := ee_read (seg 12 14 data),
                     rp_ReceiveTimestamp := TWAMPTimestamp_read (seg 16 24 data),
                     rp_SenderSeqNumber := rd32 (seg 24 28 data),
                     rp_SenderTimestamp := TWAMPTimestamp_read (seg 28 36 data),
                     rp_SenderErrorEstimate := ee_read (seg 36 38 data),
                     rp_SenderTTL := data ! 40,
                     rp_PaddingSize := int (length data) - 41\<rparr>))"

record ReflectorTestPacketAuth =
  ra_SeqNumber :: u32
  ra_MBZ :: bytes
  ra_Timestamp :: TWAMPTimestamp
  ra_ErrorEstimate :: ErrorEstimate
  ra_MBZ2 :: bytes
  ra_ReceiveTimestamp :: TWAMPTimestamp
  ra_MBZ3 :: bytes
  ra_SenderSeqNumber :: u32
  ra_MBZ4 :: bytes
  ra_SenderTimestamp :: TWAMPTimestamp
  ra_SenderErrorEstimate :: ErrorEstimate
  ra_MBZ5 :: bytes
  ra_SenderTTL :: u8
  ra_MBZ6 :: bytes
  ra_HMAC :: bytes
  ra_PaddingSize :: int

definition ReflectorTestPacketAuth_Marshal ::
    "random_source \<Rightarrow> ReflectorTestPacketAuth \<Rightarrow> bytes res" where
  "ReflectorTestPacketAuth_Marshal rnd p =
     (case pool_slice (if 0 < ra_PaddingSize p then 112 + ra_PaddingSize p else 112) of Inl e \<Rightarrow> Inl e
      | Inr buf \<Rightarrow>
         (let buf = copy_at buf 0 4 (be32 (ra_SeqNumber p));
              buf = copy_at buf 16 24 (TWAMPTimestamp_bytes (ra_Timestamp p));
              buf = copy_at buf 24 26 (ee_bytes (ra_ErrorEstimate p));
              buf = copy_at buf 32 40 (TWAMPTimestamp_bytes (ra_ReceiveTimestamp p));
              buf = copy_at buf 48 52 (be32 (ra_SenderSeqNumber p));
              buf = copy_at buf 64 72 (TWAMPTimestamp_bytes (ra_SenderTimestamp p));
              buf = copy_at buf 72 74 (ee_bytes (ra_SenderErrorEstimate p));
              buf = buf[80 := ra_SenderTTL p];
              buf = copy_at buf 96 112 (ra_HMAC p)
          in if 0 < ra_PaddingSize p
             then (case FillRandomPadding rnd (drop 112 buf) of Inl e \<Rightarrow> Inl e
                   | Inr pad \<Rightarrow> Inr (copy_at buf 112 (length buf) pad))
             else Inr buf))"

definition ReflectorTestPacketAuth_Unmarshal ::
    "ReflectorTestPacketAuth \<Rightarrow> bytes \<Rightarrow> ReflectorTestPacketAuth res" where
  "ReflectorTestPacketAuth_Unmarshal p data =
     (if length data < 112 then Inl ErrInvalidMessageLength
      else case validateMBZ data 4 16 of Inl e \<Rightarrow> Inl e
      | Inr _ \<Rightarrow> case validateMBZ data 26 32 of Inl e \<Rightarrow> Inl e
      | Inr _ \<Rightarrow> case validateMBZ data 40 48 of Inl e \<Rightarrow> Inl e
      | Inr _ \<Rightarrow> case validateMBZ data 52 64 of Inl e \<Rightarrow> Inl e
      | Inr _ \<Rightarrow> case validateMBZ data 74 80 of Inl e \<Rightarrow> Inl e
      | Inr _ \<Rightarrow> case validateMBZ data 81 96 of Inl e \<Rightarrow> Inl e
      | Inr _ \<Rightarrow> Inr (p\<lparr>ra_SeqNumber := rd32 (seg 0 4 data),
                     ra_Timestamp := TWAMPTimestamp_read (seg 16 24 data),
                     ra_ErrorEstimate := ee_read (seg 24 26 data),
                     ra_ReceiveTimestamp := TWAMPTimestamp_read (seg 32 40 data),
                     ra_SenderSeqNumber := rd32 (seg 48 52 data),
                     ra_SenderTimestamp := TWAMPTimestamp_read (seg 64 72 data),
                     ra_SenderErrorEstimate := ee_read (seg 72 74 data),
                     ra_SenderTTL := data ! 80,
                     ra_HMAC := seg 96 112 data,
                     ra_PaddingSize := int (length data) - 112\<rparr>))"

section \<open>Reflect-octets packets (RFC 6038)\<close>

text \<open>\<open>PaddingData\<close> may be \<open>nil\<close>, which the code tells apart only together with its length.\<close>

record SenderTestPacketReflectOctets =
  so_SeqNumber :: u32
  so_Timestamp :: TWAMPTimestamp
  so_ErrorEstimate :: ErrorEstimate
  so_PaddingSize :: int
  so_PaddingData :: "bytes option"

text \<open>The padding part of both sender packets, behind a header of \<open>h\<close> bytes.\<close>

definition fill_padding ::
    "random_source \<Rightarrow> nat \<Rightarrow> int \<Rightarrow> bytes option \<Rightarrow> bytes \<Rightarrow> bytes res" where
  "fill_padding rnd h paddingSize paddingData buf =
     (if 0 < paddingSize then
        (case paddingData of
           Some d \<Rightarrow>
             if paddingSize \<le> int (length d)
             then Inr (copy_at buf h (length buf) (take (nat paddingSize) d))
             else (case rnd (length buf - h) of Inl e \<Rightarrow> Inl e
                   | Inr r \<Rightarrow> Inr (copy_at buf h (length buf) r))
         | None \<Rightarrow>
             (case rnd (length buf - h) of Inl e \<Rightarrow> Inl e
              | Inr r \<Rightarrow> Inr (copy_at buf h (length buf) r)))
      else Inr buf)"

definition SenderTestPacketReflectOctets_Marshal ::
    "random_source \<Rightarrow> SenderTestPacketReflectOctets \<Rightarrow> bytes res" where
  "SenderTestPacketReflectOctets_Marshal rnd p =
     (case pool_slice (14 + so_PaddingSize p) of Inl e \<Rightarrow> Inl e
      | Inr buf \<Rightarrow>
         (let buf = copy_at buf 0 4 (be32 (so_SeqNumber p));
              buf = copy_at buf 4 12 (TWAMPTimestamp_bytes (so_Timestamp p));
              buf = copy_at buf 12 14 (ee_bytes (so_ErrorEstimate p))
          in fill_padding rnd 14 (so_PaddingSize p) (so_PaddingData p) buf))"

definition SenderTestPacketReflectOctets_Unmarshal ::
    "SenderTestPacketReflectOctets \<Rightarrow> bytes \<Rightarrow> SenderTestPacketReflectOctets res" where
  "SenderTestPacketReflectOctets_Unmarshal p data =
     (if length data < 14 then Inl ErrInvalidMessageLength
      else
        (let p = p\<lparr>so_SeqNumber := rd32 (seg 0 4 data),
                   so_Timestamp := TWAMPTimestamp_read (seg 4 12 data),
                   so_ErrorEstimate := ee_read (seg 12 14 data)\<rparr>
         in Inr (if 14 < length data
                 then p\<lparr>so_PaddingSize := int (length data) - 14, so_PaddingData := Some (drop 14 data)\<rparr>
                 else p)))"

record SenderTestPacketAuthReflectOctets =
  sao_SeqNumber :: u32
  sao_MBZ :: bytes
  sao_Timestamp :: TWAMPTimestamp
  sao_ErrorEstimate :: ErrorEstimate
  sao_MBZ2 :: bytes
  sao_HMAC :: bytes
  sao_PaddingSize :: int
  sao_PaddingData :: "bytes option"

definition SenderTestPacketAuthReflectOctets_Marshal ::
    "random_source \<Rightarrow> SenderTestPacketAuthReflectOctets \<Rightarrow> bytes res" where
  "SenderTestPacketAuthReflectOctets_Marshal rnd p =
     (case pool_slice (48 + sao_PaddingSize p) of Inl e \<Rightarrow> Inl e
      | Inr buf \<Rightarrow>
         (let buf = copy_at buf 0 4 (be32 (sao_SeqNumber p));
              buf = copy_at buf 16 24 (TWAMPTimestamp_bytes (sao_Timestamp p));
              buf = copy_at buf 24 26 (ee_bytes (sao_ErrorEstimate p));
              buf = copy_at buf 32 48 (sao_HMAC p)
          in fill_padding rnd 48 (sao_PaddingSize p) (sao_PaddingData p) buf))"

definition SenderTestPacketAuthReflectOctets_Unmarshal ::
    "SenderTestPacketAuthReflectOctets \<Rightarrow> bytes \<Rightarrow> SenderTestPacketAuthReflectOctets res" where
  "SenderTestPacketAuthReflectOctets_Unmarshal p data =
     (if length data < 48 then Inl ErrInvalidMessageLength
      else case validateMBZ data 4 16 of Inl e \<Rightarrow> Inl e
      | Inr _ \<Rightarrow> case validateMBZ data 26 32 of Inl e \<Rightarrow> Inl e
      | Inr _ \<Rightarrow>
        (let p = p\<lparr>sao_SeqNumber := rd32 (seg 0 4 data),
                   sao_Timestamp := TWAMPTimestamp_read (seg 16 24 data),
                   sao_ErrorEstimate := ee_read (seg 24 26 data),
                   sao_HMAC := seg 32 48 data\<rparr>
         in Inr (if 48 < length data
                 then p\<lparr>sao_PaddingSize := int (length data) - 48, sao_PaddingData := Some (drop 48 data)\<rparr>
                 else p)))"

record ReflectorTestPacketReflectOctets =
  ro_SeqNumber :: u32
  ro_Timestamp :: TWAMPTimestamp
  ro_ErrorEstimate :: ErrorEstimate
  ro_MBZ1 :: u16
  ro_ReceiveTimestamp :: TWAMPTimestamp
  ro_SenderSeqNumber :: u32
  ro_SenderTimestamp :: TWAMPTimestamp
  ro_SenderErrorEstimate :: ErrorEstimate
  ro_MBZ2 :: u16
  ro_SenderTTL :: u8
  ro_ReflectedPadding :: bytes

definition ReflectorTestPacketReflectOctets_Marshal ::
    "ReflectorTestPacketReflectOctets \<Rightarrow> bytes res" where
  "ReflectorTestPacketReflectOctets_Marshal p =
     (case pool_slice (41 + int (length (ro_ReflectedPadding p))) of Inl e \<Rightarrow> Inl e
      | Inr buf \<Rightarrow>
         (let buf = copy_at buf 0 4 (be32 (ro_SeqNumber p));
              buf = copy_at buf 4 12 (TWAMPTimestamp_bytes (ro_Timestamp p));
              buf = copy_at buf 12 14 (ee_bytes (ro_ErrorEstimate p));
              buf = copy_at buf 16 24 (TWAMPTimestamp_bytes (ro_ReceiveTimestamp p));
              buf = copy_at buf 24 28 (be32 (ro_SenderSeqNumber p));
              buf = copy_at buf 28 36 (TWAMPTimestamp_bytes (ro_SenderTimestamp p));
              buf = copy_at buf 36 38 (ee_bytes (ro_SenderErrorEstimate p));
              buf = buf[40 := ro_SenderTTL p]
          in if 0 < length (ro_ReflectedPadding p)
             then Inr (copy_at buf 41 (length buf) (ro_ReflectedPadding p))
             else Inr buf))"

definition ReflectorTestPacketReflectOctets_Unmarshal ::
    "ReflectorTestPacketReflectOctets \<Rightarrow> bytes \<Rightarrow> ReflectorTestPacketReflectOctets res" where
  "ReflectorTestPacketReflectOctets_Unmarshal p data =
     (if length data < 41 then Inl ErrInvalidMessageLength
      else if rd16 (seg 14 16 data) \<noteq> 0 then Inl ErrInvalidMBZ
      else if rd16 (seg 38 40 data) \<noteq> 0 then Inl ErrInvalidMBZ
      else
        (let p = p\<lparr>ro_SeqNumber := rd32 (seg 0 4 data),
                   ro_Timestamp := TWAMPTimestamp_read (seg 4 12 data),
                   ro_ErrorEstimate := ee_read (seg 12 14 data),
                   ro_MBZ1 := rd16 (seg 14 16 data),
                   ro_ReceiveTimestamp := TWAMPTimestamp_read (seg 16 24 data),
                   ro_SenderSeqNumber := rd32 (seg 24 28 data),
                   ro_SenderTimestamp := TWAMPTimestamp_read (seg 28 36 data),
                   ro_SenderErrorEstimate := ee_read (seg 36 38 data),
                   ro_MBZ2 := rd16 (seg 38 40 data),
                   ro_SenderTTL := data ! 40\<rparr>
         in Inr (if 41 < length data then p\<lparr>ro_ReflectedPadding := drop 41 data\<rparr> else p)))"

record ReflectorTestPacketAuthReflectOctets =
  rao_SeqNumber :: u32
  rao_MBZ :: bytes
  rao_Timestamp :: TWAMPTimestamp
  rao_ErrorEstimate :: ErrorEstimate
  rao_MBZ2 :: bytes
  rao_ReceiveTimestamp :: TWAMPTimestamp
  rao_MBZ3 :: bytes
  rao_SenderSeqNumber :: u32
  rao_MBZ4 :: bytes
  rao_SenderTimestamp :: TWAMPTimestamp
  rao_SenderErrorEstimate :: ErrorEstimate
  rao_MBZ5 :: bytes
  rao_SenderTTL :: u8
  rao_MBZ6 :: bytes
  rao_HMAC :: bytes
  rao_ReflectedPadding :: bytes

definition ReflectorTestPacketAuthReflectOctets_Marshal ::
    "ReflectorTestPacketAuthReflectOctets \<Rightarrow> bytes res" where
  "ReflectorTestPacketAuthReflectOctets_Marshal p =
     (case pool_slice (112 + int (length (rao_ReflectedPadding p))) of Inl e \<Rightarrow> Inl e
      | Inr buf \<Rightarrow>
         (let buf = copy_at buf 0 4 (be32 (rao_SeqNumber p));
              buf = copy_at buf 16 24 (TWAMPTimestamp_bytes (rao_Timestamp p));
              buf = copy_at buf 24 26 (ee_bytes (rao_ErrorEstimate p));
              buf = copy_at buf 32 40 (TWAMPTimestamp_bytes (rao_ReceiveTimestamp p));
              buf = copy_at buf 48 52 (be32 (rao_SenderSeqNumber p));
              buf = copy_at buf 64 72 (TWAMPTimestamp_bytes (rao_SenderTimestamp p));
              buf = copy_at buf 72 74 (ee_bytes (rao_SenderErrorEstimate p));
              buf = buf[80 := rao_SenderTTL p];
              buf = copy_at buf 96 112 (rao_HMAC p)
          in if 0 < length (rao_ReflectedPadding p)
             then Inr (copy_at buf 112 (length buf) (rao_ReflectedPadding p))
             else Inr buf))"

section \<open>Symmetrical size\<close>

definition CalculateSymmetricalPadding :: "int \<Rightarrow> int" where
  "CalculateSymmetricalPadding senderPacketSize =
     (if 41 < senderPacketSize then senderPacketSize - 41 else 0)"

definition CalculateSymmetricalPaddingAuth :: "int \<Rightarrow> int" where
  "CalculateSymmetricalPaddingAuth senderPacketSize =
     (if 112 < senderPacketSize then senderPacketSize - 112 else 0)"

definition ErrorEstimate_zero :: ErrorEstimate where
  "ErrorEstimate_zero = \<lparr>Multiplier = 0, Scale = 0, SyncBit = False\<rparr>"

definition Timestamp_zero :: TWAMPTimestamp where
  "Timestamp_zero = \<lparr>Seconds = 0, Fraction = 0\<rparr>"

definition CreateRFC6038SymmetricalReflectorPacket :: "SenderTestPacket \<Rightarrow> int \<Rightarrow> ReflectorTestPacket" where
  "CreateRFC6038SymmetricalReflectorPacket senderPacket senderPacketSize =
     (let paddingSize = CalculateSymmetricalPadding senderPacketSize in
      \<lparr>rp_SeqNumber = 0, rp_Timestamp = Timestamp_zero, rp_ErrorEstimate = ErrorEstimate_zero,
       rp_MBZ = zeros 2, rp_ReceiveTimestamp = Timestamp_zero,
       rp_SenderSeqNumber = tp_SeqNumber senderPacket,
       rp_SenderTimestamp = tp_Timestamp senderPacket,
       rp_SenderErrorEstimate = tp_ErrorEstimate senderPacket,
       rp_MBZ2 = zeros 2, rp_SenderTTL = 0, rp_PaddingSize = paddingSize\<rparr>)"

definition CreateRFC6038ReflectOctetsReflectorPacket ::
    "SenderTestPacketReflectOctets \<Rightarrow> ReflectorTestPacketReflectOctets" where
  "CreateRFC6038ReflectOctetsReflectorPacket senderPacket =
     \<lparr>ro_SeqNumber = 0, ro_Timestamp = Timestamp_zero, ro_ErrorEstimate = ErrorEstimate_zero,
      ro_MBZ1 = 0, ro_ReceiveTimestamp = Timestamp_zero,
      ro_SenderSeqNumber = so_SeqNumber senderPacket,
      ro_SenderTimestamp = so_Timestamp senderPacket,
      ro_SenderErrorEstimate = so_ErrorEstimate senderPacket,
      ro_MBZ2 = 0, ro_SenderTTL = 0,
      ro_ReflectedPadding = (case so_PaddingData senderPacket of None \<Rightarrow> [] | Some d \<Rightarrow> d)\<rparr>"

section \<open>Lemmas\<close>

lemma pool_slice_ok: "0 \<le> n \<Longrightarrow> n \<le> 2048 \<Longrightarrow> pool_slice n = Inr (zeros (nat n))"
  by (simp add: pool_slice_def)

lemma length_ee_bytes [simp]: "length (ee_bytes ee) = 2"
  by (simp add: ee_bytes_def)

lemma ee_read_bytes [simp]: "Scale ee < 64 \<Longrightarrow> ee_read (ee_bytes ee) = ee"
  by (simp add: ee_read_def ee_bytes_def ErrorEstimate_small)

text \<open>A random source that delivers what it is asked for.\<close>

definition rand_ok :: "random_source \<Rightarrow> bool" where
  "rand_ok rnd \<longleftrightarrow> (\<forall>n. \<exists>r. rnd n = Inr r \<and> length r = n)"

lemma rand_okE:
  assumes "rand_ok rnd" obtains r where "rnd n = Inr r" "length r = n"
  using assms by (auto simp: rand_ok_def)

lemma fill_tail: "length r = n \<Longrightarrow> copy_at (p @ zeros n) (length p) (length p + n) r = p @ r"
  by (simp add: copy_at_def)

lemma zeros_Cons: "0 # zeros n = zeros (Suc n)"
  by (simp add: zeros_def)

section \<open>Codecs of the plain packets\<close>

definition SenderTestPacket_zero :: SenderTestPacket where
  "SenderTestPacket_zero = \<lparr>tp_SeqNumber = 0, tp_Timestamp = Timestamp_zero,
     tp_ErrorEstimate = ErrorEstimate_zero, tp_PaddingSize = 0\<rparr>"

definition SenderTestPacket_ok :: "SenderTestPacket \<Rightarrow> bool" where
  "SenderTestPacket_ok p \<longleftrightarrow>
     Scale (tp_ErrorEstimate p) < 64 \<and> 0 \<le> tp_PaddingSize p \<and> tp_PaddingSize p \<le> 2034"

lemma SenderTestPacket_Marshal_eq:
  assumes "0 \<le> tp_PaddingSize p" and "tp_PaddingSize p \<le> 2034"
  shows "SenderTestPacket_Marshal p = Inr (be32 (tp_SeqNumber p) @
    TWAMPTimestamp_bytes (tp_Timestamp p) @ ee_bytes (tp_ErrorEstimate p) @ zeros (nat (tp_PaddingSize p)))"
proof -
  have "nat (14 + tp_PaddingSize p) = 14 + nat (tp_PaddingSize p)" using assms by simp
  then show ?thesis
    using assms by (simp add: SenderTestPacket_Marshal_def pool_slice_ok Let_def wire del: append_assoc)
qed

interpretation sender_codec: codec SenderTestPacket_Marshal
  "SenderTestPacket_Unmarshal SenderTestPacket_zero" "\<lambda>p. 14 + nat (tp_PaddingSize p)" SenderTestPacket_ok
proof unfold_locales
  fix m assume "SenderTestPacket_ok m"
  then show "\<exists>b. SenderTestPacket_Marshal m = Inr b \<and> length b = 14 + nat (tp_PaddingSize m) \<and>
      SenderTestPacket_Unmarshal SenderTestPacket_zero b = Inr m"
    by (cases m) (simp add: SenderTestPacket_ok_def SenderTestPacket_Marshal_eq reading
        SenderTestPacket_Unmarshal_def SenderTestPacket_zero_def)
qed

definition ReflectorTestPacket_zero :: ReflectorTestPacket where
  "ReflectorTestPacket_zero = \<lparr>rp_SeqNumber = 0, rp_Timestamp = Timestamp_zero,
     rp_ErrorEstimate = ErrorEstimate_zero, rp_MBZ = zeros 2, rp_ReceiveTimestamp = Timestamp_zero,
     rp_SenderSeqNumber = 0, rp_SenderTimestamp = Timestamp_zero,
     rp_SenderErrorEstimate = ErrorEstimate_zero, rp_MBZ2 = zeros 2, rp_SenderTTL = 0,
     rp_PaddingSize = 0\<rparr>"

definition ReflectorTestPacket_ok :: "ReflectorTestPacket \<Rightarrow> bool" where
  "ReflectorTestPacket_ok p \<longleftrightarrow> rp_MBZ p = zeros 2 \<and> rp_MBZ2 p = zeros 2 \<and>
     Scale (rp_ErrorEstimate p) < 64 \<and> Scale (rp_SenderErrorEstimate p) < 64 \<and>
     0 \<le> rp_PaddingSize p \<and> rp_PaddingSize p \<le> 2007"

lemma ReflectorTestPacket_Marshal_eq:
  assumes "0 \<le> rp_PaddingSize p" and "rp_PaddingSize p \<le> 2007"
  shows "ReflectorTestPacket_Marshal p = Inr (be32 (rp_SeqNumber p) @
    TWAMPTimestamp_bytes (rp_Timestamp p) @ ee_bytes (rp_ErrorEstimate p) @ zeros 2 @
    TWAMPTimestamp_bytes (rp_ReceiveTimestamp p) @ be32 (rp_SenderSeqNumber p) @
    TWAMPTimestamp_bytes (rp_SenderTimestamp p) @ ee_bytes (rp_SenderErrorEstimate p) @ zeros 2 @
    [rp_SenderTTL p] @ zeros (nat (rp_PaddingSize p)))"
proof -
  have "nat (41 + rp_PaddingSize p) = 41 + nat (rp_PaddingSize p)" using assms by simp
  then show ?thesis
    using assms by (simp add: ReflectorTestPacket_Marshal_def pool_slice_ok Let_def wire del: append_assoc)
qed

interpretation reflector_codec: codec ReflectorTestPacket_Marshal
  "ReflectorTestPacket_Unmarshal ReflectorTestPacket_zero" "\<lambda>p. 41 + nat (rp_PaddingSize p)"
  ReflectorTestPacket_ok
proof unfold_locales
  fix m assume "ReflectorTestPacket_ok m"
  then show "\<exists>b. ReflectorTestPacket_Marshal m = Inr b \<and> length b = 41 + nat (rp_PaddingSize m) \<and>
      ReflectorTestPacket_Unmarshal ReflectorTestPacket_zero b = Inr m"
    by (cases m) (simp add: ReflectorTestPacket_ok_def ReflectorTestPacket_Marshal_eq reading nth_append
        ReflectorTestPacket_Unmarshal_def ReflectorTestPacket_zero_def)
qed

section \<open>Codecs of the authenticated packets\<close>

definition sender_auth_header ::
    "u32 \<Rightarrow> TWAMPTimestamp \<Rightarrow> ErrorEstimate \<Rightarrow> bytes \<Rightarrow> bytes" where
  "sender_auth_header seqno ts ee mac =
     be32 seqno @ zeros 12 @ TWAMPTimestamp_bytes ts @ ee_bytes ee @ zeros 6 @ mac"

lemma length_sender_auth_header [simp]:
  "length mac = 16 \<Longrightarrow> length (sender_auth_header seqno ts ee mac) = 48"
  by (simp add: sender_auth_header_def)

lemma sender_auth_stores:
  assumes "length mac = 16"
  shows "copy_at (copy_at (copy_at (copy_at (zeros (48 + n)) 0 4 (be32 seqno))
      16 24 (TWAMPTimestamp_bytes ts)) 24 26 (ee_bytes ee)) 32 48 mac =
    sender_auth_header seqno ts ee mac @ zeros n"
  using assms by (simp add: sender_auth_header_def wire del: append_assoc)

lemma nat_plus: "0 \<le> n \<Longrightarrow> nat (int h + n) = h + nat n"
  by simp

definition SenderTestPacketAuth_zero :: SenderTestPacketAuth where
  "SenderTestPacketAuth_zero = \<lparr>ta_SeqNumber = 0, ta_MBZ = zeros 12, ta_Timestamp = Timestamp_zero,
     ta_ErrorEstimate = ErrorEstimate_zero, ta_MBZ2 = zeros 6, ta_HMAC = zeros 16,
     ta_PaddingSize = 0\<rparr>"

definition SenderTestPacketAuth_ok :: "random_source \<Rightarrow> SenderTestPacketAuth \<Rightarrow> bool" where
  "SenderTestPacketAuth_ok rnd p \<longleftrightarrow> rand_ok rnd \<and> ta_MBZ p = zeros 12 \<and> ta_MBZ2 p = zeros 6 \<and>
     length (ta_HMAC p) = 16 \<and> Scale (ta_ErrorEstimate p) < 64 \<and>
     0 \<le> ta_PaddingSize p \<and> ta_PaddingSize p \<le> 2000"

lemma SenderTestPacketAuth_Marshal_eq:
  assumes "rand_ok rnd" and "length (ta_HMAC p) = 16" and "0 \<le> ta_PaddingSize p"
    and "ta_PaddingSize p \<le> 2000"
  obtains r where "length r = nat (ta_PaddingSize p)"
    and "SenderTestPacketAuth_Marshal rnd p = Inr (sender_auth_header (ta_SeqNumber p)
      (ta_Timestamp p) (ta_ErrorEstimate p) (ta_HMAC p) @ r)"
proof -
  let ?n = "nat (ta_PaddingSize p)" and ?H = "sender_auth_header (ta_SeqNumber p)
      (ta_Timestamp p) (ta_ErrorEstimate p) (ta_HMAC p)"
  obtain r where r: "rnd ?n = Inr r" "length r = ?n" using assms(1) by (rule rand_okE)
  have sz: "nat (48 + ta_PaddingSize p) = 48 + ?n" using assms by simp
  have l: "length ?H = 48" using assms by simp
  have "SenderTestPacketAuth_Marshal rnd p = Inr (?H @ (if 0 < ta_PaddingSize p then r else []))"
    using assms r fill_tail [of r ?n ?H] l sender_auth_stores [of "ta_HMAC p" 0]
    by (simp add: SenderTestPacketAuth_Marshal_def pool_slice_ok sz sender_auth_stores Let_def
        FillRandomPadding_def)
  then show thesis using r that assms(3) by (cases "0 < ta_PaddingSize p") auto
qed

interpretation sender_auth_codec: codec "SenderTestPacketAuth_Marshal rnd"
  "SenderTestPacketAuth_Unmarshal SenderTestPacketAuth_zero" "\<lambda>p. 48 + nat (ta_PaddingSize p)"
  "SenderTestPacketAuth_ok rnd" for rnd
proof unfold_locales
  fix m assume ok: "SenderTestPacketAuth_ok rnd m"
  then obtain r where "length r = nat (ta_PaddingSize m)"
    and "SenderTestPacketAuth_Marshal rnd m = Inr (sender_auth_header (ta_SeqNumber m)
      (ta_Timestamp m) (ta_ErrorEstimate m) (ta_HMAC m) @ r)"
    by (auto simp: SenderTestPacketAuth_ok_def elim!: SenderTestPacketAuth_Marshal_eq)
  with ok show "\<exists>b. SenderTestPacketAuth_Marshal rnd m = Inr b \<and>
      length b = 48 + nat (ta_PaddingSize m) \<and>
      SenderTestPacketAuth_Unmarshal SenderTestPacketAuth_zero b = Inr m"
    by (cases m) (simp add: SenderTestPacketAuth_ok_def sender_auth_header_def reading
        SenderTestPacketAuth_Unmarshal_def SenderTestPacketAuth_zero_def)
qed

definition reflector_auth_header ::
    "u32 \<Rightarrow> TWAMPTimestamp \<Rightarrow> ErrorEstimate \<Rightarrow> TWAMPTimestamp \<Rightarrow> u32 \<Rightarrow> TWAMPTimestamp \<Rightarrow>
     ErrorEstimate \<Rightarrow> u8 \<Rightarrow> bytes \<Rightarrow> bytes" where
  "reflector_auth_header seqno ts ee rts sseqno sts see ttl mac =
     be32 seqno @ zeros 12 @ TWAMPTimestamp_bytes ts @ ee_bytes ee @ zeros 6 @
     TWAMPTimestamp_bytes rts @ zeros 8 @ be32 sseqno @ zeros 12 @ TWAMPTimestamp_bytes sts @
     ee_bytes see @ zeros 6 @ [ttl] @ zeros 15 @ mac"

lemma length_reflector_auth_header [simp]:
  "length mac = 16 \<Longrightarrow> length (reflector_auth_header seqno ts ee rts sseqno sts see ttl mac) = 112"
  by (simp add: reflector_auth_header_def)

lemma reflector_auth_stores:
  assumes "length mac = 16"
  shows "copy_at ((copy_at (copy_at (copy_at (copy_at (copy_at (copy_at (copy_at (zeros (112 + n))
      0 4 (be32 seqno)) 16 24 (TWAMPTimestamp_bytes ts)) 24 26 (ee_bytes ee))
      32 40 (TWAMPTimestamp_bytes rts)) 48 52 (be32 sseqno)) 64 72 (TWAMPTimestamp_bytes sts))
      72 74 (ee_bytes see)) [80 := ttl]) 96 112 mac =
    reflector_auth_header seqno ts ee rts sseqno sts see ttl mac @ zeros n"
  using assms by (simp add: reflector_auth_header_def wire del: append_assoc)

definition ReflectorTestPacketAuth_zero :: ReflectorTestPacketAuth where
  "ReflectorTestPacketAuth_zero = \<lparr>ra_SeqNumber = 0, ra_MBZ = zeros 12,
     ra_Timestamp = Timestamp_zero, ra_ErrorEstimate = ErrorEstimate_zero, ra_MBZ2 = zeros 6,
     ra_ReceiveTimestamp = Timestamp_zero, ra_MBZ3 = zeros 8, ra_SenderSeqNumber = 0,
     ra_MBZ4 = zeros 12, ra_SenderTimestamp = Timestamp_zero,
     ra_SenderErrorEstimate = ErrorEstimate_zero, ra_MBZ5 = zeros 6, ra_SenderTTL = 0,
     ra_MBZ6 = zeros 15, ra_HMAC = zeros 16, ra_PaddingSize = 0\<rparr>"

definition ReflectorTestPacketAuth_ok :: "random_source \<Rightarrow> ReflectorTestPacketAuth \<Rightarrow> bool" where
  "ReflectorTestPacketAuth_ok rnd p \<longleftrightarrow> rand_ok rnd \<and>
     ra_MBZ p = zeros 12 \<and> ra_MBZ2 p = zeros 6 \<and> ra_MBZ3 p = zeros 8 \<and> ra_MBZ4 p = zeros 12 \<and>
     ra_MBZ5 p = zeros 6 \<and> ra_MBZ6 p = zeros 15 \<and> length (ra_HMAC p) = 16 \<and>
     Scale (ra_ErrorEstimate p) < 64 \<and> Scale (ra_SenderErrorEstimate p) < 64 \<and>
     0 \<le> ra_PaddingSize p \<and> ra_PaddingSize p \<le> 1936"

lemma ReflectorTestPacketAuth_Marshal_eq:
  assumes "rand_ok rnd" and "length (ra_HMAC p) = 16" and "0 \<le> ra_PaddingSize p"
    and "ra_PaddingSize p \<le> 1936"
  obtains r where "length r = nat (ra_PaddingSize p)"
    and "ReflectorTestPacketAuth_Marshal rnd p = Inr (reflector_auth_header (ra_SeqNumber p)
      (ra_Timestamp p) (ra_ErrorEstimate p) (ra_ReceiveTimestamp p) (ra_SenderSeqNumber p)
      (ra_SenderTimestamp p) (ra_SenderErrorEstimate p) (ra_SenderTTL p) (ra_HMAC p) @ r)"
proof -
  let ?n = "nat (ra_PaddingSize p)" and ?H = "reflector_auth_header (ra_SeqNumber p)
      (ra_Timestamp p) (ra_ErrorEstimate p) (ra_ReceiveTimestamp p) (ra_SenderSeqNumber p)
      (ra_SenderTimestamp p) (ra_SenderErrorEstimate p) (ra_SenderTTL p) (ra_HMAC p)"
  obtain r where r: "rnd ?n = Inr r" "length r = ?n" using assms(1) by (rule rand_okE)
  have l: "length ?H = 112" using assms by simp
  have sz: "pool_slice (if 0 < ra_PaddingSize p then 112 + ra_PaddingSize p else 112) =
      Inr (zeros (112 + ?n))"
    using assms by (auto simp: pool_slice_ok nat_add_distrib)
  have "ReflectorTestPacketAuth_Marshal rnd p = Inr (?H @ (if 0 < ra_PaddingSize p then r else []))"
    unfolding ReflectorTestPacketAuth_Marshal_def sz Let_def reflector_auth_stores [OF assms(2)]
    using assms r fill_tail [of r ?n ?H] l reflector_auth_stores [of "ra_HMAC p" 0]
    by (simp add: FillRandomPadding_def reflector_auth_stores)
  then show thesis using r that assms(3) by (cases "0 < ra_PaddingSize p") auto
qed

interpretation reflector_auth_codec: codec "ReflectorTestPacketAuth_Marshal rnd"
  "ReflectorTestPacketAuth_Unmarshal ReflectorTestPacketAuth_zero" "\<lambda>p. 112 + nat (ra_PaddingSize p)"
  "ReflectorTestPacketAuth_ok rnd" for rnd
proof unfold_locales
  fix m assume ok: "ReflectorTestPacketAuth_ok rnd m"
  then obtain r where "length r = nat (ra_PaddingSize m)"
    and "ReflectorTestPacketAuth_Marshal rnd m = Inr (reflector_auth_header (ra_SeqNumber m)
      (ra_Timestamp m) (ra_ErrorEstimate m) (ra_ReceiveTimestamp m) (ra_SenderSeqNumber m)
      (ra_SenderTimestamp m) (ra_SenderErrorEstimate m) (ra_SenderTTL m) (ra_HMAC m) @ r)"
    by (auto simp: ReflectorTestPacketAuth_ok_def elim!: ReflectorTestPacketAuth_Marshal_eq)
  with ok show "\<exists>b. ReflectorTestPacketAuth_Marshal rnd m = Inr b \<and>
      length b = 112 + nat (ra_PaddingSize m) \<and>
      ReflectorTestPacketAuth_Unmarshal ReflectorTestPacketAuth_zero b = Inr m"
    by (cases m) (simp add: ReflectorTestPacketAuth_ok_def reflector_auth_header_def reading
        nth_append ReflectorTestPacketAuth_Unmarshal_def ReflectorTestPacketAuth_zero_def)
qed

section \<open>Codecs of the reflect-octets packets\<close>

definition padding_ok :: "nat \<Rightarrow> int \<Rightarrow> bytes option \<Rightarrow> bool" where
  "padding_ok h n d \<longleftrightarrow> n + int h \<le> 2048 \<and>
     (case d of None \<Rightarrow> n = 0 | Some d \<Rightarrow> d \<noteq> [] \<and> n = int (length d))"

definition padding_data :: "bytes option \<Rightarrow> bytes" where
  "padding_data d = (case d of None \<Rightarrow> [] | Some d \<Rightarrow> d)"

lemma fill_padding_ok:
  "padding_ok (length H) n d \<Longrightarrow>
    fill_padding rnd (length H) n d (H @ zeros (nat n)) = Inr (H @ padding_data d)"
  using fill_tail [of "padding_data d" "nat n" H]
  by (auto simp: padding_ok_def fill_padding_def padding_data_def split: option.splits)

lemma padding_ok_range: "padding_ok h n d \<Longrightarrow> 0 \<le> n \<and> n \<le> 2048 - int h \<and> nat n = length (padding_data d)"
  by (auto simp: padding_ok_def padding_data_def split: option.splits)

definition SenderTestPacketReflectOctets_zero :: SenderTestPacketReflectOctets where
  "SenderTestPacketReflectOctets_zero = \<lparr>so_SeqNumber = 0, so_Timestamp = Timestamp_zero,
     so_ErrorEstimate = ErrorEstimate_zero, so_PaddingSize = 0, so_PaddingData = None\<rparr>"

definition SenderTestPacketReflectOctets_ok :: "SenderTestPacketReflectOctets \<Rightarrow> bool" where
  "SenderTestPacketReflectOctets_ok p \<longleftrightarrow>
     Scale (so_ErrorEstimate p) < 64 \<and> padding_ok 14 (so_PaddingSize p) (so_PaddingData p)"

lemma SenderTestPacketReflectOctets_Marshal_eq:
  assumes "padding_ok 14 (so_PaddingSize p) (so_PaddingData p)"
  shows "SenderTestPacketReflectOctets_Marshal rnd p = Inr (be32 (so_SeqNumber p) @
    TWAMPTimestamp_bytes (so_Timestamp p) @ ee_bytes (so_ErrorEstimate p) @
    padding_data (so_PaddingData p))"
proof -
  let ?H = "be32 (so_SeqNumber p) @ TWAMPTimestamp_bytes (so_Timestamp p) @ ee_bytes (so_ErrorEstimate p)"
  have r: "0 \<le> so_PaddingSize p" "so_PaddingSize p \<le> 2034"
    using padding_ok_range [OF assms] by simp_all
  have "copy_at (copy_at (copy_at (zeros (14 + n)) 0 4 (be32 (so_SeqNumber p)))
      4 12 (TWAMPTimestamp_bytes (so_Timestamp p))) 12 14 (ee_bytes (so_ErrorEstimate p)) =
      ?H @ zeros n" for n
    by (simp add: wire del: append_assoc)
  then show ?thesis
    using r assms fill_padding_ok [of ?H "so_PaddingSize p" "so_PaddingData p" rnd]
    by (simp add: SenderTestPacketReflectOctets_Marshal_def pool_slice_ok Let_def nat_add_distrib)
qed

interpretation sender_octets_codec: codec "SenderTestPacketReflectOctets_Marshal rnd"
  "SenderTestPacketReflectOctets_Unmarshal SenderTestPacketReflectOctets_zero"
  "\<lambda>p. 14 + nat (so_PaddingSize p)" SenderTestPacketReflectOctets_ok for rnd
proof unfold_locales
  fix m assume ok: "SenderTestPacketReflectOctets_ok m"
  then show "\<exists>b. SenderTestPacketReflectOctets_Marshal rnd m = Inr b \<and>
      length b = 14 + nat (so_PaddingSize m) \<and>
      SenderTestPacketReflectOctets_Unmarshal SenderTestPacketReflectOctets_zero b = Inr m"
    by (cases m) (auto simp: SenderTestPacketReflectOctets_ok_def reading
        SenderTestPacketReflectOctets_Marshal_eq SenderTestPacketReflectOctets_zero_def
        SenderTestPacketReflectOctets_Unmarshal_def padding_data_def padding_ok_def
        split: option.splits)
qed

definition SenderTestPacketAuthReflectOctets_zero :: SenderTestPacketAuthReflectOctets where
  "SenderTestPacketAuthReflectOctets_zero = \<lparr>sao_SeqNumber = 0, sao_MBZ = zeros 12,
     sao_Timestamp = Timestamp_zero, sao_ErrorEstimate = ErrorEstimate_zero, sao_MBZ2 = zeros 6,
     sao_HMAC = zeros 16, sao_PaddingSize = 0, sao_PaddingData = None\<rparr>"

definition SenderTestPacketAuthReflectOctets_ok :: "SenderTestPacketAuthReflectOctets \<Rightarrow> bool" where
  "SenderTestPacketAuthReflectOctets_ok p \<longleftrightarrow> sao_MBZ p = zeros 12 \<and> sao_MBZ2 p = zeros 6 \<and>
     length (sao_HMAC p) = 16 \<and> Scale (sao_ErrorEstimate p) < 64 \<and>
     padding_ok 48 (sao_PaddingSize p) (sao_PaddingData p)"

lemma SenderTestPacketAuthReflectOctets_Marshal_eq:
  assumes "padding_ok 48 (sao_PaddingSize p) (sao_PaddingData p)" and "length (sao_HMAC p) = 16"
  shows "SenderTestPacketAuthReflectOctets_Marshal rnd p = Inr (sender_auth_header (sao_SeqNumber p)
    (sao_Timestamp p) (sao_ErrorEstimate p) (sao_HMAC p) @ padding_data (sao_PaddingData p))"
proof -
  let ?H = "sender_auth_header (sao_SeqNumber p) (sao_Timestamp p) (sao_ErrorEstimate p) (sao_HMAC p)"
  have "0 \<le> sao_PaddingSize p" "sao_PaddingSize p \<le> 2000"
    using padding_ok_range [OF assms(1)] by simp_all
  then show ?thesis
    using assms fill_padding_ok [of ?H "sao_PaddingSize p" "sao_PaddingData p" rnd]
    by (simp add: SenderTestPacketAuthReflectOctets_Marshal_def pool_slice_ok Let_def
        nat_add_distrib sender_auth_stores)
qed

interpretation sender_auth_octets_codec: codec "SenderTestPacketAuthReflectOctets_Marshal rnd"
  "SenderTestPacketAuthReflectOctets_Unmarshal SenderTestPacketAuthReflectOctets_zero"
  "\<lambda>p. 48 + nat (sao_PaddingSize p)" SenderTestPacketAuthReflectOctets_ok for rnd
proof unfold_locales
  fix m assume ok: "SenderTestPacketAuthReflectOctets_ok m"
  then show "\<exists>b. SenderTestPacketAuthReflectOctets_Marshal rnd m = Inr b \<and>
      length b = 48 + nat (sao_PaddingSize m) \<and>
      SenderTestPacketAuthReflectOctets_Unmarshal SenderTestPacketAuthReflectOctets_zero b = Inr m"
    by (cases m) (auto simp: SenderTestPacketAuthReflectOctets_ok_def reading sender_auth_header_def
        SenderTestPacketAuthReflectOctets_Marshal_eq SenderTestPacketAuthReflectOctets_zero_def
        SenderTestPacketAuthReflectOctets_Unmarshal_def padding_data_def padding_ok_def
        split: option.splits)
qed

definition ReflectorTestPacketReflectOctets_zero :: ReflectorTestPacketReflectOctets where
  "ReflectorTestPacketReflectOctets_zero = \<lparr>ro_SeqNumber = 0, ro_Timestamp = Timestamp_zero,
     ro_ErrorEstimate = ErrorEstimate_zero, ro_MBZ1 = 0, ro_ReceiveTimestamp = Timestamp_zero,
     ro_SenderSeqNumber = 0, ro_SenderTimestamp = Timestamp_zero,
     ro_SenderErrorEstimate = ErrorEstimate_zero, ro_MBZ2 = 0, ro_SenderTTL = 0,
     ro_ReflectedPadding = []\<rparr>"

definition ReflectorTestPacketReflectOctets_ok :: "ReflectorTestPacketReflectOctets \<Rightarrow> bool" where
  "ReflectorTestPacketReflectOctets_ok p \<longleftrightarrow> ro_MBZ1 p = 0 \<and> ro_MBZ2 p = 0 \<and>
     Scale (ro_ErrorEstimate p) < 64 \<and> Scale (ro_SenderErrorEstimate p) < 64 \<and>
     length (ro_ReflectedPadding p) \<le> 2007"

lemma ReflectorTestPacketReflectOctets_Marshal_eq:
  assumes "length (ro_ReflectedPadding p) \<le> 2007"
  shows "ReflectorTestPacketReflectOctets_Marshal p = Inr (be32 (ro_SeqNumber p) @
    TWAMPTimestamp_bytes (ro_Timestamp p) @ ee_bytes (ro_ErrorEstimate p) @ zeros 2 @
    TWAMPTimestamp_bytes (ro_ReceiveTimestamp p) @ be32 (ro_SenderSeqNumber p) @
    TWAMPTimestamp_bytes (ro_SenderTimestamp p) @ ee_bytes (ro_SenderErrorEstimate p) @ zeros 2 @
    [ro_SenderTTL p] @ ro_ReflectedPadding p)"
proof -
  have n: "nat (41 + int n) = 41 + n" for n by simp
  show ?thesis
    using assms by (auto simp: ReflectorTestPacketReflectOctets_Marshal_def pool_slice_ok Let_def n wire
        simp del: append_assoc)
qed

lemma rd16_zeros: "rd16 (zeros 2) = 0"
  by (simp add: rd16_def zeros_def eval_nat_numeral)

interpretation reflector_octets_codec: codec ReflectorTestPacketReflectOctets_Marshal
  "ReflectorTestPacketReflectOctets_Unmarshal ReflectorTestPacketReflectOctets_zero"
  "\<lambda>p. 41 + length (ro_ReflectedPadding p)" ReflectorTestPacketReflectOctets_ok
proof unfold_locales
  fix m assume ok: "ReflectorTestPacketReflectOctets_ok m"
  then show "\<exists>b. ReflectorTestPacketReflectOctets_Marshal m = Inr b \<and>
      length b = 41 + length (ro_ReflectedPadding m) \<and>
      ReflectorTestPacketReflectOctets_Unmarshal ReflectorTestPacketReflectOctets_zero b = Inr m"
    by (cases m) (auto simp: ReflectorTestPacketReflectOctets_ok_def reading nth_append rd16_zeros
        ReflectorTestPacketReflectOctets_Marshal_eq ReflectorTestPacketReflectOctets_zero_def
        ReflectorTestPacketReflectOctets_Unmarshal_def Let_def)
qed

lemma ReflectorTestPacketAuthReflectOctets_Marshal_eq:
  assumes "length (rao_ReflectedPadding p) \<le> 1936" and "length (rao_HMAC p) = 16"
  shows "ReflectorTestPacketAuthReflectOctets_Marshal p = Inr (reflector_auth_header (rao_SeqNumber p)
    (rao_Timestamp p) (rao_ErrorEstimate p) (rao_ReceiveTimestamp p) (rao_SenderSeqNumber p)
    (rao_SenderTimestamp p) (rao_SenderErrorEstimate p) (rao_SenderTTL p) (rao_HMAC p) @
    rao_ReflectedPadding p)"
proof -
  have n: "nat (112 + int n) = 112 + n" for n by simp
  have "pool_slice (112 + int (length (rao_ReflectedPadding p))) =
      Inr (zeros (112 + length (rao_ReflectedPadding p)))"
    using assms by (simp add: pool_slice_ok n)
  then show ?thesis
    using assms fill_tail [of "rao_ReflectedPadding p" "length (rao_ReflectedPadding p)"
        "reflector_auth_header (rao_SeqNumber p) (rao_Timestamp p) (rao_ErrorEstimate p)
         (rao_ReceiveTimestamp p) (rao_SenderSeqNumber p) (rao_SenderTimestamp p)
         (rao_SenderErrorEstimate p) (rao_SenderTTL p) (rao_HMAC p)"]
      reflector_auth_stores [of "rao_HMAC p" 0]
    by (simp add: ReflectorTestPacketAuthReflectOctets_Marshal_def Let_def reflector_auth_stores)
qed

section \<open>Properties\<close>

text \<open>The unauthenticated packets. A sender or reflector packet with padding that fits the
  buffer, scales of six bits and zero MBZ fields is marshalled to its header size plus padding and
  read back unchanged, padding size included.\<close>

theorem plain_packets_roundtrip:
  assumes "SenderTestPacket_ok p" and "ReflectorTestPacket_ok q"
  shows "(\<exists>b. SenderTestPacket_Marshal p = Inr b \<and> length b = 14 + nat (tp_PaddingSize p) \<and>
      SenderTestPacket_Unmarshal SenderTestPacket_zero b = Inr p) \<and>
    (\<exists>b. ReflectorTestPacket_Marshal q = Inr b \<and> length b = 41 + nat (rp_PaddingSize q) \<and>
      ReflectorTestPacket_Unmarshal ReflectorTestPacket_zero b = Inr q)"
  using assms sender_codec.roundtrip reflector_codec.roundtrip by blast

theorem plain_packets_roundtrip_witness:
  "(\<exists>b. SenderTestPacket_Marshal (SenderTestPacket_zero\<lparr>tp_PaddingSize := 27\<rparr>) = Inr b \<and>
      length b = 41 \<and> SenderTestPacket_Unmarshal SenderTestPacket_zero b =
        Inr (SenderTestPacket_zero\<lparr>tp_PaddingSize := 27\<rparr>)) \<and>
    (\<exists>b. ReflectorTestPacket_Marshal ReflectorTestPacket_zero = Inr b \<and> length b = 41 \<and>
      ReflectorTestPacket_Unmarshal ReflectorTestPacket_zero b = Inr ReflectorTestPacket_zero)"
  using plain_packets_roundtrip [of "SenderTestPacket_zero\<lparr>tp_PaddingSize := 27\<rparr>" ReflectorTestPacket_zero]
  by (simp add: SenderTestPacket_ok_def ReflectorTestPacket_ok_def SenderTestPacket_zero_def
      ReflectorTestPacket_zero_def ErrorEstimate_zero_def)

text \<open>The authenticated packets, with random padding: whatever bytes the random source
  delivers, the packet has its size and every field is read back, the HMAC included.\<close>

theorem auth_packets_roundtrip:
  assumes "SenderTestPacketAuth_ok rnd p" and "ReflectorTestPacketAuth_ok rnd q"
  shows "(\<exists>b. SenderTestPacketAuth_Marshal rnd p = Inr b \<and> length b = 48 + nat (ta_PaddingSize p) \<and>
      SenderTestPacketAuth_Unmarshal SenderTestPacketAuth_zero b = Inr p) \<and>
    (\<exists>b. ReflectorTestPacketAuth_Marshal rnd q = Inr b \<and> length b = 112 + nat (ra_PaddingSize q) \<and>
      ReflectorTestPacketAuth_Unmarshal ReflectorTestPacketAuth_zero b = Inr q)"
  using assms sender_auth_codec.roundtrip reflector_auth_codec.roundtrip by blast

theorem auth_packets_roundtrip_witness:
  "(\<exists>b. SenderTestPacketAuth_Marshal (\<lambda>n. Inr (replicate n 7))
        (SenderTestPacketAuth_zero\<lparr>ta_PaddingSize := 64\<rparr>) = Inr b \<and> length b = 112 \<and>
      SenderTestPacketAuth_Unmarshal SenderTestPacketAuth_zero b =
        Inr (SenderTestPacketAuth_zero\<lparr>ta_PaddingSize := 64\<rparr>)) \<and>
    (\<exists>b. ReflectorTestPacketAuth_Marshal (\<lambda>n. Inr (replicate n 7)) ReflectorTestPacketAuth_zero = Inr b \<and>
      length b = 112 \<and>
      ReflectorTestPacketAuth_Unmarshal ReflectorTestPacketAuth_zero b = Inr ReflectorTestPacketAuth_zero)"
  using auth_packets_roundtrip [of "\<lambda>n. Inr (replicate n 7)"
      "SenderTestPacketAuth_zero\<lparr>ta_PaddingSize := 64\<rparr>" ReflectorTestPacketAuth_zero]
  by (simp add: SenderTestPacketAuth_ok_def ReflectorTestPacketAuth_ok_def SenderTestPacketAuth_zero_def
      ReflectorTestPacketAuth_zero_def ErrorEstimate_zero_def rand_ok_def)

text \<open>In reflect-octets mode the padding itself survives: sender packets with and without
  authentication and the unauthenticated reflector packet are read back with the very padding
  bytes they were made with.\<close>

theorem octets_packets_roundtrip:
  assumes "SenderTestPacketReflectOctets_ok p" and "SenderTestPacketAuthReflectOctets_ok q"
    and "ReflectorTestPacketReflectOctets_ok r"
  shows "(\<exists>b. SenderTestPacketReflectOctets_Marshal rnd p = Inr b \<and>
      SenderTestPacketReflectOctets_Unmarshal SenderTestPacketReflectOctets_zero b = Inr p) \<and>
    (\<exists>b. SenderTestPacketAuthReflectOctets_Marshal rnd q = Inr b \<and>
      SenderTestPacketAuthReflectOctets_Unmarshal SenderTestPacketAuthReflectOctets_zero b = Inr q) \<and>
    (\<exists>b. ReflectorTestPacketReflectOctets_Marshal r = Inr b \<and>
      length b = 41 + length (ro_ReflectedPadding r) \<and>
      ReflectorTestPacketReflectOctets_Unmarshal ReflectorTestPacketReflectOctets_zero b = Inr r)"
  using assms sender_octets_codec.roundtrip [of p rnd] sender_auth_octets_codec.roundtrip [of q rnd]
    reflector_octets_codec.roundtrip [of r] by blast

theorem octets_packets_roundtrip_witness:
  "\<exists>b. SenderTestPacketReflectOctets_Marshal (\<lambda>_. Inl (IOError ''no entropy''))
      (SenderTestPacketReflectOctets_zero\<lparr>so_PaddingSize := 3, so_PaddingData := Some [1, 2, 3]\<rparr>) = Inr b \<and>
    SenderTestPacketReflectOctets_Unmarshal SenderTestPacketReflectOctets_zero b =
      Inr (SenderTestPacketReflectOctets_zero\<lparr>so_PaddingSize := 3, so_PaddingData := Some [1, 2, 3]\<rparr>)"
  using octets_packets_roundtrip [of "SenderTestPacketReflectOctets_zero
        \<lparr>so_PaddingSize := 3, so_PaddingData := Some [1, 2, 3]\<rparr>"
      SenderTestPacketAuthReflectOctets_zero ReflectorTestPacketReflectOctets_zero
      "\<lambda>_. Inl (IOError ''no entropy'')"]
  by (simp add: SenderTestPacketReflectOctets_ok_def SenderTestPacketReflectOctets_zero_def
      SenderTestPacketAuthReflectOctets_ok_def SenderTestPacketAuthReflectOctets_zero_def
      ReflectorTestPacketReflectOctets_ok_def ReflectorTestPacketReflectOctets_zero_def
      padding_ok_def ErrorEstimate_zero_def)

text \<open>When marshalling panics. A packet larger than the 2048-byte pool buffer is a run-time
  panic, not an error; a reflect-octets reply reaches that size for padding the sender chose.\<close>

theorem marshal_panics:
  "(is_panic (SenderTestPacket_Marshal p) \<longleftrightarrow> tp_PaddingSize p < - 14 \<or> 2034 < tp_PaddingSize p) \<and>
   (is_panic (ReflectorTestPacket_Marshal q) \<longleftrightarrow> rp_PaddingSize q < 0 \<or> 2007 < rp_PaddingSize q) \<and>
   (is_panic (ReflectorTestPacketReflectOctets_Marshal r) \<longleftrightarrow> 2007 < length (ro_ReflectedPadding r)) \<and>
   (is_panic (ReflectorTestPacketAuthReflectOctets_Marshal s) \<longleftrightarrow> 1936 < length (rao_ReflectedPadding s))"
  by (auto simp: SenderTestPacket_Marshal_def ReflectorTestPacket_Marshal_def
      ReflectorTestPacketReflectOctets_Marshal_def ReflectorTestPacketAuthReflectOctets_Marshal_def
      pool_slice_def Let_def)

text \<open>The symmetrical-size reply to a packet of n bytes has n bytes, except that no reply is
  shorter than its 41-byte header, and n above 2048 panics.\<close>

theorem symmetrical_size:
  "(case ReflectorTestPacket_Marshal (CreateRFC6038SymmetricalReflectorPacket p n) of
      Inl e \<Rightarrow> 2048 < n
    | Inr b \<Rightarrow> n \<le> 2048 \<and> int (length b) = max 41 n)"
proof (cases "n \<le> 2048")
  case True
  then show ?thesis
    by (subst ReflectorTestPacket_Marshal_eq)
      (auto simp: CreateRFC6038SymmetricalReflectorPacket_def CalculateSymmetricalPadding_def)
next
  case False
  then show ?thesis
    by (simp add: ReflectorTestPacket_Marshal_def pool_slice_def Let_def
        CreateRFC6038SymmetricalReflectorPacket_def CalculateSymmetricalPadding_def)
qed

end
