(* ===== verification/Port_Manager.thy ===== *)
theory Port_Manager
  imports Prelude
begin

text \<open>
  The port manager of \<open>server/server.go\<close>: which UDP ports the test sessions hold. The map of used
  ports only ever holds \<open>true\<close>, so it is the set of its keys. Whether the operating system lets
  the process listen on a port at the moment of the call is the argument \<open>free\<close> (port 0 asks for
  any port). The search loop counts in a \<open>uint16\<close>; as it may not end it is a partial function
  whose value \<open>None\<close> is running forever. The mutex makes every operation atomic.
\<close>

section \<open>Operations\<close>

record portManager =
  minPort :: u16
  maxPort :: u16
  usedPorts :: "u16 set"

definition newPortManager :: "u16 \<Rightarrow> u16 \<Rightarrow> portManager res" where
  "newPortManager mn mx =
     (let mn = (if mn = 0 then 20000 else mn);
          mx = (if mx = 0 then 30000 else mx)
      in if mx < mn then Inl (Wrap ''minPort > maxPort'' [ErrInvalidPortRange])
         else Inr \<lparr>minPort = mn, maxPort = mx, usedPorts = {}\<rparr>)"

partial_function (option) find_port ::
    "(u16 \<Rightarrow> bool) \<Rightarrow> u16 set \<Rightarrow> u16 \<Rightarrow> u16 \<Rightarrow> u16 res option" where
  "find_port free used mx port =
     (if port \<le> mx then
        (if port \<notin> used \<and> free port then Some (Inr port)
         else find_port free used mx (port + 1))
      else Some (Inl ErrNoAvailablePorts))"

definition allocatePort :: "(u16 \<Rightarrow> bool) \<Rightarrow> portManager \<Rightarrow> (u16 res \<times> portManager) option" where
  "allocatePort free pm =
     (case find_port free (usedPorts pm) (maxPort pm) (minPort pm) of
        None \<Rightarrow> None
      | Some (Inl e) \<Rightarrow> Some (Inl e, pm)
      | Some (Inr port) \<Rightarrow> Some (Inr port, pm\<lparr>usedPorts := insert port (usedPorts pm)\<rparr>))"

definition usedPortCount :: "portManager \<Rightarrow> nat" where
  "usedPortCount pm = card (usedPorts pm)"

definition releasePort :: "portManager \<Rightarrow> u16 \<Rightarrow> portManager" where
  "releasePort pm port = pm\<lparr>usedPorts := usedPorts pm - {port}\<rparr>"

section \<open>The search\<close>

lemma find_port_step:
  "port \<le> mx \<Longrightarrow> \<not> (port \<notin> used \<and> free port) \<Longrightarrow>
    find_port free used mx port = find_port free used mx (port + 1)"
  by (subst find_port.simps) auto

lemma find_port_hit: "port \<le> mx \<Longrightarrow> port \<notin> used \<Longrightarrow> free port \<Longrightarrow> find_port free used mx port = Some (Inr port)"
  by (subst find_port.simps) simp

lemma find_port_end: "mx < port \<Longrightarrow> find_port free used mx port = Some (Inl ErrNoAvailablePorts)"
  by (subst find_port.simps) auto

lemma unat16_add: "unat p + i < 2 ^ 16 \<Longrightarrow> unat (p + of_nat i) = unat p + i" for p :: u16
  by (simp add: unat_word_ariths unat_of_nat)

lemma unat16: "unat p < 2 ^ 16" for p :: u16
  using unsigned_less [of p] by simp

text \<open>\<open>k\<close> misses in a row, without leaving the range.\<close>

lemma find_port_misses:
  assumes "unat port + k \<le> unat mx + 1" and "unat port + k < 2 ^ 16"
    and "\<And>i. i < k \<Longrightarrow> \<not> (port + of_nat i \<notin> used \<and> free (port + of_nat i))"
  shows "find_port free used mx port = find_port free used mx (port + of_nat k)"
  using assms
proof (induction k)
  case (Suc k)
  have u: "unat (port + of_nat k) = unat port + k"
    using Suc.prems(2) by (intro unat16_add) simp
  have "find_port free used mx port = find_port free used mx (port + of_nat k)"
    using Suc.prems by (intro Suc.IH) auto
  also have "\<dots> = find_port free used mx (port + of_nat k + 1)"
    using Suc.prems u by (intro find_port_step) (auto simp: word_le_nat_alt)
  finally show ?case by (simp add: algebra_simps)
qed simp

definition available :: "(u16 \<Rightarrow> bool) \<Rightarrow> u16 set \<Rightarrow> u16 \<Rightarrow> bool" where
  "available free used p \<longleftrightarrow> p \<notin> used \<and> free p"

text \<open>The first available port of a range, if the range does not end at the last port.\<close>

lemma find_port_spec:
  assumes "mn \<le> mx" and "mx < 65535"
  shows "find_port free used mx mn =
    (if \<exists>p. mn \<le> p \<and> p \<le> mx \<and> available free used p
     then Some (Inr (LEAST p. mn \<le> p \<and> p \<le> mx \<and> available free used p))
     else Some (Inl ErrNoAvailablePorts))"
proof (cases "\<exists>p. mn \<le> p \<and> p \<le> mx \<and> available free used p")
  case True
  define P where "P p \<longleftrightarrow> mn \<le> p \<and> p \<le> mx \<and> available free used p" for p
  define l where "l = (LEAST p. P p)"
  have l: "P l" using True unfolding l_def P_def by (rule LeastI_ex)
  have least: "\<not> P p" if "p < l" for p
    using that not_less_Least unfolding l_def by blast
  define k where "k = unat l - unat mn"
  have kl: "unat mn + k = unat l" using l by (simp add: k_def P_def word_le_nat_alt)
  have "find_port free used mx mn = find_port free used mx (mn + of_nat k)"
  proof (rule find_port_misses)
    show "unat mn + k \<le> unat mx + 1" using l by (simp add: kl P_def word_le_nat_alt)
    show "unat mn + k < 2 ^ 16" unfolding kl by (rule unat16)
    fix i assume i: "i < k"
    have u: "unat (mn + of_nat i) = unat mn + i"
      using i kl unat16 [of l] by (intro unat16_add) simp
    then have "mn + of_nat i < l" "mn \<le> mn + of_nat i"
      using i kl by (simp_all add: word_less_nat_alt word_le_nat_alt)
    moreover from this have "mn + of_nat i \<le> mx" using l by (auto simp: P_def)
    ultimately show "\<not> (mn + of_nat i \<notin> used \<and> free (mn + of_nat i))"
      using least [of "mn + of_nat i"] by (simp add: P_def available_def)
  qed
  also have "mn + of_nat k = l"
    using kl using kl unat16 [of l] by (simp add: word_unat_eq_iff unat16_add)
  also have "find_port free used mx l = Some (Inr l)"
    using l by (intro find_port_hit) (simp_all add: P_def available_def)
  finally show ?thesis using True by (simp add: l_def P_def)
next
  case False
  define k where "k = unat mx + 1 - unat mn"
  have k: "unat mn + k = unat mx + 1" using assms by (simp add: k_def word_le_nat_alt)
  have mx: "unat mx + 1 < 2 ^ 16" using assms(2) by (simp add: word_less_nat_alt)
  have "find_port free used mx mn = find_port free used mx (mn + of_nat k)"
  proof (rule find_port_misses)
    fix i assume i: "i < k"
    then have "unat (mn + of_nat i) = unat mn + i"
      using k mx by (intro unat16_add) simp
    then have "mn \<le> mn + of_nat i" "mn + of_nat i \<le> mx"
      using i k by (simp_all add: word_le_nat_alt)
    with False show "\<not> (mn + of_nat i \<notin> used \<and> free (mn + of_nat i))"
      by (auto simp: available_def)
  qed (use k mx in simp_all)
  also have "\<dots> = Some (Inl ErrNoAvailablePorts)"
  proof (rule find_port_end)
    have "unat (mn + of_nat k) = unat mx + 1"
      using k mx unat16_add [of mn k] by simp
    then show "mx < mn + of_nat k" by (simp add: word_less_nat_alt)
  qed
  finally show ?thesis using False by simp
qed

text \<open>A port the search returns is available; at the last port the counter wraps to 0 and the
  search goes on through all ports.\<close>

lemma u16_max: "p \<le> 65535" for p :: u16
  using unat16 [of p] by (simp add: word_le_nat_alt)

lemma find_port_available: "find_port free used mx port = Some (Inr p) \<Longrightarrow> available free used p"
  by (drule find_port.raw_induct [where P = "\<lambda>free used mx port r. \<forall>p. r = Inr p \<longrightarrow> available free used p",
        rotated]) (auto simp: available_def split: if_splits, blast+)

lemma find_port_ends:
  "find_port free used mx port = Some r \<Longrightarrow> mx = 65535 \<Longrightarrow> \<exists>p. available free used p"
  by (drule find_port.raw_induct [where P = "\<lambda>free used mx port r. mx = 65535 \<longrightarrow> (\<exists>p. available free used p)",
        rotated]) (auto simp: available_def u16_max split: if_splits)

lemma find_port_wraps:
  assumes "\<And>i. i < k \<Longrightarrow> \<not> available free used (port + of_nat i)"
  shows "find_port free used 65535 port = find_port free used 65535 (port + of_nat k)"
  using assms
proof (induction k)
  case (Suc k)
  have "find_port free used 65535 port = find_port free used 65535 (port + of_nat k)"
    using Suc.prems by (intro Suc.IH) auto
  also have "\<dots> = find_port free used 65535 (port + of_nat k + 1)"
    using Suc.prems [of k] by (intro find_port_step) (auto simp: u16_max available_def)
  finally show ?case by (simp add: algebra_simps)
qed simp

lemma find_port_65535:
  "find_port free used 65535 port = None \<longleftrightarrow> (\<forall>p. \<not> available free used p)"
proof
  assume "\<forall>p. \<not> available free used p"
  then show "find_port free used 65535 port = None"
    using find_port_ends by (cases "find_port free used 65535 port") blast+
next
  assume none: "find_port free used 65535 port = None"
  show "\<forall>p. \<not> available free used p"
  proof (rule ccontr)
    assume "\<not> (\<forall>p. \<not> available free used p)"
    then obtain p where p: "available free used p" by blast
    define k where "k = (LEAST k. available free used (port + of_nat k))"
    have "available free used (port + of_nat (unat (p - port)))" using p by simp
    then have k: "available free used (port + of_nat k)" unfolding k_def by (rule LeastI)
    have "find_port free used 65535 port = find_port free used 65535 (port + of_nat k)"
      by (rule find_port_wraps) (auto simp: k_def dest: not_less_Least)
    also have "\<dots> = Some (Inr (port + of_nat k))"
      using k by (intro find_port_hit) (auto simp: u16_max available_def)
    finally show False using none by simp
  qed
qed

section \<open>The interface of a pool\<close>

text \<open>
  What the sessions rely on: an allocated port was not in use, is in use from then on and stays so
  until it is released, and a failed allocation changes nothing. The environment \<open>e\<close> of an
  allocation is arbitrary.
\<close>

locale pool =
  fixes used :: "'s \<Rightarrow> 'p set" and alloc :: "'e \<Rightarrow> 's \<Rightarrow> ('p res \<times> 's) option"
    and release :: "'s \<Rightarrow> 'p \<Rightarrow> 's"
  assumes alloc_new: "alloc e s = Some (Inr p, s') \<Longrightarrow> p \<notin> used s \<and> used s' = insert p (used s)"
    and alloc_error: "alloc e s = Some (Inl x, s') \<Longrightarrow> s' = s"
    and used_release: "used (release s p) = used s - {p}"
begin

lemma alloc_keeps: "alloc e s = Some (r, s') \<Longrightarrow> used s \<subseteq> used s'"
  by (cases r) (auto dest: alloc_new alloc_error)

lemma alloc_release: "alloc e s = Some (Inr p, s') \<Longrightarrow> used (release s' p) = used s"
  using alloc_new [of e s p s'] by (auto simp: used_release)

lemma release_other: "q \<noteq> p \<Longrightarrow> q \<in> used (release s p) \<longleftrightarrow> q \<in> used s"
  by (simp add: used_release)

text \<open>
  Owners and their ports, one port each: allocation by a new owner and release by an owner keep the
  owners' ports apart and in use.
\<close>

definition owned :: "('o \<rightharpoonup> 'p) \<Rightarrow> 's \<Rightarrow> bool" where
  "owned own s \<longleftrightarrow> inj_on own (dom own) \<and> ran own \<subseteq> used s"

lemma owned_alloc:
  assumes "owned own s" and "alloc e s = Some (Inr p, s')" and "o' \<notin> dom own"
  shows "owned (own(o' \<mapsto> p)) s'"
proof -
  have "p \<notin> used s" and u: "used s' = insert p (used s)" using alloc_new [OF assms(2)] by auto
  then have "p \<notin> ran own" using assms(1) by (auto simp: owned_def)
  then have "own x \<noteq> Some p" for x by (auto simp: ran_def)
  then show ?thesis
    using assms(1,3) u by (auto simp: owned_def inj_on_def ran_def split: if_splits)
qed

lemma owned_release:
  assumes "owned own s" and "own o' = Some p"
  shows "owned (own(o' := None)) (release s p)"
proof -
  have "q \<noteq> p" if "own x = Some q" "x \<noteq> o'" for x q
    using assms that by (auto simp: owned_def inj_on_def) (metis domI)
  then show ?thesis
    using assms by (auto simp: owned_def inj_on_def ran_def used_release split: if_splits)
qed

end

interpretation ports: pool usedPorts allocatePort releasePort
  by unfold_locales
    (auto simp: allocatePort_def releasePort_def available_def dest!: find_port_available
      split: option.splits sum.splits)

section \<open>Properties\<close>

text \<open>C36: for a range that ends below 65535, \<open>allocatePort\<close> always ends. It returns the first port
  of the range that is neither handed out nor taken by another process and marks exactly that one,
  or reports that there is none and changes nothing.\<close>

theorem allocatePort_first_fit:
  assumes "minPort pm \<le> maxPort pm" and "maxPort pm < 65535"
  shows "case allocatePort free pm of
      None \<Rightarrow> False
    | Some (Inl e, pm') \<Rightarrow> e = ErrNoAvailablePorts \<and> pm' = pm \<and>
        (\<forall>p. \<not> (minPort pm \<le> p \<and> p \<le> maxPort pm \<and> available free (usedPorts pm) p))
    | Some (Inr p, pm') \<Rightarrow> minPort pm \<le> p \<and> p \<le> maxPort pm \<and> available free (usedPorts pm) p \<and>
        (\<forall>q. \<not> (minPort pm \<le> q \<and> q < p \<and> available free (usedPorts pm) q)) \<and>
        pm' = pm\<lparr>usedPorts := insert p (usedPorts pm)\<rparr>"
proof (cases "\<exists>p. minPort pm \<le> p \<and> p \<le> maxPort pm \<and> available free (usedPorts pm) p")
  case True
  define P where "P p \<longleftrightarrow> minPort pm \<le> p \<and> p \<le> maxPort pm \<and> available free (usedPorts pm) p" for p
  have "P (LEAST p. P p)" using True unfolding P_def by (rule LeastI_ex)
  moreover have "\<not> P q" if "q < (LEAST p. P p)" for q using that by (rule not_less_Least)
  moreover have "find_port free (usedPorts pm) (maxPort pm) (minPort pm) = Some (Inr (LEAST p. P p))"
    using True by (simp add: find_port_spec [OF assms] P_def)
  ultimately show ?thesis
    by (auto simp: allocatePort_def P_def)
next
  case False
  then show ?thesis by (auto simp: allocatePort_def find_port_spec [OF assms])
qed

theorem allocatePort_first_fit_witness:
  "allocatePort (\<lambda>_. True) \<lparr>minPort = 5, maxPort = 6, usedPorts = {5}\<rparr> =
    Some (Inr 6, \<lparr>minPort = 5, maxPort = 6, usedPorts = {6, 5}\<rparr>)"
proof -
  have two: "p = 5 \<or> p = 6" if "5 \<le> p" "p \<le> 6" for p :: u16
    using that by (auto simp: word_le_nat_alt word_unat_eq_iff)
  then show ?thesis
    using allocatePort_first_fit [of "\<lparr>minPort = 5, maxPort = 6, usedPorts = {5}\<rparr>" "\<lambda>_. True"]
    by (auto simp: available_def split: option.splits prod.splits sum.splits dest!: two)
qed

text \<open>C40: for a range that ends at port 65535 the counter wraps. With the range exhausted the search
  returns port 0 instead of the error, and it ends for some but not for all environments: if no
  port at all is available, the loop runs forever, holding the mutex.\<close>

theorem allocatePort_wraps:
  assumes "maxPort pm = 65535"
  shows "(allocatePort free pm = None \<longleftrightarrow> (\<forall>p. \<not> available free (usedPorts pm) p)) \<and>
    (available free (usedPorts pm) 0 \<and> (\<forall>p. minPort pm \<le> p \<longrightarrow> \<not> available free (usedPorts pm) p) \<longrightarrow>
      allocatePort free pm = Some (Inr 0, pm\<lparr>usedPorts := insert 0 (usedPorts pm)\<rparr>))"
proof (intro conjI impI)
  show "allocatePort free pm = None \<longleftrightarrow> (\<forall>p. \<not> available free (usedPorts pm) p)"
    unfolding find_port_65535 [of free "usedPorts pm" "minPort pm", symmetric]
    by (auto simp: allocatePort_def assms split: option.splits sum.splits)
next
  assume a: "available free (usedPorts pm) 0 \<and>
    (\<forall>p. minPort pm \<le> p \<longrightarrow> \<not> available free (usedPorts pm) p)"
  define k where "k = 2 ^ 16 - unat (minPort pm)"
  have k: "unat (minPort pm) + k = 2 ^ 16" using unat16 [of "minPort pm"] by (simp add: k_def)
  have "find_port free (usedPorts pm) 65535 (minPort pm) =
      find_port free (usedPorts pm) 65535 (minPort pm + of_nat k)"
  proof (rule find_port_wraps)
    fix i assume "i < k"
    then have "minPort pm \<le> minPort pm + of_nat i"
      using k by (simp add: word_le_nat_alt unat16_add)
    with a show "\<not> available free (usedPorts pm) (minPort pm + of_nat i)" by blast
  qed
  also have "minPort pm + of_nat k = 0"
    using k by (simp add: word_unat_eq_iff unat_word_ariths unat_of_nat mod_add_right_eq)
  also have "find_port free (usedPorts pm) 65535 0 = Some (Inr 0)"
    using a by (intro find_port_hit) (simp_all add: available_def)
  finally show "allocatePort free pm = Some (Inr 0, pm\<lparr>usedPorts := insert 0 (usedPorts pm)\<rparr>)"
    by (simp add: allocatePort_def assms)
qed

theorem allocatePort_wraps_witness:
  "allocatePort (\<lambda>_. True) \<lparr>minPort = 65535, maxPort = 65535, usedPorts = {65535}\<rparr> =
      Some (Inr 0, \<lparr>minPort = 65535, maxPort = 65535, usedPorts = {0, 65535}\<rparr>) \<and>
   allocatePort (\<lambda>_. False) \<lparr>minPort = 1, maxPort = 65535, usedPorts = {}\<rparr> = None"
proof -
  have "p = 65535" if "65535 \<le> p" for p :: u16
    using that u16_max [of p] by simp
  then show ?thesis
    using allocatePort_wraps [of "\<lparr>minPort = 65535, maxPort = 65535, usedPorts = {65535}\<rparr>" "\<lambda>_. True"]
      allocatePort_wraps [of "\<lparr>minPort = 1, maxPort = 65535, usedPorts = {}\<rparr>" "\<lambda>_. False"]
    by (auto simp: available_def)
qed

end
