(* ===== verification/Reflector.thy ===== *)
theory Reflector
  imports Crypto Test_Messages
begin

text \<open>
  The session reflector of \<open>server/server.go\<close>: the test session, how one test packet is decrypted,
  verified, parsed and answered (\<open>processAndReflect\<close>), and what one iteration of
  \<open>reflectPackets\<close> makes of the result, with the policy on HMAC failures. Clock readings, the TTL
  the socket reported, the random source and the result of the write are arguments. Times and
  durations are in nanoseconds. Logging and metrics have no influence on what is modelled and are
  left out.
\<close>

section \<open>Test sessions\<close>

text \<open>
  \<open>conn\<close> and \<open>stopChan\<close> are pointers that may be nil; an open one may have been closed.
  \<open>reflectorDone\<close> is the channel that the reflector closes when it returns.
\<close>

datatype handle = Nil_handle | Open_handle | Closed_handle

type_synonym net_addr = string

record TestSession =
  se_sid :: session_id
  se_reflectorPort :: u16
  se_conn :: handle
  se_senderAddr :: "net_addr option"
  se_senderPort :: u16
  se_mode :: mode
  se_sessionKeys :: "TWAMPKeys option"
  se_timeout :: int
  se_dscp :: u8
  se_reflectedPackets :: u32
  se_startTime :: int
  se_isActive :: bool
  se_stopChan :: handle
  se_reflectorDone :: handle
  se_hmacFailures :: u32
  se_lastHMACFailureTime :: "int option"
  se_maxHMACFailures :: u32

abbreviation HMACFailureResetWindow :: int where "HMACFailureResetWindow \<equiv> 30 * time_Second"

definition effectiveMaxHMACFailures :: "u32 \<Rightarrow> u32" where
  "effectiveMaxHMACFailures configured = (if configured = 0 then 100 else configured)"

section \<open>Receiving a test packet\<close>

definition secure_test_mode :: "mode \<Rightarrow> bool" where
  "secure_test_mode m \<longleftrightarrow> m AND (ModeAuthenticated OR ModeEncrypted) \<noteq> 0"

text \<open>Decryption and the check of the HMAC, before any field of the packet is used.\<close>

definition open_packet :: "mode \<Rightarrow> TWAMPKeys \<Rightarrow> bytes \<Rightarrow> bytes res" where
  "open_packet m keys packet =
     (let isEncryptedMode = (m AND ModeEncrypted \<noteq> 0) in
      case DecryptTWAMPTestPacket (TestAESKey keys) (ClientIV keys) packet (\<not> isEncryptedMode) of
        Inl e \<Rightarrow> Inl (Wrap ''%w: %v'' [ErrDecryptFailed])
      | Inr packet \<Rightarrow>
         (let hmacCoverage = HMACCoverage isEncryptedMode False in
          case VerifyHMAC (TestHMACKey keys) (seg 0 hmacCoverage packet)
                 (seg SenderHMACOffset (SenderHMACOffset + 16) packet) of
            Inl e \<Rightarrow> Inl (Wrap ''failed to verify HMAC'' [e])
          | Inr valid \<Rightarrow> if \<not> valid then Inl ErrHMACVerificationFailed else Inr packet))"

text \<open>What the reflector keeps of a sender packet.\<close>

record sender_info =
  si_SeqNo :: u32
  si_Timestamp :: TWAMPTimestamp
  si_ErrorEstimate :: ErrorEstimate
  si_Padding :: bytes

definition parse_packet :: "TestSession \<Rightarrow> bytes \<Rightarrow> sender_info res" where
  "parse_packet session packet =
     (let reflectOctetsMode = (se_mode session AND ModeReflectOctets \<noteq> 0) in
      if secure_test_mode (se_mode session) then
        (case (case se_sessionKeys session of
                 None \<Rightarrow> Inr packet
               | Some keys \<Rightarrow> open_packet (se_mode session) keys packet) of
           Inl e \<Rightarrow> Inl e
         | Inr packet \<Rightarrow>
            if reflectOctetsMode then
              (case SenderTestPacketAuthReflectOctets_Unmarshal
                      SenderTestPacketAuthReflectOctets_zero packet of
                 Inl e \<Rightarrow> Inl (Wrap ''%w (test packet reflect octets): %v'' [ErrUnmarshalFailed])
               | Inr p \<Rightarrow> Inr \<lparr>si_SeqNo = sao_SeqNumber p, si_Timestamp = sao_Timestamp p,
                             si_ErrorEstimate = sao_ErrorEstimate p,
                             si_Padding = padding_data (sao_PaddingData p)\<rparr>)
            else
              (case SenderTestPacketAuth_Unmarshal SenderTestPacketAuth_zero packet of
                 Inl e \<Rightarrow> Inl (Wrap ''%w (authenticated test packet): %v'' [ErrUnmarshalFailed])
               | Inr p \<Rightarrow> Inr \<lparr>si_SeqNo = ta_SeqNumber p, si_Timestamp = ta_Timestamp p,
                             si_ErrorEstimate = ta_ErrorEstimate p, si_Padding = []\<rparr>))
      else if reflectOctetsMode then
        (case SenderTestPacketReflectOctets_Unmarshal SenderTestPacketReflectOctets_zero packet of
           Inl e \<Rightarrow> Inl (Wrap ''%w (test packet reflect octets): %v'' [ErrUnmarshalFailed])
         | Inr p \<Rightarrow> Inr \<lparr>si_SeqNo = so_SeqNumber p, si_Timestamp = so_Timestamp p,
                       si_ErrorEstimate = so_ErrorEstimate p,
                       si_Padding = padding_data (so_PaddingData p)\<rparr>)
      else
        (case SenderTestPacket_Unmarshal SenderTestPacket_zero packet of
           Inl e \<Rightarrow> Inl (Wrap ''%w (unauthenticated test packet): %v'' [ErrUnmarshalFailed])
         | Inr p \<Rightarrow> Inr \<lparr>si_SeqNo = tp_SeqNumber p, si_Timestamp = tp_Timestamp p,
                       si_ErrorEstimate = tp_ErrorEstimate p, si_Padding = []\<rparr>))"

section \<open>Building the reply\<close>

definition reflectorErrorEstimate :: ErrorEstimate where
  "reflectorErrorEstimate = \<lparr>Multiplier = 1, Scale = 0, SyncBit = True\<rparr>"

text \<open>Symmetrical size on top of reflected padding: zeros up to the size of the sender's packet.\<close>

definition expand_padding :: "bool \<Rightarrow> nat \<Rightarrow> nat \<Rightarrow> bytes \<Rightarrow> bytes" where
  "expand_padding symmetricalSizeMode baseSize senderPacketSize padding =
     (if symmetricalSizeMode \<and> baseSize + length padding < senderPacketSize
      then padding @ zeros (senderPacketSize - (baseSize + length padding))
      else padding)"

text \<open>HMAC and encryption of a marshalled reply.\<close>

definition seal_reply :: "mode \<Rightarrow> TWAMPKeys option \<Rightarrow> bytes \<Rightarrow> bytes res" where
  "seal_reply m sessionKeys rawPacket =
     (case sessionKeys of
        None \<Rightarrow> Inr rawPacket
      | Some keys \<Rightarrow>
         (let isEncryptedMode = (m AND ModeEncrypted \<noteq> 0);
              hmacCoverage = HMACCoverage isEncryptedMode True in
          case CalculateHMAC (TestHMACKey keys) (seg 0 hmacCoverage rawPacket) of
            Inl e \<Rightarrow> Inl (Wrap ''failed to calculate HMAC'' [e])
          | Inr hmac \<Rightarrow>
             (let rawPacket = copy_at rawPacket ReflectorHMACOffset (ReflectorHMACOffset + 16) hmac in
              case EncryptTWAMPReflectorTestPacket (TestAESKey keys) (ServerIV keys) rawPacket
                     (\<not> isEncryptedMode) of
                Inl e \<Rightarrow> Inl (Wrap ''failed to encrypt reflector packet'' [e])
              | Inr rawPacket \<Rightarrow> Inr rawPacket)))"

definition reply_auth ::
    "random_source \<Rightarrow> TestSession \<Rightarrow> sender_info \<Rightarrow> nat \<Rightarrow> u8 \<Rightarrow> TWAMPTimestamp \<Rightarrow> TWAMPTimestamp \<Rightarrow>
     bytes res" where
  "reply_auth rnd session si senderPacketSize senderTTL rxTime txTime =
     (let symmetricalSizeMode = (se_mode session AND ModeSymmetricalSize \<noteq> 0) in
      case (if se_mode session AND ModeReflectOctets \<noteq> 0 then
              (case ReflectorTestPacketAuthReflectOctets_Marshal
                 \<lparr>rao_SeqNumber = se_reflectedPackets session, rao_MBZ = zeros 12,
                  rao_Timestamp = txTime, rao_ErrorEstimate = reflectorErrorEstimate,
                  rao_MBZ2 = zeros 6, rao_ReceiveTimestamp = rxTime, rao_MBZ3 = zeros 8,
                  rao_SenderSeqNumber = si_SeqNo si, rao_MBZ4 = zeros 12,
                  rao_SenderTimestamp = si_Timestamp si,
                  rao_SenderErrorEstimate = si_ErrorEstimate si, rao_MBZ5 = zeros 6,
                  rao_SenderTTL = senderTTL, rao_MBZ6 = zeros 3, rao_HMAC = zeros 16,
                  rao_ReflectedPadding =
                    expand_padding symmetricalSizeMode 112 senderPacketSize (si_Padding si)\<rparr> of
                 Inl (Panic s) \<Rightarrow> Inl (Panic s)
               | Inl e \<Rightarrow> Inl (Wrap ''failed to marshal reflector packet with reflect octets'' [e])
               | Inr raw \<Rightarrow> Inr raw)
            else
              (case ReflectorTestPacketAuth_Marshal rnd
                 \<lparr>ra_SeqNumber = se_reflectedPackets session, ra_MBZ = zeros 12,
                  ra_Timestamp = txTime, ra_ErrorEstimate = reflectorErrorEstimate,
                  ra_MBZ2 = zeros 6, ra_ReceiveTimestamp = rxTime, ra_MBZ3 = zeros 8,
                  ra_SenderSeqNumber = si_SeqNo si, ra_MBZ4 = zeros 12,
                  ra_SenderTimestamp = si_Timestamp si,
                  ra_SenderErrorEstimate = si_ErrorEstimate si, ra_MBZ5 = zeros 6,
                  ra_SenderTTL = senderTTL, ra_MBZ6 = zeros 15, ra_HMAC = zeros 16,
                  ra_PaddingSize =
                    (if symmetricalSizeMode
                     then CalculateSymmetricalPaddingAuth (int senderPacketSize) else 0)\<rparr> of
                 Inl (Panic s) \<Rightarrow> Inl (Panic s)
               | Inl e \<Rightarrow> Inl (Wrap ''failed to marshal reflector packet'' [e])
               | Inr raw \<Rightarrow> Inr raw)) of
        Inl e \<Rightarrow> Inl e
      | Inr rawPacket \<Rightarrow> seal_reply (se_mode session) (se_sessionKeys session) rawPacket)"

definition reply_plain ::
    "TestSession \<Rightarrow> sender_info \<Rightarrow> nat \<Rightarrow> u8 \<Rightarrow> TWAMPTimestamp \<Rightarrow> TWAMPTimestamp \<Rightarrow> bytes res" where
  "reply_plain session si senderPacketSize senderTTL rxTime txTime =
     (let symmetricalSizeMode = (se_mode session AND ModeSymmetricalSize \<noteq> 0) in
      if se_mode session AND ModeReflectOctets \<noteq> 0 then
        (case ReflectorTestPacketReflectOctets_Marshal
           \<lparr>ro_SeqNumber = se_reflectedPackets session, ro_Timestamp = txTime,
            ro_ErrorEstimate = reflectorErrorEstimate, ro_MBZ1 = 0, ro_ReceiveTimestamp = rxTime,
            ro_SenderSeqNumber = si_SeqNo si, ro_SenderTimestamp = si_Timestamp si,
            ro_SenderErrorEstimate = si_ErrorEstimate si, ro_MBZ2 = 0, ro_SenderTTL = senderTTL,
            ro_ReflectedPadding =
              expand_padding symmetricalSizeMode 41 senderPacketSize (si_Padding si)\<rparr> of
           Inl (Panic s) \<Rightarrow> Inl (Panic s)
         | Inl e \<Rightarrow> Inl (Wrap ''failed to marshal reflector packet with reflect octets'' [e])
         | Inr raw \<Rightarrow> Inr raw)
      else
        (case ReflectorTestPacket_Marshal
           \<lparr>rp_SeqNumber = se_reflectedPackets session, rp_Timestamp = txTime,
            rp_ErrorEstimate = reflectorErrorEstimate, rp_MBZ = zeros 2,
            rp_ReceiveTimestamp = rxTime, rp_SenderSeqNumber = si_SeqNo si,
            rp_SenderTimestamp = si_Timestamp si, rp_SenderErrorEstimate = si_ErrorEstimate si,
            rp_MBZ2 = zeros 2, rp_SenderTTL = senderTTL,
            rp_PaddingSize =
              (if symmetricalSizeMode then CalculateSymmetricalPadding (int senderPacketSize)
               else max 0 (int senderPacketSize - 41))\<rparr> of
           Inl (Panic s) \<Rightarrow> Inl (Panic s)
         | Inl e \<Rightarrow> Inl (Wrap ''failed to marshal reflector packet'' [e])
         | Inr raw \<Rightarrow> Inr raw))"

text \<open>The reply to a packet, up to the write to the socket.\<close>

definition make_reply ::
    "random_source \<Rightarrow> TestSession \<Rightarrow> bytes \<Rightarrow> u8 \<Rightarrow> TWAMPTimestamp \<Rightarrow> TWAMPTimestamp \<Rightarrow> bytes res" where
  "make_reply rnd session packet senderTTL rxTime txTime =
     (case parse_packet session packet of
        Inl e \<Rightarrow> Inl e
      | Inr si \<Rightarrow>
         if secure_test_mode (se_mode session)
         then reply_auth rnd session si (length packet) senderTTL rxTime txTime
         else reply_plain session si (length packet) senderTTL rxTime txTime)"

definition processAndReflect ::
    "random_source \<Rightarrow> (bytes \<Rightarrow> net_addr \<Rightarrow> unit res) \<Rightarrow> TestSession \<Rightarrow> bytes \<Rightarrow> net_addr \<Rightarrow> u8 \<Rightarrow>
     TWAMPTimestamp \<Rightarrow> TWAMPTimestamp \<Rightarrow> bytes res" where
  "processAndReflect rnd send session packet addr senderTTL rxTime txTime =
     (case make_reply rnd session packet senderTTL rxTime txTime of
        Inl e \<Rightarrow> Inl e
      | Inr reflectPacket \<Rightarrow>
         (case send reflectPacket addr of
            Inl e \<Rightarrow> Inl (Wrap ''failed to send reflector packet'' [e])
          | Inr _ \<Rightarrow> Inr reflectPacket))"

section \<open>One iteration of the reflector\<close>

text \<open>\<open>now\<close> is the time of the failure; the counter restarts when the last failure is more than the
  window ago.\<close>

definition record_hmac_failure :: "int \<Rightarrow> TestSession \<Rightarrow> TestSession" where
  "record_hmac_failure now session =
     (let session =
            (case se_lastHMACFailureTime session of
               Some t \<Rightarrow> if HMACFailureResetWindow < now - t then session\<lparr>se_hmacFailures := 0\<rparr> else session
             | None \<Rightarrow> session)
      in session\<lparr>se_hmacFailures := se_hmacFailures session + 1, se_lastHMACFailureTime := Some now\<rparr>)"

definition record_success :: "int \<Rightarrow> TestSession \<Rightarrow> TestSession" where
  "record_success now session =
     session\<lparr>se_hmacFailures := 0, se_startTime := now,
             se_reflectedPackets := se_reflectedPackets session + 1\<rparr>"

text \<open>
  What happens next: the loop goes on, with the reply if one was sent; the session is stopped
  (\<open>stopSession\<close>) and the loop left; or the goroutine panics, and with it the process.
\<close>

datatype outcome = Reflected bytes | Dropped goerr | Terminated | Crashed string

definition note_sender :: "net_addr \<Rightarrow> TestSession \<Rightarrow> TestSession" where
  "note_sender addr session =
     (if se_senderAddr session = None then session\<lparr>se_senderAddr := Some addr\<rparr> else session)"

definition reflect_iteration ::
    "random_source \<Rightarrow> (bytes \<Rightarrow> net_addr \<Rightarrow> unit res) \<Rightarrow> bytes \<Rightarrow> net_addr \<Rightarrow> u8 option \<Rightarrow>
     TWAMPTimestamp \<Rightarrow> TWAMPTimestamp \<Rightarrow> int \<Rightarrow> TestSession \<Rightarrow> outcome \<times> TestSession" where
  "reflect_iteration rnd send datagram addr ttl rxTime txTime now session =
     (let packet = take MaxTWAMPPacketSize datagram;
          session = note_sender addr session;
          senderTTL = (case ttl of Some t \<Rightarrow> t | None \<Rightarrow> 255)
      in case processAndReflect rnd send session packet addr senderTTL rxTime txTime of
           Inl (Panic s) \<Rightarrow> (Crashed s, session)
         | Inl e \<Rightarrow>
             if errors_Is e ErrHMACVerificationFailed then
               (let session = record_hmac_failure now session in
                if 0 < se_maxHMACFailures session \<and>
                   se_maxHMACFailures session \<le> se_hmacFailures session
                then (Terminated, session) else (Dropped e, session))
             else (Dropped e, session)
         | Inr reply \<Rightarrow> (Reflected reply, record_success now session))"

section \<open>Runs of the reflector\<close>

record arrival =
  ar_datagram :: bytes
  ar_addr :: net_addr
  ar_ttl :: "u8 option"
  ar_rx :: TWAMPTimestamp
  ar_tx :: TWAMPTimestamp
  ar_now :: int

text \<open>The outcomes of one packet after another, until the loop is left.\<close>

fun reflect_run ::
    "random_source \<Rightarrow> (bytes \<Rightarrow> net_addr \<Rightarrow> unit res) \<Rightarrow> arrival list \<Rightarrow> TestSession \<Rightarrow>
     outcome list \<times> TestSession" where
  "reflect_run rnd send [] session = ([], session)"
| "reflect_run rnd send (a # as) session =
     (let (out, session') = reflect_iteration rnd send (ar_datagram a) (ar_addr a) (ar_ttl a)
            (ar_rx a) (ar_tx a) (ar_now a) session
      in case out of
           Terminated \<Rightarrow> ([out], session')
         | Crashed s \<Rightarrow> ([out], session')
         | _ \<Rightarrow> (let (outs, session'') = reflect_run rnd send as session' in (out # outs, session'')))"

section \<open>Lemmas\<close>

lemma and_63_less: "x AND 63 < 64" for x :: u8
  using word_and_le1 [of x 63] by (simp add: word_less_nat_alt word_le_nat_alt)

lemma Scale_ee_read [simp]: "Scale (ee_read b) < 64"
  by (simp add: ee_read_def ErrorEstimate_FromUint16_def and_63_less)

lemma secure_bits: "secure_test_mode m \<longleftrightarrow> bit m 1 \<or> bit m 2"
proof -
  have "m AND (2 OR 4) = (m AND 2) OR (m AND 4)" by (rule bit.conj_disj_distrib)
  then have "secure_test_mode m \<longleftrightarrow> m AND 2 \<noteq> 0 \<or> m AND 4 \<noteq> 0"
    unfolding secure_test_mode_def by (simp only: or_eq_0_iff) simp
  then show ?thesis by simp
qed

text \<open>The fields of a session that a datagram's sender address does not change.\<close>

lemma note_sender_simps [simp]:
  "se_mode (note_sender addr s) = se_mode s" "se_sessionKeys (note_sender addr s) = se_sessionKeys s"
  "se_reflectedPackets (note_sender addr s) = se_reflectedPackets s"
  "se_startTime (note_sender addr s) = se_startTime s"
  "se_hmacFailures (note_sender addr s) = se_hmacFailures s"
  "se_lastHMACFailureTime (note_sender addr s) = se_lastHMACFailureTime s"
  "se_maxHMACFailures (note_sender addr s) = se_maxHMACFailures s"
  by (simp_all add: note_sender_def)

text \<open>The reply depends on the session through its mode, keys and packet count only.\<close>

lemma parse_packet_cong:
  assumes "se_mode s = se_mode t" and "se_sessionKeys s = se_sessionKeys t"
  shows "parse_packet s packet = parse_packet t packet"
  unfolding parse_packet_def assms ..

lemma make_reply_cong:
  assumes "se_mode s = se_mode t" and "se_sessionKeys s = se_sessionKeys t"
    and "se_reflectedPackets s = se_reflectedPackets t"
  shows "make_reply rnd s packet ttl rx tx = make_reply rnd t packet ttl rx tx"
  unfolding make_reply_def parse_packet_cong [OF assms(1,2)] reply_auth_def reply_plain_def assms ..

lemma iteration_reply:
  assumes "make_reply rnd s (take MaxTWAMPPacketSize d) (case ttl of Some t \<Rightarrow> t | None \<Rightarrow> 255) rx tx = Inr b"
  shows "reflect_iteration rnd (\<lambda>b a. Inr ()) d addr ttl rx tx now s =
    (Reflected b, record_success now (note_sender addr s))"
  using assms make_reply_cong [of "note_sender addr s" s rnd]
  by (simp add: reflect_iteration_def processAndReflect_def Let_def)

lemma iteration_panic:
  assumes "make_reply rnd s (take MaxTWAMPPacketSize d) (case ttl of Some t \<Rightarrow> t | None \<Rightarrow> 255) rx tx =
    Inl (Panic m)"
  shows "reflect_iteration rnd send d addr ttl rx tx now s = (Crashed m, note_sender addr s)"
  using assms make_reply_cong [of "note_sender addr s" s rnd]
  by (simp add: reflect_iteration_def processAndReflect_def Let_def)

text \<open>Sessions and keys for concrete instances.\<close>

definition example_keys :: TWAMPKeys where
  "example_keys = \<lparr>AESKey = zeros 16, HMACKey = zeros 32, TestAESKey = zeros 16,
     TestHMACKey = zeros 32, ClientIV = zeros 16, ServerIV = zeros 16\<rparr>"

definition example_session :: "mode \<Rightarrow> TestSession" where
  "example_session m = \<lparr>se_sid = zeros 16, se_reflectorPort = 20000, se_conn = Open_handle,
     se_senderAddr = None, se_senderPort = 30000, se_mode = m, se_sessionKeys = Some example_keys,
     se_timeout = 0, se_dscp = 0, se_reflectedPackets = 0, se_startTime = 0, se_isActive = True,
     se_stopChan = Open_handle, se_reflectorDone = Open_handle, se_hmacFailures = 0,
     se_lastHMACFailureTime = None, se_maxHMACFailures = effectiveMaxHMACFailures 3\<rparr>"

definition example_random :: random_source where
  "example_random n = Inr (zeros n)"

definition example_send :: "bytes \<Rightarrow> net_addr \<Rightarrow> unit res" where
  "example_send b addr = Inr ()"

lemma example_session_simps [simp]:
  "se_mode (example_session m) = m" "se_sessionKeys (example_session m) = Some example_keys"
  "se_hmacFailures (example_session m) = 0" "se_lastHMACFailureTime (example_session m) = None"
  "se_maxHMACFailures (example_session m) = effectiveMaxHMACFailures 3"
  by (simp_all add: example_session_def)

section \<open>Plain replies\<close>

lemma plain_marshal_ok:
  assumes "Scale see < 64" and "0 \<le> n" and "n \<le> 2007"
  shows "ReflectorTestPacket_ok \<lparr>rp_SeqNumber = sq, rp_Timestamp = tx,
    rp_ErrorEstimate = reflectorErrorEstimate, rp_MBZ = zeros 2, rp_ReceiveTimestamp = rx,
    rp_SenderSeqNumber = ssq, rp_SenderTimestamp = sts, rp_SenderErrorEstimate = see,
    rp_MBZ2 = zeros 2, rp_SenderTTL = ttl, rp_PaddingSize = n\<rparr>"
  using assms by (simp add: ReflectorTestPacket_ok_def reflectorErrorEstimate_def)

lemma plain_padding:
  "(if sy then CalculateSymmetricalPadding (int n) else max 0 (int n - 41)) = max 0 (int n - 41)"
  by (simp add: CalculateSymmetricalPadding_def)

lemma sender_fields:
  "SenderTestPacket_Unmarshal SenderTestPacket_zero b = Inr p \<Longrightarrow>
    14 \<le> length b \<and> Scale (tp_ErrorEstimate p) < 64"
  by (auto simp: SenderTestPacket_Unmarshal_def split: if_splits)

text \<open>An unauthenticated session answers every test packet, of any size. The reply parses to the
  sender's sequence number, timestamp and error estimate with the reflector's own, it is as long as
  the packet received (the first 2048 bytes of it) and at least 41 bytes, and the packet count
  grows by one.\<close>

theorem plain_reflection:
  assumes "\<not> secure_test_mode (se_mode s)" and "se_mode s AND ModeReflectOctets = 0"
    and "SenderTestPacket_Unmarshal SenderTestPacket_zero (take 2048 d) = Inr p"
  shows "\<exists>b. reflect_iteration rnd (\<lambda>b a. Inr ()) d addr ttl rx tx now s =
      (Reflected b, record_success now (note_sender addr s)) \<and>
    length b = max 41 (min 2048 (length d)) \<and>
    ReflectorTestPacket_Unmarshal ReflectorTestPacket_zero b =
      Inr \<lparr>rp_SeqNumber = se_reflectedPackets s, rp_Timestamp = tx,
           rp_ErrorEstimate = reflectorErrorEstimate, rp_MBZ = zeros 2, rp_ReceiveTimestamp = rx,
           rp_SenderSeqNumber = tp_SeqNumber p, rp_SenderTimestamp = tp_Timestamp p,
           rp_SenderErrorEstimate = tp_ErrorEstimate p, rp_MBZ2 = zeros 2,
           rp_SenderTTL = (case ttl of Some t \<Rightarrow> t | None \<Rightarrow> 255),
           rp_PaddingSize = max 0 (int (min 2048 (length d)) - 41)\<rparr>"
    (is "\<exists>b. ?it b \<and> ?len b \<and> ?un b = Inr ?r")
proof -
  note p = sender_fields [OF assms(3)]
  obtain b where b: "ReflectorTestPacket_Marshal ?r = Inr b" "length b = 41 + nat (rp_PaddingSize ?r)"
      "ReflectorTestPacket_Unmarshal ReflectorTestPacket_zero b = Inr ?r"
    using reflector_codec.roundtrip [OF plain_marshal_ok, of "tp_ErrorEstimate p"
        "max 0 (int (min 2048 (length d)) - 41)" "se_reflectedPackets s" tx rx "tp_SeqNumber p"
        "tp_Timestamp p" "case ttl of Some t \<Rightarrow> t | None \<Rightarrow> 255"] p by auto
  have "parse_packet s (take 2048 d) = Inr \<lparr>si_SeqNo = tp_SeqNumber p, si_Timestamp = tp_Timestamp p,
      si_ErrorEstimate = tp_ErrorEstimate p, si_Padding = []\<rparr>"
    using assms by (simp add: parse_packet_def)
  then have "make_reply rnd s (take MaxTWAMPPacketSize d) (case ttl of Some t \<Rightarrow> t | None \<Rightarrow> 255) rx tx = Inr b"
    using assms b(1) by (simp add: make_reply_def reply_plain_def plain_padding min.commute)
  then have "?it b" by (rule iteration_reply)
  with b show ?thesis by auto
qed

theorem plain_reflection_witness:
  "\<exists>b s'. reflect_iteration example_random (\<lambda>b a. Inr ()) (zeros 100) ''a'' None Timestamp_zero Timestamp_zero 0 (example_session 1) =
    (Reflected b, s') \<and> length b = 100"
  using plain_reflection [of "example_session 1" "zeros 100" _ example_random "''a''" None Timestamp_zero Timestamp_zero 0]
  by (auto simp: secure_bits SenderTestPacket_Unmarshal_def bit_simps)

section \<open>Reflected padding\<close>

lemma expand_padding_dead: "n \<le> base + length pad \<Longrightarrow> expand_padding sy base n pad = pad"
  by (simp add: expand_padding_def)

lemma octets_parse:
  assumes "\<not> secure_test_mode (se_mode s)" and "se_mode s AND ModeReflectOctets \<noteq> 0"
    and "14 \<le> length b"
  shows "parse_packet s b = Inr \<lparr>si_SeqNo = rd32 (seg 0 4 b), si_Timestamp = TWAMPTimestamp_read (seg 4 12 b),
    si_ErrorEstimate = ee_read (seg 12 14 b), si_Padding = drop 14 b\<rparr>"
  using assms by (auto simp: parse_packet_def SenderTestPacketReflectOctets_Unmarshal_def Let_def
      SenderTestPacketReflectOctets_zero_def padding_data_def)

text \<open>C17: an unauthenticated session in reflect-octets mode, symmetrical size or not, answers a packet
  of up to 2021 bytes with one that is 27 bytes longer: the parsed reply has the sender's fields and
  its padding, unchanged. A longer packet is a run-time panic of the reflector, which ends the server
  process: one datagram suffices.\<close>

theorem octets_reflection:
  assumes "\<not> secure_test_mode (se_mode s)" and "se_mode s AND ModeReflectOctets \<noteq> 0"
    and "14 \<le> length d"
  shows "case reflect_iteration rnd (\<lambda>b a. Inr ()) d addr ttl rx tx now s of
      (Reflected b, s') \<Rightarrow> length d \<le> 2021 \<and> length b = length d + 27 \<and>
        s' = record_success now (note_sender addr s) \<and>
        ReflectorTestPacketReflectOctets_Unmarshal ReflectorTestPacketReflectOctets_zero b =
        Inr \<lparr>ro_SeqNumber = se_reflectedPackets s, ro_Timestamp = tx,
             ro_ErrorEstimate = reflectorErrorEstimate, ro_MBZ1 = 0, ro_ReceiveTimestamp = rx,
             ro_SenderSeqNumber = rd32 (seg 0 4 d), ro_SenderTimestamp = TWAMPTimestamp_read (seg 4 12 d),
             ro_SenderErrorEstimate = ee_read (seg 12 14 d), ro_MBZ2 = 0,
             ro_SenderTTL = (case ttl of Some t \<Rightarrow> t | None \<Rightarrow> 255), ro_ReflectedPadding = drop 14 d\<rparr>
    | (Crashed m, s') \<Rightarrow> 2021 < length d
    | (_, s') \<Rightarrow> False"
proof (cases "length d \<le> 2021")
  case True
  let ?r = "\<lparr>ro_SeqNumber = se_reflectedPackets s, ro_Timestamp = tx,
             ro_ErrorEstimate = reflectorErrorEstimate, ro_MBZ1 = 0, ro_ReceiveTimestamp = rx,
             ro_SenderSeqNumber = rd32 (seg 0 4 d), ro_SenderTimestamp = TWAMPTimestamp_read (seg 4 12 d),
             ro_SenderErrorEstimate = ee_read (seg 12 14 d), ro_MBZ2 = 0,
             ro_SenderTTL = (case ttl of Some t \<Rightarrow> t | None \<Rightarrow> 255), ro_ReflectedPadding = drop 14 d\<rparr>"
  have "ReflectorTestPacketReflectOctets_ok ?r"
    using True by (simp add: ReflectorTestPacketReflectOctets_ok_def reflectorErrorEstimate_def)
  from reflector_octets_codec.roundtrip [OF this]
  obtain b where b: "ReflectorTestPacketReflectOctets_Marshal ?r = Inr b"
      "length b = 41 + length (drop 14 d)"
      "ReflectorTestPacketReflectOctets_Unmarshal ReflectorTestPacketReflectOctets_zero b = Inr ?r"
    by auto
  have "make_reply rnd s (take MaxTWAMPPacketSize d) (case ttl of Some t \<Rightarrow> t | None \<Rightarrow> 255) rx tx = Inr b"
    using assms b(1) True octets_parse [OF assms]
    by (simp add: make_reply_def reply_plain_def expand_padding_dead)
  from iteration_reply [OF this] b(2,3) True assms(3) show ?thesis by simp
next
  case False
  define r where "r = \<lparr>ro_SeqNumber = se_reflectedPackets s, ro_Timestamp = tx,
             ro_ErrorEstimate = reflectorErrorEstimate, ro_MBZ1 = 0, ro_ReceiveTimestamp = rx,
             ro_SenderSeqNumber = rd32 (seg 0 4 (take 2048 d)),
             ro_SenderTimestamp = TWAMPTimestamp_read (seg 4 12 (take 2048 d)),
             ro_SenderErrorEstimate = ee_read (seg 12 14 (take 2048 d)), ro_MBZ2 = 0,
             ro_SenderTTL = (case ttl of Some t \<Rightarrow> t | None \<Rightarrow> 255),
             ro_ReflectedPadding = drop 14 (take 2048 d)\<rparr>"
  have "ReflectorTestPacketReflectOctets_Marshal r = Inl (Panic ''slice bounds out of range'')"
    using False by (simp add: ReflectorTestPacketReflectOctets_Marshal_def pool_slice_def r_def)
  then have "make_reply rnd s (take MaxTWAMPPacketSize d) (case ttl of Some t \<Rightarrow> t | None \<Rightarrow> 255) rx tx =
      Inl (Panic ''slice bounds out of range'')"
    using assms False octets_parse [OF assms(1,2), of "take 2048 d"]
    by (simp add: make_reply_def reply_plain_def expand_padding_dead r_def)
  from iteration_panic [OF this] False show ?thesis by simp
qed

theorem octets_reflection_witness:
  "fst (reflect_iteration example_random (\<lambda>b a. Inr ()) (zeros 2022) ''a'' None Timestamp_zero Timestamp_zero 0 (example_session 33)) \<in> range Crashed"
  using octets_reflection [where s = "example_session 33" and d = "zeros 2022" and rnd = example_random and addr = "''a''"
      and ttl = None and rx = Timestamp_zero and tx = Timestamp_zero and now = 0]
  by (simp add: secure_bits split: prod.splits outcome.splits)

section \<open>Authenticated and encrypted packets\<close>

text \<open>The HMAC that belongs in a packet, over the bytes that the mode covers.\<close>

definition packet_hmac :: "mode \<Rightarrow> bool \<Rightarrow> TWAMPKeys \<Rightarrow> bytes \<Rightarrow> bytes" where
  "packet_hmac m isReflector keys b =
     take 16 (hmac_sha1 (TestHMACKey keys) (seg 0 (HMACCoverage (m AND ModeEncrypted \<noteq> 0) isReflector) b))"

lemma length_packet_hmac [simp]: "length (packet_hmac m r k b) = 16"
  by (simp add: packet_hmac_def)

lemma VerifyHMAC_iff:
  "VerifyHMAC key msg mac = Inr True \<longleftrightarrow> length key = 32 \<and> mac = take 16 (hmac_sha1 key msg)"
  by (auto simp: VerifyHMAC_def CalculateHMAC_def)

lemma open_packet_iff:
  "open_packet m keys b = Inr plain \<longleftrightarrow>
    EncryptTWAMPTestPacket (TestAESKey keys) (ClientIV keys) plain (m AND ModeEncrypted = 0) = Inr b \<and>
    length (TestHMACKey keys) = 32 \<and> seg 32 48 plain = packet_hmac m False keys plain"
proof -
  have "open_packet m keys b = Inr plain \<longleftrightarrow>
      DecryptTWAMPTestPacket (TestAESKey keys) (ClientIV keys) b (m AND ModeEncrypted = 0) = Inr plain \<and>
      VerifyHMAC (TestHMACKey keys) (seg 0 (HMACCoverage (m AND ModeEncrypted \<noteq> 0) False) plain)
        (seg 32 48 plain) = Inr True"
    by (auto simp: open_packet_def Let_def split: sum.splits)
  then show ?thesis
    unfolding VerifyHMAC_iff packet_hmac_def DecryptTWAMPTestPacket_def EncryptTWAMPTestPacket_def
    by (simp only: test_packet_inverse)
qed

lemma encrypted_length:
  "EncryptTWAMPTestPacket key iv plain auth = Inr b \<Longrightarrow> length plain = length b \<and> 48 \<le> length b"
  unfolding EncryptTWAMPTestPacket_def
  using encryptTestPacket_rest [of key iv plain auth False b]
  by (auto simp: encryptTestPacket_eq min_packet_def split: if_splits)

lemma open_packet_length:
  "open_packet m keys b = Inr plain \<Longrightarrow> length plain = length b \<and> 48 \<le> length plain"
  unfolding open_packet_iff by (auto dest!: encrypted_length)

lemma reflected_iteration:
  "reflect_iteration rnd send d addr ttl rx tx now s = (Reflected b, s') \<Longrightarrow>
    (\<exists>t. make_reply rnd s (take 2048 d) t rx tx = Inr b) \<and> s' = record_success now (note_sender addr s)"
  using make_reply_cong [of "note_sender addr s" s rnd]
  by (auto simp: reflect_iteration_def processAndReflect_def Let_def
      split: sum.splits goerr.splits if_splits)

lemma opened_reply:
  assumes "make_reply rnd s b t rx tx = Inr c" and "secure_test_mode (se_mode s)"
    and "se_sessionKeys s = Some keys"
  shows "\<exists>plain. open_packet (se_mode s) keys b = Inr plain"
  using assms by (auto simp: make_reply_def parse_packet_def Let_def split: sum.splits)

lemma record_hmac_failure_simps [simp]:
  "se_startTime (record_hmac_failure now s) = se_startTime s"
  "se_reflectedPackets (record_hmac_failure now s) = se_reflectedPackets s"
  "se_maxHMACFailures (record_hmac_failure now s) = se_maxHMACFailures s"
  by (simp_all add: record_hmac_failure_def split: option.split)

text \<open>C15: nothing is reflected without a valid HMAC. In an authenticated or encrypted session that has its keys,
  a packet is answered only if it is the encryption, under the session's keys, of a packet that carries the
  HMAC of its covered bytes; every other packet leaves the activity timer and the packet
  count, on which the idle timeout and the sequence numbers rest, as they were.\<close>

theorem reflection_authenticated:
  assumes "secure_test_mode (se_mode s)" and "se_sessionKeys s = Some keys"
  shows "case reflect_iteration rnd send d addr ttl rx tx now s of
      (Reflected b, s') \<Rightarrow> s' = record_success now (note_sender addr s) \<and>
        (\<exists>plain. EncryptTWAMPTestPacket (TestAESKey keys) (ClientIV keys) plain
            (se_mode s AND ModeEncrypted = 0) = Inr (take 2048 d) \<and>
          seg 32 48 plain = packet_hmac (se_mode s) False keys plain)
    | (_, s') \<Rightarrow> se_startTime s' = se_startTime s \<and> se_reflectedPackets s' = se_reflectedPackets s"
proof (cases "\<exists>b s'. reflect_iteration rnd send d addr ttl rx tx now s = (Reflected b, s')")
  case True
  then obtain b s' where it: "reflect_iteration rnd send d addr ttl rx tx now s = (Reflected b, s')"
    by blast
  from reflected_iteration [OF it] opened_reply [OF _ assms]
  obtain plain where "open_packet (se_mode s) keys (take 2048 d) = Inr plain" by blast
  with it reflected_iteration [OF it] show ?thesis by (auto simp: open_packet_iff)
next
  case False
  then show ?thesis
    by (auto simp: reflect_iteration_def Let_def split: sum.splits goerr.splits if_splits)
qed

theorem reflection_authenticated_witness:
  "se_reflectedPackets (snd (reflect_iteration example_random example_send (zeros 20) ''a'' None Timestamp_zero Timestamp_zero 0 (example_session 2))) = 0"
  using reflection_authenticated [where s = "example_session 2" and keys = example_keys and rnd = example_random and
      send = example_send and d = "zeros 20" and addr = "''a''" and ttl = None and rx = Timestamp_zero and tx = Timestamp_zero and now = 0]
  by (auto simp: secure_bits example_session_def split: prod.splits outcome.splits
      dest!: encrypted_length)

section \<open>Sealed replies\<close>

lemma reflector_header_split:
  "reflector_auth_header sq ts ee rts ssq sts see ttl mac =
    reflector_auth_header sq ts ee rts ssq sts see ttl [] @ mac"
  by (simp add: reflector_auth_header_def)

lemma length_reflector_header_nil [simp]:
  "length (reflector_auth_header sq ts ee rts ssq sts see ttl []) = 96"
  by (simp add: reflector_auth_header_def)

lemma reflector_header_read:
  assumes "length mac = 16" and "Scale ee < 64" and "Scale see < 64"
  shows "ReflectorTestPacketAuth_Unmarshal ReflectorTestPacketAuth_zero
      (reflector_auth_header sq ts ee rts ssq sts see ttl mac @ r) =
    Inr \<lparr>ra_SeqNumber = sq, ra_MBZ = zeros 12, ra_Timestamp = ts, ra_ErrorEstimate = ee,
      ra_MBZ2 = zeros 6, ra_ReceiveTimestamp = rts, ra_MBZ3 = zeros 8, ra_SenderSeqNumber = ssq,
      ra_MBZ4 = zeros 12, ra_SenderTimestamp = sts, ra_SenderErrorEstimate = see,
      ra_MBZ5 = zeros 6, ra_SenderTTL = ttl, ra_MBZ6 = zeros 15, ra_HMAC = mac,
      ra_PaddingSize = int (length r)\<rparr>"
  using assms by (simp add: reflector_auth_header_def reading nth_append
      ReflectorTestPacketAuth_Unmarshal_def ReflectorTestPacketAuth_zero_def)

text \<open>Sealing a packet with 96 bytes in front of its HMAC.\<close>

lemma seal_reply_ok:
  assumes "length h = 96" and "length z = 16" and "length (TestAESKey keys) = 16"
    and "length (ServerIV keys) = 16" and "length (TestHMACKey keys) = 32"
  shows "\<exists>c. seal_reply m (Some keys) (h @ z @ r) = Inr c \<and> length c = 112 + length r \<and>
    DecryptTWAMPReflectorTestPacket (TestAESKey keys) (ServerIV keys) c (m AND ModeEncrypted = 0) =
      Inr (h @ packet_hmac m True keys h @ r)"
proof -
  let ?mac = "packet_hmac m True keys h" and ?enc = "m AND ModeEncrypted \<noteq> 0"
  let ?raw = "h @ ?mac @ r"
  have cov: "HMACCoverage ?enc True \<le> 96" by (simp add: HMACCoverage_def)
  have "seg 0 (HMACCoverage ?enc True) (h @ z @ r) = seg 0 (HMACCoverage ?enc True) h"
    using cov assms(1) by (simp add: seg_def)
  then have "CalculateHMAC (TestHMACKey keys) (seg 0 (HMACCoverage ?enc True) (h @ z @ r)) = Inr ?mac"
    using assms by (simp add: CalculateHMAC_def packet_hmac_def)
  moreover have "copy_at (h @ z @ r) 96 112 ?mac = ?raw"
    using assms by (simp add: copy_at_def)
  moreover obtain c where c: "EncryptTWAMPReflectorTestPacket (TestAESKey keys) (ServerIV keys) ?raw
      (\<not> ?enc) = Inr c"
    using assms by (simp add: EncryptTWAMPReflectorTestPacket_def encryptTestPacket_eq min_packet_def)
  ultimately have "seal_reply m (Some keys) (h @ z @ r) = Inr c"
    by (simp add: seal_reply_def Let_def)
  moreover have "length c = 112 + length r"
    using encryptTestPacket_rest [OF c [unfolded EncryptTWAMPReflectorTestPacket_def]] assms by simp
  moreover have "DecryptTWAMPReflectorTestPacket (TestAESKey keys) (ServerIV keys) c (\<not> ?enc) = Inr ?raw"
    using c unfolding DecryptTWAMPReflectorTestPacket_def EncryptTWAMPReflectorTestPacket_def
    by (simp only: test_packet_inverse)
  ultimately show ?thesis by auto
qed

lemma packet_hmac_prefix:
  "length h = 96 \<Longrightarrow> packet_hmac m True keys (h @ r) = packet_hmac m True keys h"
  by (simp add: packet_hmac_def seg_def HMACCoverage_def)

text \<open>The part of a reply behind its HMAC.\<close>

definition reply_tail_ok :: "mode \<Rightarrow> nat \<Rightarrow> bytes \<Rightarrow> bytes \<Rightarrow> bool" where
  "reply_tail_ok m n pad r \<longleftrightarrow>
     (if m AND ModeReflectOctets \<noteq> 0 then r = pad
      else length r = (if m AND ModeSymmetricalSize \<noteq> 0 then n - 112 else 0))"

abbreviation reply_header :: "TestSession \<Rightarrow> sender_info \<Rightarrow> u8 \<Rightarrow> TWAMPTimestamp \<Rightarrow> TWAMPTimestamp \<Rightarrow> bytes" where
  "reply_header s si ttl rx tx \<equiv> reflector_auth_header (se_reflectedPackets s) tx reflectorErrorEstimate rx
     (si_SeqNo si) (si_Timestamp si) (si_ErrorEstimate si) ttl []"

lemma nat_diff_112: "nat (int n - 112) = n - 112"
  by arith

lemma reply_auth_raw:
  assumes "rand_ok rnd" and "n \<le> 2048" and "n \<le> 112 + length (si_Padding si) \<or> \<not> bit (se_mode s) 5"
    and "length (si_Padding si) \<le> 1936"
  obtains r where "reply_auth rnd s si n ttl rx tx =
      seal_reply (se_mode s) (se_sessionKeys s) (reply_header s si ttl rx tx @ zeros 16 @ r)"
    and "reply_tail_ok (se_mode s) n (si_Padding si) r"
proof (cases "bit (se_mode s) 5")
  case True
  with assms that [of "si_Padding si"] show thesis
    by (simp add: reply_auth_def reply_tail_ok_def Let_def expand_padding_dead
        ReflectorTestPacketAuthReflectOctets_Marshal_eq reflector_header_split [of _ _ _ _ _ _ _ _ "zeros 16"])
next
  case False
  define q where "q = \<lparr>ra_SeqNumber = se_reflectedPackets s, ra_MBZ = zeros 12,
    ra_Timestamp = tx, ra_ErrorEstimate = reflectorErrorEstimate, ra_MBZ2 = zeros 6,
    ra_ReceiveTimestamp = rx, ra_MBZ3 = zeros 8, ra_SenderSeqNumber = si_SeqNo si,
    ra_MBZ4 = zeros 12, ra_SenderTimestamp = si_Timestamp si,
    ra_SenderErrorEstimate = si_ErrorEstimate si, ra_MBZ5 = zeros 6, ra_SenderTTL = ttl,
    ra_MBZ6 = zeros 15, ra_HMAC = zeros 16,
    ra_PaddingSize = (if se_mode s AND ModeSymmetricalSize \<noteq> 0
                      then CalculateSymmetricalPaddingAuth (int n) else 0)\<rparr>"
  have q: "0 \<le> ra_PaddingSize q" "ra_PaddingSize q \<le> 1936" "length (ra_HMAC q) = 16"
    using assms(2) by (simp_all add: q_def CalculateSymmetricalPaddingAuth_def)
  obtain r where r: "length r = nat (ra_PaddingSize q)"
    and m: "ReflectorTestPacketAuth_Marshal rnd q = Inr (reflector_auth_header (ra_SeqNumber q)
      (ra_Timestamp q) (ra_ErrorEstimate q) (ra_ReceiveTimestamp q) (ra_SenderSeqNumber q)
      (ra_SenderTimestamp q) (ra_SenderErrorEstimate q) (ra_SenderTTL q) (ra_HMAC q) @ r)"
    by (rule ReflectorTestPacketAuth_Marshal_eq [OF assms(1) q(3,1,2)])
  have "ReflectorTestPacketAuth_Marshal rnd q = Inr (reply_header s si ttl rx tx @ zeros 16 @ r)"
    using m by (simp add: q_def reflector_header_split [of _ _ _ _ _ _ _ _ "zeros 16"])
  then have "reply_auth rnd s si n ttl rx tx =
      seal_reply (se_mode s) (se_sessionKeys s) (reply_header s si ttl rx tx @ zeros 16 @ r)"
    using False by (simp add: reply_auth_def Let_def q_def)
  moreover have "reply_tail_ok (se_mode s) n (si_Padding si) r"
    using r False by (simp add: reply_tail_ok_def q_def CalculateSymmetricalPaddingAuth_def nat_diff_112)
  ultimately show thesis by (rule that)
qed

lemma sealed_read:
  assumes "length mac = 16" and "Scale see < 64" and "si_ErrorEstimate si = see"
  shows "ReflectorTestPacketAuth_Unmarshal ReflectorTestPacketAuth_zero
      (reply_header s si ttl rx tx @ mac @ r) = Inr \<lparr>
      ra_SeqNumber = se_reflectedPackets s, ra_MBZ = zeros 12, ra_Timestamp = tx,
      ra_ErrorEstimate = reflectorErrorEstimate, ra_MBZ2 = zeros 6, ra_ReceiveTimestamp = rx,
      ra_MBZ3 = zeros 8, ra_SenderSeqNumber = si_SeqNo si, ra_MBZ4 = zeros 12,
      ra_SenderTimestamp = si_Timestamp si, ra_SenderErrorEstimate = see,
      ra_MBZ5 = zeros 6, ra_SenderTTL = ttl, ra_MBZ6 = zeros 15, ra_HMAC = mac,
      ra_PaddingSize = int (length r)\<rparr>"
  using reflector_header_read [of mac reflectorErrorEstimate see "se_reflectedPackets s" tx rx
      "si_SeqNo si" "si_Timestamp si" ttl r] assms
  by (simp add: reflectorErrorEstimate_def reflector_header_split [of _ _ _ _ _ _ _ _ mac])

lemma secure_reply:
  assumes "secure_test_mode (se_mode s)" and "se_sessionKeys s = Some keys" and "length (TestAESKey keys) = 16"
    and "length (ServerIV keys) = 16" and "length (TestHMACKey keys) = 32" and "rand_ok rnd"
    and "parse_packet s d = Inr si" and "length d \<le> 2048"
    and "length d \<le> 112 + length (si_Padding si) \<or> \<not> bit (se_mode s) 5" and "length (si_Padding si) \<le> 1936"
  obtains c r where "make_reply rnd s d ttl rx tx = Inr c" and "length c = 112 + length r"
    and "DecryptTWAMPReflectorTestPacket (TestAESKey keys) (ServerIV keys) c (se_mode s AND ModeEncrypted = 0) =
      Inr (reply_header s si ttl rx tx @ packet_hmac (se_mode s) True keys (reply_header s si ttl rx tx) @ r)"
    and "reply_tail_ok (se_mode s) (length d) (si_Padding si) r"
proof -
  let ?h = "reply_header s si ttl rx tx"
  obtain r where r: "reply_auth rnd s si (length d) ttl rx tx = seal_reply (se_mode s) (se_sessionKeys s) (?h @ zeros 16 @ r)"
    "reply_tail_ok (se_mode s) (length d) (si_Padding si) r"
    by (rule reply_auth_raw [OF assms(6,8,9,10), of ttl rx tx])
  obtain c where c: "seal_reply (se_mode s) (Some keys) (?h @ zeros 16 @ r) = Inr c" "length c = 112 + length r"
    "DecryptTWAMPReflectorTestPacket (TestAESKey keys) (ServerIV keys) c (se_mode s AND ModeEncrypted = 0) =
      Inr (?h @ packet_hmac (se_mode s) True keys ?h @ r)"
    using seal_reply_ok [of ?h "zeros 16" keys "se_mode s" r] assms(3-5) by auto
  have "make_reply rnd s d ttl rx tx = Inr c"
    using assms(1,2,7) r(1) c(1) by (simp add: make_reply_def)
  from that [OF this c(2,3) r(2)] show thesis .
qed

lemma secure_parse:
  assumes "secure_test_mode (se_mode s)" and "se_sessionKeys s = Some keys"
    and "open_packet (se_mode s) keys b = Inr plain"
    and "SenderTestPacketAuth_Unmarshal SenderTestPacketAuth_zero plain = Inr p"
  shows "parse_packet s b = Inr \<lparr>si_SeqNo = ta_SeqNumber p, si_Timestamp = ta_Timestamp p,
      si_ErrorEstimate = ta_ErrorEstimate p,
      si_Padding = (if bit (se_mode s) 5 then drop 48 plain else [])\<rparr>"
    and "Scale (ta_ErrorEstimate p) < 64"
  using assms by (auto simp: parse_packet_def Let_def SenderTestPacketAuth_Unmarshal_def
      SenderTestPacketAuthReflectOctets_Unmarshal_def SenderTestPacketAuthReflectOctets_zero_def
      padding_data_def split: if_splits sum.splits)

text \<open>C16: a valid packet of an authenticated or encrypted session is answered, and the reply is what the
  other end checks: it decrypts under the session's keys, carries the HMAC of its covered
  bytes, and parses to the sender's fields with the reflector's own. Behind the HMAC it
  repeats the sender's padding in reflect-octets mode, and otherwise has the size
  that symmetrical size asks for.\<close>

theorem secure_reflection:
  assumes "secure_test_mode (se_mode s)" and "se_sessionKeys s = Some keys"
    and "length (ServerIV keys) = 16" and "rand_ok rnd"
    and "open_packet (se_mode s) keys (take 2048 d) = Inr plain"
    and "SenderTestPacketAuth_Unmarshal SenderTestPacketAuth_zero plain = Inr p"
    and "se_mode s AND ModeReflectOctets = 0 \<or> length d \<le> 1984"
  shows "\<exists>c v. reflect_iteration rnd (\<lambda>b a. Inr ()) d addr ttl rx tx now s =
      (Reflected c, record_success now (note_sender addr s)) \<and>
    DecryptTWAMPReflectorTestPacket (TestAESKey keys) (ServerIV keys) c
      (se_mode s AND ModeEncrypted = 0) = Inr v \<and>
    seg 96 112 v = packet_hmac (se_mode s) True keys v \<and>
    reply_tail_ok (se_mode s) (length plain) (drop 48 plain) (drop 112 v) \<and>
    ReflectorTestPacketAuth_Unmarshal ReflectorTestPacketAuth_zero v = Inr \<lparr>
      ra_SeqNumber = se_reflectedPackets s, ra_MBZ = zeros 12, ra_Timestamp = tx,
      ra_ErrorEstimate = reflectorErrorEstimate, ra_MBZ2 = zeros 6, ra_ReceiveTimestamp = rx,
      ra_MBZ3 = zeros 8, ra_SenderSeqNumber = ta_SeqNumber p, ra_MBZ4 = zeros 12,
      ra_SenderTimestamp = ta_Timestamp p, ra_SenderErrorEstimate = ta_ErrorEstimate p,
      ra_MBZ5 = zeros 6, ra_SenderTTL = (case ttl of Some t \<Rightarrow> t | None \<Rightarrow> 255),
      ra_MBZ6 = zeros 15, ra_HMAC = packet_hmac (se_mode s) True keys v,
      ra_PaddingSize = int (length c) - 112\<rparr>"
proof -
  let ?m = "se_mode s" and ?ttl = "case ttl of Some t \<Rightarrow> t | None \<Rightarrow> 255"
  define si where "si = \<lparr>si_SeqNo = ta_SeqNumber p, si_Timestamp = ta_Timestamp p,
      si_ErrorEstimate = ta_ErrorEstimate p,
      si_Padding = (if bit ?m 5 then drop 48 plain else [])\<rparr>"
  let ?h = "reply_header s si ?ttl rx tx"
  let ?mac = "packet_hmac ?m True keys ?h"
  have l: "length plain = min 2048 (length d)" "48 \<le> length plain"
    using open_packet_length [OF assms(5)] by auto
  have parse: "parse_packet s (take 2048 d) = Inr si"
    using secure_parse(1) [OF assms(1,2,5,6)] by (simp add: si_def)
  have pad: "length plain \<le> 112 + length (si_Padding si) \<or> \<not> bit ?m 5" "length (si_Padding si) \<le> 1936"
    using l assms(7) by (auto simp: si_def)
  have k: "length (TestAESKey keys) = 16" "length (TestHMACKey keys) = 32"
    using assms(5) by (auto simp: open_packet_iff EncryptTWAMPTestPacket_def encryptTestPacket_eq
        split: if_splits)
  obtain c r where "make_reply rnd s (take 2048 d) ?ttl rx tx = Inr c" and c: "length c = 112 + length r"
    "DecryptTWAMPReflectorTestPacket (TestAESKey keys) (ServerIV keys) c (?m AND ModeEncrypted = 0) =
      Inr (?h @ ?mac @ r)" and r: "reply_tail_ok ?m (length plain) (si_Padding si) r"
    using secure_reply [OF assms(1,2) k(1) assms(3) k(2) assms(4) parse, of ?ttl rx tx] l(1) pad by (auto simp: min.commute)
  then have "make_reply rnd s (take MaxTWAMPPacketSize d) ?ttl rx tx = Inr c" by simp
  from iteration_reply [OF this] have it: "reflect_iteration rnd (\<lambda>b a. Inr ()) d addr ttl rx tx now s =
      (Reflected c, record_success now (note_sender addr s))" .
  have mac: "packet_hmac ?m True keys (?h @ ?mac @ r) = ?mac" by (simp add: packet_hmac_prefix)
  note read = sealed_read [of ?mac "ta_ErrorEstimate p" si s tx rx ?ttl r]
  have seg: "seg 96 112 (?h @ ?mac @ r) = ?mac" "drop 112 (?h @ ?mac @ r) = r"
    by (simp_all add: seg_def)
  have "reply_tail_ok ?m (length plain) (drop 48 plain) r"
    using r by (auto simp: reply_tail_ok_def si_def)
  with it c mac read seg secure_parse(2) [OF assms(1,2,5,6)] show ?thesis
    by (intro exI [of _ c] exI [of _ "?h @ ?mac @ r"]) (auto simp: si_def)
qed

lemma example_opens:
  "\<exists>d. length d = 48 \<and> open_packet 2 example_keys d =
    Inr (zeros 32 @ packet_hmac 2 False example_keys (zeros 32))"
proof -
  let ?p = "zeros 32 @ packet_hmac 2 False example_keys (zeros 32)"
  obtain d where d: "EncryptTWAMPTestPacket (zeros 16) (zeros 16) ?p True = Inr d"
    by (simp add: EncryptTWAMPTestPacket_def encryptTestPacket_eq min_packet_def)
  then have "length d = 48"
    using encryptTestPacket_rest by (fastforce simp: EncryptTWAMPTestPacket_def)
  moreover have "packet_hmac 2 False example_keys ?p = packet_hmac 2 False example_keys (zeros 32)"
    by (simp add: packet_hmac_def HMACCoverage_def seg_def)
  ultimately show ?thesis
    using d by (intro exI [of _ d]) (simp add: open_packet_iff example_keys_def seg_def)
qed

theorem secure_reflection_witness:
  "\<exists>d c s'. reflect_iteration (\<lambda>n. Inr (zeros n)) (\<lambda>b a. Inr ()) d ''a'' None Timestamp_zero Timestamp_zero 0 (example_session 2) =
    (Reflected c, s')"
proof -
  obtain d where d: "length d = 48"
    "open_packet 2 example_keys d = Inr (zeros 32 @ packet_hmac 2 False example_keys (zeros 32))"
    using example_opens by blast
  have "rand_ok (\<lambda>n. Inr (zeros n))" by (simp add: rand_ok_def)
  moreover obtain p where "SenderTestPacketAuth_Unmarshal SenderTestPacketAuth_zero
      (zeros 32 @ packet_hmac 2 False example_keys (zeros 32)) = Inr p"
    by (simp add: SenderTestPacketAuth_Unmarshal_def validateMBZ_eq seg_def zeros_def)
  ultimately show ?thesis
    using secure_reflection [of "example_session 2" example_keys "\<lambda>n. Inr (zeros n)" d _ p "''a''" None Timestamp_zero Timestamp_zero 0] d
    by (simp add: secure_bits example_keys_def) blast
qed

section \<open>The policy on HMAC failures\<close>

fun within_window :: "int option \<Rightarrow> arrival list \<Rightarrow> bool" where
  "within_window prev [] = True"
| "within_window prev (a # ars) =
     ((case prev of None \<Rightarrow> True | Some t \<Rightarrow> ar_now a - t \<le> HMACFailureResetWindow) \<and>
      within_window (Some (ar_now a)) ars)"

definition forged :: "TestSession \<Rightarrow> arrival \<Rightarrow> bool" where
  "forged s a \<longleftrightarrow> secure_test_mode (se_mode s) \<and>
     (case se_sessionKeys s of None \<Rightarrow> False
      | Some keys \<Rightarrow> open_packet (se_mode s) keys (take MaxTWAMPPacketSize (ar_datagram a)) =
          Inl ErrHMACVerificationFailed)"

lemma forged_iteration:
  assumes "forged s a"
  shows "reflect_iteration rnd send (ar_datagram a) (ar_addr a) (ar_ttl a) rx tx now s =
    (let s' = record_hmac_failure now (note_sender (ar_addr a) s)
     in (if 0 < se_maxHMACFailures s \<and> se_maxHMACFailures s \<le> se_hmacFailures s' then Terminated
         else Dropped ErrHMACVerificationFailed, s'))"
  using assms by (auto simp: forged_def reflect_iteration_def processAndReflect_def make_reply_def
      parse_packet_def Let_def split: option.splits)

lemma forged_cong:
  assumes "se_mode s = se_mode t" and "se_sessionKeys s = se_sessionKeys t"
  shows "forged s a = forged t a"
  unfolding forged_def assms ..

lemma record_hmac_failure_same [simp]:
  "se_mode (record_hmac_failure now s) = se_mode s"
  "se_sessionKeys (record_hmac_failure now s) = se_sessionKeys s"
  "se_lastHMACFailureTime (record_hmac_failure now s) = Some now"
  by (simp_all add: record_hmac_failure_def split: option.split)

lemma failures_in_window:
  assumes "case se_lastHMACFailureTime s of None \<Rightarrow> True | Some t \<Rightarrow> now - t \<le> HMACFailureResetWindow"
  shows "se_hmacFailures (record_hmac_failure now s) = se_hmacFailures s + 1"
  using assms by (auto simp: record_hmac_failure_def split: option.splits)

lemma forged_run:
  assumes "list_all (forged s) ars" and "within_window (se_lastHMACFailureTime s) ars"
    and "se_hmacFailures s < se_maxHMACFailures s"
  shows "fst (reflect_run rnd send ars s) =
    (let left = unat (se_maxHMACFailures s) - unat (se_hmacFailures s) in
     if length ars < left then replicate (length ars) (Dropped ErrHMACVerificationFailed)
     else replicate (left - 1) (Dropped ErrHMACVerificationFailed) @ [Terminated])"
  using assms
proof (induction ars arbitrary: s)
  case (Cons a ars)
  define s' where "s' = record_hmac_failure (ar_now a) (note_sender (ar_addr a) s)"
  let ?M = "se_maxHMACFailures s" and ?f = "se_hmacFailures s"
  have lt: "unat ?f < unat ?M" using Cons.prems(3) by (simp add: word_less_nat_alt)
  have "unat ?M < 2 ^ 32" using unsigned_less [of ?M, where 'a = nat] by simp
  with lt have f: "unat (?f + 1) = unat ?f + 1" by (simp add: unat_word_ariths)
  have s': "se_hmacFailures s' = ?f + 1" "se_maxHMACFailures s' = ?M"
    "se_lastHMACFailureTime s' = Some (ar_now a)"
    using Cons.prems(2) by (simp_all add: s'_def failures_in_window)
  have it: "reflect_iteration rnd send (ar_datagram a) (ar_addr a) (ar_ttl a) (ar_rx a) (ar_tx a)
      (ar_now a) s = (if ?M \<le> ?f + 1 then Terminated else Dropped ErrHMACVerificationFailed, s')"
    using Cons.prems(1,3) lt s'(1) forged_iteration [of s a rnd send]
    by (simp add: s'_def Let_def word_less_nat_alt)
  show ?case
  proof (cases "?M \<le> ?f + 1")
    case True
    then have "unat ?M = unat ?f + 1" using lt f by (simp add: word_le_nat_alt)
    then show ?thesis using it True by (simp add: Let_def)
  next
    case False
    have "forged s' = forged s" by (rule ext, rule forged_cong) (simp_all add: s'_def)
    moreover have "se_hmacFailures s' < se_maxHMACFailures s'" using False s' by simp
    ultimately have "fst (reflect_run rnd send ars s') =
        (let left = unat ?M - (unat ?f + 1) in
         if length ars < left then replicate (length ars) (Dropped ErrHMACVerificationFailed)
         else replicate (left - 1) (Dropped ErrHMACVerificationFailed) @ [Terminated])"
      using Cons.IH [of s'] Cons.prems(1,2) s' f by simp
    moreover have "unat ?f + 1 < unat ?M" using False f by (simp add: word_le_nat_alt)
    then obtain k where "unat ?M - unat ?f = Suc (Suc k)"
      by (metis add.commute less_diff_conv less_imp_Suc_add plus_1_eq_Suc)
    ultimately show ?thesis using it False
      by (auto simp: Let_def split: prod.split)
  qed
qed (simp add: Let_def word_less_nat_alt)

text \<open>A packet whose HMAC field is the complement of the right one.\<close>

lemma example_forged: "\<exists>a. forged (example_session 2) a \<and> ar_now a = 0"
proof -
  let ?h = "packet_hmac 2 False example_keys (zeros 32)"
  let ?p = "zeros 32 @ map (\<lambda>b. b + 1) ?h"
  obtain d where d: "encryptTestPacket (zeros 16) (zeros 16) ?p True False = Inr d"
    by (simp add: encryptTestPacket_eq min_packet_def)
  then have dec: "DecryptTWAMPTestPacket (zeros 16) (zeros 16) d True = Inr ?p"
    by (simp add: DecryptTWAMPTestPacket_def test_packet_inverse)
  have "map (\<lambda>b. b + 1) ?h \<noteq> ?h"
    using length_packet_hmac [of 2 False example_keys "zeros 32"] by (cases ?h) auto
  moreover have "seg 0 16 ?p = seg 0 16 (zeros 32)" by (simp add: seg_def)
  ultimately have "open_packet 2 example_keys d = Inl ErrHMACVerificationFailed"
    using dec by (simp add: open_packet_def example_keys_def Let_def HMACCoverage_def VerifyHMAC_def
        CalculateHMAC_def packet_hmac_def seg_def)
  moreover have "length d = 48" using encryptTestPacket_rest [OF d] by simp
  ultimately show ?thesis
    by (intro exI [of _ "\<lparr>ar_datagram = d, ar_addr = [], ar_ttl = None, ar_rx = Timestamp_zero,
        ar_tx = Timestamp_zero, ar_now = 0\<rparr>"]) (simp add: forged_def secure_bits)
qed

text \<open>C22: packets with a wrong HMAC end the session exactly at the threshold. A fresh session whose threshold is
  configured as c (0 stands for 100) drops forged packets that keep coming within the
  30-second window, none of them answered, and the one that makes the count reach the
  threshold terminates it. The threshold can not be switched off.\<close>

theorem hmac_failure_policy:
  assumes "list_all (forged s) ars" and "within_window None ars"
    and "se_hmacFailures s = 0" and "se_lastHMACFailureTime s = None"
    and "se_maxHMACFailures s = effectiveMaxHMACFailures c"
  shows "fst (reflect_run rnd send ars s) =
    (let m = (if c = 0 then 100 else unat c) in
     if length ars < m then replicate (length ars) (Dropped ErrHMACVerificationFailed)
     else replicate (m - 1) (Dropped ErrHMACVerificationFailed) @ [Terminated])"
proof -
  have "0 < effectiveMaxHMACFailures c" by (simp add: effectiveMaxHMACFailures_def word_gt_0)
  then show ?thesis
    using forged_run [of s ars rnd send] assms by (simp add: effectiveMaxHMACFailures_def Let_def)
qed

theorem hmac_failure_policy_witness:
  "\<exists>a. fst (reflect_run example_random example_send [a, a, a, a] (example_session 2)) =
    [Dropped ErrHMACVerificationFailed, Dropped ErrHMACVerificationFailed, Terminated]"
proof -
  obtain a where a: "forged (example_session 2) a" "ar_now a = 0"
    using example_forged by blast
  have "fst (reflect_run example_random example_send [a, a, a, a] (example_session 2)) =
    (let m = (if (3 :: u32) = 0 then 100 else unat (3 :: u32)) in
     if length [a, a, a, a] < m then replicate (length [a, a, a, a]) (Dropped ErrHMACVerificationFailed)
     else replicate (m - 1) (Dropped ErrHMACVerificationFailed) @ [Terminated])"
    using a by (intro hmac_failure_policy) simp_all
  moreover have "(if (3 :: u32) = 0 then 100 else unat (3 :: u32)) = Suc (Suc (Suc 0))" by simp
  ultimately show ?thesis by (intro exI [of _ a]) (simp add: numeral_2_eq_2 del: reflect_run.simps)
qed

end
