(* ===== verification/Server_Sessions.thy ===== *)
theory Server_Sessions
  imports Reflector Port_Manager Control_Messages
begin

text \<open>
  The state of the server of \<open>server/server.go\<close> and what it does to test sessions: they are made,
  started, reflected by a goroutine each, stopped, and removed after a timer. Sessions are shared by
  reference between the server, the control connections, the timers and the goroutines: a
  pointer is an index into \<open>sv_heap\<close>. Every operation is one atomic step; the locks of the code
  make it so except for a few reads, named in the root theory.
\<close>

section \<open>State\<close>

record ServerConfig =
  cf_SupportedModes :: mode
  cf_SecretMap :: "bytes \<rightharpoonup> bytes"
  cf_SERVWAIT :: int
  cf_REFWAIT :: int
  cf_DSCP :: u8
  cf_MaxHMACFailures :: u32

text \<open>
  \<open>sv_timers\<close> holds the pending calls of \<open>time.AfterFunc\<close> with the time they are due, and
  \<open>sv_running\<close> the sessions whose reflector goroutine runs. The two allow lists are those of
  \<open>parseAllowCIDRs\<close> (address and mask) and \<open>parseAllowIPs\<close>.
\<close>

type_synonym ip = bytes

record Server =
  sv_config :: ServerConfig
  sv_sessions :: "session_id \<rightharpoonup> nat"
  sv_portManager :: portManager
  sv_unauthAllowCIDRs :: "(ip \<times> bytes) list"
  sv_unauthAllowIPs :: "ip list"
  sv_heap :: "TestSession list"
  sv_timers :: "(int \<times> nat) list"
  sv_running :: "nat list"

text \<open>
  A control connection. \<open>cc_in\<close> holds the bytes the peer has sent and the server has not read,
  \<open>cc_out\<close> what the server wrote, one entry per call of \<open>Write\<close>; the addresses are those of the
  two ends, empty for none.
\<close>

record controlConnection =
  cc_mode :: mode
  cc_controlMode :: mode
  cc_testMode :: mode
  cc_keyDerivation :: "TWAMPKeys option"
  cc_controlEncrypt :: "CBCStream option"
  cc_controlDecrypt :: "CBCStream option"
  cc_serverStartBytes :: bytes
  cc_serverStartHMACPending :: bool
  cc_sessions :: "session_id \<rightharpoonup> nat"
  cc_lastActivity :: int
  cc_greeting :: "ServerGreeting option"
  cc_LocalAddr :: ip
  cc_RemoteAddr :: ip
  cc_in :: bytes
  cc_out :: "bytes list"

definition session_at :: "Server \<Rightarrow> nat \<Rightarrow> TestSession" where
  "session_at s p = sv_heap s ! p"

definition put_session :: "nat \<Rightarrow> TestSession \<Rightarrow> Server \<Rightarrow> Server" where
  "put_session p session s = s\<lparr>sv_heap := (sv_heap s)[p := session]\<rparr>"

section \<open>Making a session\<close>

text \<open>
  The session both request handlers make. Its keys are derived when the test mode is not plain
  \<open>ModeUnauthenticated\<close> and the connection has keys. A failure releases the port.
\<close>

definition request_dscp :: "u32 \<Rightarrow> u8" where
  "request_dscp TypePDescriptor = ucast (drop_bit 18 TypePDescriptor AND 0x3F)"

definition make_session ::
    "Server \<Rightarrow> controlConnection \<Rightarrow> RequestTWSession \<Rightarrow> session_id \<Rightarrow> u16 \<Rightarrow> TestSession res" where
  "make_session s cc request sid reflectorPort =
     (let session =
            \<lparr>se_sid = sid, se_reflectorPort = reflectorPort, se_conn = Nil_handle,
             se_senderAddr = None, se_senderPort = rts_SenderPort request,
             se_mode = cc_testMode cc, se_sessionKeys = None,
             se_timeout = TWAMPTimestamp_Duration (rts_Timeout request),
             se_dscp = request_dscp (rts_TypePDescriptor request),
             se_reflectedPackets = 0, se_startTime = 0, se_isActive = False,
             se_stopChan = Open_handle, se_reflectorDone = Open_handle,
             se_hmacFailures = 0, se_lastHMACFailureTime = None,
             se_maxHMACFailures = effectiveMaxHMACFailures (cf_MaxHMACFailures (sv_config s))\<rparr>
      in case cc_keyDerivation cc of
           None \<Rightarrow> Inr session
         | Some keys \<Rightarrow>
             if cc_testMode cc = ModeUnauthenticated then Inr session
             else
               (case DeriveTestSessionKeys (AESKey keys) (HMACKey keys) sid of
                  Inl e \<Rightarrow> Inl (Wrap ''failed to derive test session keys'' [e])
                | Inr (testAESKey, testHMACKey) \<Rightarrow>
                    Inr (session\<lparr>se_sessionKeys :=
                      Some \<lparr>AESKey = [], HMACKey = [], TestAESKey = testAESKey,
                            TestHMACKey = testHMACKey, ClientIV = ClientIV keys,
                            ServerIV = ServerIV keys\<rparr>\<rparr>)))"

definition store_session ::
    "session_id \<Rightarrow> TestSession \<Rightarrow> Server \<Rightarrow> controlConnection \<Rightarrow> Server \<times> controlConnection" where
  "store_session sid session s cc =
     (let p = length (sv_heap s) in
      (s\<lparr>sv_heap := sv_heap s @ [session], sv_sessions := (sv_sessions s)(sid \<mapsto> p)\<rparr>,
       cc\<lparr>cc_sessions := (cc_sessions cc)(sid \<mapsto> p)\<rparr>))"

section \<open>Starting and stopping\<close>

text \<open>
  \<open>listen\<close> tells on which ports the system lets the process listen. Setting DSCP and TTL only
  logs its errors.
\<close>

definition startSession :: "(u16 \<Rightarrow> bool) \<Rightarrow> int \<Rightarrow> nat \<Rightarrow> Server \<Rightarrow> unit res \<times> Server" where
  "startSession listen now p s =
     (let session = session_at s p in
      if se_isActive session then (Inr (), s)
      else if \<not> listen (se_reflectorPort session)
      then (Inl (Wrap ''failed to listen on port'' [IOError ''listen'']), s)
      else
        (let session = session\<lparr>se_conn := Open_handle, se_startTime := now\<rparr>;
             session = (if se_stopChan session = Nil_handle then session\<lparr>se_stopChan := Open_handle\<rparr>
                        else session);
             session = session\<lparr>se_isActive := True\<rparr>;
             s = put_session p session s
         in (Inr (), s\<lparr>sv_running := p # sv_running s\<rparr>)))"

definition mark_stopped :: "TestSession \<Rightarrow> TestSession" where
  "mark_stopped session =
     session\<lparr>se_isActive := False, se_stopChan := Nil_handle,
       se_conn := (if se_conn session = Nil_handle then Nil_handle else Closed_handle)\<rparr>"

definition stopSession :: "nat \<Rightarrow> Server \<Rightarrow> Server" where
  "stopSession p s =
     (let session = session_at s p in
      if \<not> se_isActive session then s
      else
        (let session = mark_stopped session;
             s = put_session p session s;
             s = s\<lparr>sv_sessions := (sv_sessions s)(se_sid session := None)\<rparr>
         in s\<lparr>sv_portManager := releasePort (sv_portManager s) (se_reflectorPort session)\<rparr>))"

section \<open>The reflector goroutine\<close>

text \<open>
  What \<open>ReadMsgUDP\<close> returns, and what one round of the loop in \<open>reflectPackets\<close> ends with.
\<close>

datatype read_result = Read_Timeout | Read_Error | Read_Packet arrival

datatype round = Continue "outcome option" | Return | Round_Panic string

definition reflectPackets_round ::
    "random_source \<Rightarrow> (bytes \<Rightarrow> net_addr \<Rightarrow> unit res) \<Rightarrow> int \<Rightarrow> read_result \<Rightarrow> nat \<Rightarrow> Server \<Rightarrow>
     round \<times> Server" where
  "reflectPackets_round rnd send now r p s =
     (let session = session_at s p in
      if \<not> se_isActive session then (Return, s)
      else if se_conn session = Nil_handle then (Return, s)
      else if se_stopChan session = Closed_handle then (Return, s)
      else
        (case r of
           Read_Timeout \<Rightarrow>
             if cf_REFWAIT (sv_config s) < now - se_startTime session
             then (Return, stopSession p s) else (Continue None, s)
         | Read_Error \<Rightarrow> (Continue None, s)
         | Read_Packet a \<Rightarrow>
             (case reflect_iteration rnd send (ar_datagram a) (ar_addr a) (ar_ttl a) (ar_rx a)
                     (ar_tx a) (ar_now a) session of
                (out, session) \<Rightarrow>
                  (let s = put_session p session s in
                   case out of
                     Terminated \<Rightarrow> (Return, stopSession p s)
                   | Crashed m \<Rightarrow> (Round_Panic m, s)
                   | _ \<Rightarrow> (Continue (Some out), s)))))"

text \<open>
  The deferred calls when the loop returns: the connection is dropped and closed, the done channel
  closed (a second close panics), and the goroutine is gone.
\<close>

definition reflector_exit :: "nat \<Rightarrow> Server \<Rightarrow> unit res \<times> Server" where
  "reflector_exit p s =
     (let session = (session_at s p)\<lparr>se_conn := Nil_handle\<rparr>;
          s = s\<lparr>sv_running := remove1 p (sv_running s)\<rparr>
      in case se_reflectorDone session of
           Nil_handle \<Rightarrow> (Inr (), put_session p session s)
         | Open_handle \<Rightarrow> (Inr (), put_session p (session\<lparr>se_reflectorDone := Closed_handle\<rparr>) s)
         | Closed_handle \<Rightarrow> (Inl (Panic ''close of closed channel''), put_session p session s))"

section \<open>Timers, the end of a connection, shutdown\<close>

definition schedule_stop :: "int \<Rightarrow> nat \<Rightarrow> Server \<Rightarrow> Server" where
  "schedule_stop now p s =
     s\<lparr>sv_timers := sv_timers s @ [(now + se_timeout (session_at s p), p)]\<rparr>"

text \<open>The timer at position \<open>i\<close> fires.\<close>

definition fire_timer :: "nat \<Rightarrow> Server \<Rightarrow> Server" where
  "fire_timer i s =
     (let p = snd (sv_timers s ! i) in
      stopSession p (s\<lparr>sv_timers := take i (sv_timers s) @ drop (Suc i) (sv_timers s)\<rparr>))"

text \<open>
  Ranging over a map of sessions takes an order from the run-time: \<open>order\<close>, a list of the
  keys.
\<close>

definition pointers :: "(session_id \<rightharpoonup> nat) \<Rightarrow> session_id list \<Rightarrow> nat list" where
  "pointers m order = List.map_filter m order"

definition order_ok :: "(session_id \<rightharpoonup> nat) \<Rightarrow> session_id list \<Rightarrow> bool" where
  "order_ok m order \<longleftrightarrow> distinct order \<and> set order = dom m"

definition connection_cleanup :: "session_id list \<Rightarrow> controlConnection \<Rightarrow> Server \<Rightarrow> Server" where
  "connection_cleanup order cc s = fold stopSession (pointers (cc_sessions cc) order) s"

definition Server_Stop :: "session_id list \<Rightarrow> Server \<Rightarrow> Server" where
  "Server_Stop order s = fold stopSession (pointers (sv_sessions s) order) s"

section \<open>Who holds which port\<close>

text \<open>
  A session that has never been stopped keeps its stop channel. \<open>holding s\<close> maps the sessions in
  the server's table to their ports.
\<close>

definition live :: "TestSession \<Rightarrow> bool" where
  "live session \<longleftrightarrow> se_stopChan session \<noteq> Nil_handle"

definition holding :: "Server \<Rightarrow> nat \<rightharpoonup> u16" where
  "holding s p =
     (if p < length (sv_heap s) \<and> sv_sessions s (se_sid (session_at s p)) = Some p
      then Some (se_reflectorPort (session_at s p)) else None)"

text \<open>
  The invariant of the table: its entries are filed under their own identifier, the used ports are
  those of the entries, one each, and every session that may still receive packets is an
  entry.
\<close>

definition sessions_ok :: "Server \<Rightarrow> bool" where
  "sessions_ok s \<longleftrightarrow>
     (\<forall>sid p. sv_sessions s sid = Some p \<longrightarrow> p < length (sv_heap s) \<and> se_sid (session_at s p) = sid) \<and>
     ports.owned (holding s) (sv_portManager s) \<and>
     usedPorts (sv_portManager s) = ran (holding s) \<and>
     (\<forall>p < length (sv_heap s). live (session_at s p) \<longrightarrow>
        sv_sessions s (se_sid (session_at s p)) = Some p) \<and>
     (\<forall>p < length (sv_heap s). se_isActive (session_at s p) \<longrightarrow> live (session_at s p))"

lemma sessions_okD:
  assumes "sessions_ok s"
  shows "sv_sessions s sid = Some p \<Longrightarrow> p < length (sv_heap s)"
    and "sv_sessions s sid = Some p \<Longrightarrow> se_sid (session_at s p) = sid"
    and "ports.owned (holding s) (sv_portManager s)"
    and "usedPorts (sv_portManager s) = ran (holding s)"
    and "p < length (sv_heap s) \<Longrightarrow> live (session_at s p) \<Longrightarrow> sv_sessions s (se_sid (session_at s p)) = Some p"
    and "p < length (sv_heap s) \<Longrightarrow> se_isActive (session_at s p) \<Longrightarrow> live (session_at s p)"
  using assms by (auto simp: sessions_ok_def)

lemma session_at_put [simp]:
  "p < length (sv_heap s) \<Longrightarrow> session_at (put_session p x s) q = (if q = p then x else session_at s q)"
  by (simp add: session_at_def put_session_def nth_list_update)

lemma put_session_out [simp]: "\<not> p < length (sv_heap s) \<Longrightarrow> put_session p x s = s"
  by (cases s) (simp add: put_session_def not_less list_update_beyond)

lemma put_session_fields [simp]:
  "length (sv_heap (put_session p x s)) = length (sv_heap s)"
  "sv_sessions (put_session p x s) = sv_sessions s"
  "sv_portManager (put_session p x s) = sv_portManager s"
  "sv_config (put_session p x s) = sv_config s"
  "sv_timers (put_session p x s) = sv_timers s"
  "sv_running (put_session p x s) = sv_running s"
  "sv_unauthAllowCIDRs (put_session p x s) = sv_unauthAllowCIDRs s"
  "sv_unauthAllowIPs (put_session p x s) = sv_unauthAllowIPs s"
  by (simp_all add: put_session_def)

text \<open>Fields that the invariant does not look at.\<close>

lemma session_at_fields [simp]:
  "session_at (s\<lparr>sv_running := r\<rparr>) = session_at s" "session_at (s\<lparr>sv_timers := t\<rparr>) = session_at s"
  "session_at (s\<lparr>sv_sessions := m\<rparr>) = session_at s" "session_at (s\<lparr>sv_portManager := pm\<rparr>) = session_at s"
  by (auto simp: session_at_def)

lemma holding_fields [simp]:
  "holding (s\<lparr>sv_running := r\<rparr>) = holding s" "holding (s\<lparr>sv_timers := t\<rparr>) = holding s"
  "holding (s\<lparr>sv_portManager := pm\<rparr>) = holding s"
  by (auto simp: holding_def)

lemma sessions_ok_fields [simp]:
  "sessions_ok (s\<lparr>sv_running := r\<rparr>) = sessions_ok s" "sessions_ok (s\<lparr>sv_timers := t\<rparr>) = sessions_ok s"
  by (auto simp: sessions_ok_def)

lemma holding_put:
  "se_sid x = se_sid (session_at s p) \<Longrightarrow> se_reflectorPort x = se_reflectorPort (session_at s p) \<Longrightarrow>
    holding (put_session p x s) = holding s"
  by (cases "p < length (sv_heap s)") (auto simp: holding_def fun_eq_iff)

text \<open>A write to a session that keeps its identity and does not revive it.\<close>

lemma sessions_ok_put:
  assumes "sessions_ok s" and "se_sid x = se_sid (session_at s p)"
    and "se_reflectorPort x = se_reflectorPort (session_at s p)"
    and "live x \<Longrightarrow> live (session_at s p)" and "se_isActive x \<Longrightarrow> live x"
  shows "sessions_ok (put_session p x s)"
proof (cases "p < length (sv_heap s)")
  case True
  note D = sessions_okD [OF assms(1)] and h = holding_put [OF assms(2,3)]
  have "sv_sessions s (se_sid (session_at s q)) = Some q"
    if "q < length (sv_heap s)" "live (session_at (put_session p x s) q)" for q
    using that D(5) [of q] assms(4) True by (simp split: if_splits)
  moreover have "live (session_at (put_session p x s) q)"
    if "q < length (sv_heap s)" "se_isActive (session_at (put_session p x s) q)" for q
    using that D(6) [of q] assms(5) True by (simp split: if_splits)
  moreover have "se_sid (session_at (put_session p x s) q) = se_sid (session_at s q)" for q
    using True assms(2) by simp
  ultimately show ?thesis
    unfolding sessions_ok_def h put_session_fields using D(1-4) by (intro conjI allI impI) auto
qed (simp add: assms(1))

lemma startSession_ok:
  assumes "sessions_ok s" and "live (session_at s p)"
  shows "sessions_ok (snd (startSession listen now p s))"
  using assms by (auto simp: startSession_def Let_def live_def intro!: sessions_ok_put)

lemma mark_stopped_simps [simp]:
  "se_sid (mark_stopped x) = se_sid x" "se_reflectorPort (mark_stopped x) = se_reflectorPort x"
  "\<not> live (mark_stopped x)" "\<not> se_isActive (mark_stopped x)"
  "se_reflectorDone (mark_stopped x) = se_reflectorDone x"
  "se_mode (mark_stopped x) = se_mode x" "se_sessionKeys (mark_stopped x) = se_sessionKeys x"
  by (simp_all add: mark_stopped_def live_def)

lemma stopSession_inactive: "\<not> se_isActive (session_at s p) \<Longrightarrow> stopSession p s = s"
  by (simp add: stopSession_def Let_def)

lemma stopSession_active:
  assumes "se_isActive (session_at s p)"
  shows "length (sv_heap (stopSession p s)) = length (sv_heap s)"
    and "p < length (sv_heap s) \<Longrightarrow> session_at (stopSession p s) q =
      (if q = p then mark_stopped (session_at s p) else session_at s q)"
    and "sv_sessions (stopSession p s) = (sv_sessions s)(se_sid (session_at s p) := None)"
    and "sv_portManager (stopSession p s) =
      releasePort (sv_portManager s) (se_reflectorPort (session_at s p))"
  using assms by (simp_all add: stopSession_def Let_def)

lemma ran_without: "inj_on m (dom m) \<Longrightarrow> m p = Some v \<Longrightarrow> ran (m(p := None)) = ran m - {v}"
  by (auto simp: ran_def inj_on_def dom_def) (metis option.inject)

lemma stopSession_ok:
  assumes ok: "sessions_ok s" and p: "p < length (sv_heap s)"
  shows "sessions_ok (stopSession p s)"
proof (cases "se_isActive (session_at s p)")
  case True
  note D = sessions_okD [OF ok] and S = stopSession_active [OF True]
  let ?x = "session_at s p" and ?t = "stopSession p s"
  have own: "holding s p = Some (se_reflectorPort ?x)" "sv_sessions s (se_sid ?x) = Some p"
    using p True D(5,6) by (simp_all add: holding_def)
  have h: "holding ?t = (holding s)(p := None)"
  proof
    fix q
    show "holding ?t q = ((holding s)(p := None)) q"
      using p own(2) by (cases "q = p") (simp_all add: holding_def S)
  qed
  have o: "ports.owned (holding ?t) (sv_portManager ?t)"
    unfolding h S(4) by (rule ports.owned_release) (use D(3) own in auto)
  have "inj_on (holding s) (dom (holding s))" using D(3) by (simp add: ports.owned_def)
  then have u: "usedPorts (sv_portManager ?t) = ran (holding ?t)"
    unfolding h S(4) using own(1) by (simp add: ports.used_release D(4) ran_without)
  have sid: "se_sid (session_at s q) \<noteq> se_sid ?x" if "q < length (sv_heap s)" "live (session_at s q)" "q \<noteq> p" for q
    using that D(5) [of q] own(2) by auto
  have t: "sv_sessions ?t i = Some q \<Longrightarrow> q < length (sv_heap s) \<and> se_sid (session_at ?t q) = i" for i q
    using D(1,2) by (cases "i = se_sid ?x") (auto simp: S p)
  have l: "q < length (sv_heap s) \<Longrightarrow> live (session_at ?t q) \<Longrightarrow> sv_sessions ?t (se_sid (session_at ?t q)) = Some q" for q
    using D(5) [of q] sid [of q] by (cases "q = p") (simp_all add: S p)
  have a: "q < length (sv_heap s) \<Longrightarrow> se_isActive (session_at ?t q) \<Longrightarrow> live (session_at ?t q)" for q
    using D(6) [of q] by (cases "q = p") (simp_all add: S p)
  show ?thesis
    unfolding sessions_ok_def S(1) using o u t l a by blast
qed (simp add: stopSession_inactive ok)

lemma startSession_length [simp]: "length (sv_heap (snd (startSession listen now p s))) = length (sv_heap s)"
  by (simp add: startSession_def Let_def)

lemma stopSession_length [simp]: "length (sv_heap (stopSession p s)) = length (sv_heap s)"
  by (cases "se_isActive (session_at s p)") (simp_all add: stopSession_inactive stopSession_active)

text \<open>What a packet never changes.\<close>

definition same_session :: "TestSession \<Rightarrow> TestSession \<Rightarrow> bool" where
  "same_session x y \<longleftrightarrow> se_sid x = se_sid y \<and> se_reflectorPort x = se_reflectorPort y \<and>
     se_stopChan x = se_stopChan y \<and> se_isActive x = se_isActive y \<and> se_mode x = se_mode y \<and>
     se_sessionKeys x = se_sessionKeys y"

lemma same_session_updates:
  "same_session (note_sender addr x) x"
  "same_session (record_success now x) x"
  "same_session (record_hmac_failure now x) x"
  by (simp_all add: same_session_def note_sender_def record_success_def record_hmac_failure_def
      split: option.split)

lemma same_session_trans: "same_session x y \<Longrightarrow> same_session y z \<Longrightarrow> same_session x z"
  by (simp add: same_session_def)

lemma reflect_iteration_cases:
  assumes "reflect_iteration rnd send d addr ttl rx tx now s = (out, s')"
  shows "s' \<in> {note_sender addr s, record_success now (note_sender addr s),
    record_hmac_failure now (note_sender addr s)}"
proof (cases "processAndReflect rnd send (note_sender addr s) (take MaxTWAMPPacketSize d) addr
    (case ttl of Some t \<Rightarrow> t | None \<Rightarrow> 255) rx tx")
  case (Inl e)
  then show ?thesis using assms
    by (cases e) (simp_all add: reflect_iteration_def Let_def split: if_splits)
next
  case (Inr b)
  then show ?thesis using assms by (simp add: reflect_iteration_def Let_def)
qed

lemma reflect_iteration_frame:
  assumes "reflect_iteration rnd send d addr ttl rx tx now s = (out, s')"
  shows "same_session s' s"
  using reflect_iteration_cases [OF assms] same_session_updates same_session_trans by blast

lemma sessions_ok_same:
  assumes "sessions_ok s" and "same_session x (session_at s p)"
  shows "sessions_ok (put_session p x s)"
proof (cases "p < length (sv_heap s)")
  case True
  then have "se_isActive (session_at s p) \<Longrightarrow> live (session_at s p)"
    using sessions_okD(6) [OF assms(1)] by blast
  then show ?thesis
    using assms by (intro sessions_ok_put) (auto simp: same_session_def live_def)
qed (simp add: assms(1))

lemma reflectPackets_round_ok:
  assumes "sessions_ok s" and "p < length (sv_heap s)"
  shows "sessions_ok (snd (reflectPackets_round rnd send now r p s))"
proof (cases r)
  case (Read_Packet a)
  obtain out x where it: "reflect_iteration rnd send (ar_datagram a) (ar_addr a) (ar_ttl a) (ar_rx a)
      (ar_tx a) (ar_now a) (session_at s p) = (out, x)" by fastforce
  have "sessions_ok (put_session p x s)"
    using assms(1) reflect_iteration_frame [OF it] by (rule sessions_ok_same)
  then show ?thesis
    using assms stopSession_ok [of "put_session p x s" p] Read_Packet it
    by (cases out) (simp_all add: reflectPackets_round_def Let_def)
qed (use assms stopSession_ok in \<open>auto simp: reflectPackets_round_def Let_def\<close>)

lemma reflectPackets_round_length [simp]:
  "length (sv_heap (snd (reflectPackets_round rnd send now r p s))) = length (sv_heap s)"
proof (cases r)
  case (Read_Packet a)
  obtain out x where "reflect_iteration rnd send (ar_datagram a) (ar_addr a) (ar_ttl a) (ar_rx a)
      (ar_tx a) (ar_now a) (session_at s p) = (out, x)" by fastforce
  then show ?thesis
    using Read_Packet by (cases out) (simp_all add: reflectPackets_round_def Let_def)
qed (auto simp: reflectPackets_round_def Let_def)

lemma reflector_exit_ok:
  assumes "sessions_ok s"
  shows "sessions_ok (snd (reflector_exit p s))"
  using assms
  by (cases "se_reflectorDone (session_at s p)")
    (simp_all add: reflector_exit_def Let_def sessions_ok_same same_session_def)

lemma reflector_exit_length [simp]: "length (sv_heap (snd (reflector_exit p s))) = length (sv_heap s)"
  by (cases "se_reflectorDone (session_at s p)") (simp_all add: reflector_exit_def Let_def)

lemma fold_stop_ok:
  assumes "sessions_ok s" and "\<forall>p \<in> set ps. p < length (sv_heap s)"
  shows "sessions_ok (fold stopSession ps s) \<and> length (sv_heap (fold stopSession ps s)) = length (sv_heap s)"
  using assms by (induction ps arbitrary: s) (simp_all add: stopSession_ok)

lemma set_pointers: "p \<in> set (pointers m order) \<longleftrightarrow> (\<exists>sid \<in> set order. m sid = Some p)"
  by (induction order) (auto simp: pointers_def List.map_filter_def)

lemma fire_timer_ok:
  assumes "sessions_ok s" and "i < length (sv_timers s)" and "snd (sv_timers s ! i) < length (sv_heap s)"
  shows "sessions_ok (fire_timer i s)"
  using assms by (simp add: fire_timer_def Let_def stopSession_ok)

text \<open>A new session with a port of its own and a new identifier.\<close>

lemma store_session_ok:
  assumes ok: "sessions_ok s" and alloc: "allocatePort free (sv_portManager s) = Some (Inr port, pm)"
    and new: "sv_sessions s sid = None"
    and x: "se_sid x = sid" "se_reflectorPort x = port" "live x"
  shows "sessions_ok (fst (store_session sid x (s\<lparr>sv_portManager := pm\<rparr>) cc))"
proof -
  note D = sessions_okD [OF ok]
  let ?n = "length (sv_heap s)" and ?t = "fst (store_session sid x (s\<lparr>sv_portManager := pm\<rparr>) cc)"
  have at: "session_at ?t q = (if q = ?n then x else session_at s q)" if "q \<le> ?n" for q
    using that by (simp add: store_session_def session_at_def nth_append Let_def)
  have tab: "sv_sessions ?t = (sv_sessions s)(sid \<mapsto> ?n)" "length (sv_heap ?t) = Suc ?n"
    "sv_portManager ?t = pm"
    by (simp_all add: store_session_def Let_def)
  have h: "holding ?t = (holding s)(?n \<mapsto> port)"
  proof
    fix q
    have "sid \<noteq> se_sid (session_at s q)" if "sv_sessions s (se_sid (session_at s q)) = Some q"
      using that new by auto
    then show "holding ?t q = ((holding s)(?n \<mapsto> port)) q"
      using x by (cases "q \<le> ?n") (auto simp: holding_def at tab less_Suc_eq_le)
  qed
  have fresh: "?n \<notin> dom (holding s)" by (auto simp: holding_def split: if_splits)
  have o: "ports.owned (holding ?t) (sv_portManager ?t)"
    unfolding h tab(3) using D(3) alloc fresh by (rule ports.owned_alloc)
  have "usedPorts pm = insert port (usedPorts (sv_portManager s))" using ports.alloc_new [OF alloc] by simp
  then have u: "usedPorts (sv_portManager ?t) = ran (holding ?t)"
    unfolding h tab(3) using fresh by (simp add: D(4) domIff)
  have t: "sv_sessions ?t i = Some q \<Longrightarrow> q < Suc ?n \<and> se_sid (session_at ?t q) = i" for i q
    using D(1,2) [of i q] x by (cases "i = sid") (auto simp: tab at less_Suc_eq_le)
  have l: "q < Suc ?n \<Longrightarrow> live (session_at ?t q) \<Longrightarrow> sv_sessions ?t (se_sid (session_at ?t q)) = Some q" for q
    using D(5) [of q] new x by (cases "q = ?n") (auto simp: tab at)
  have a: "q < Suc ?n \<Longrightarrow> se_isActive (session_at ?t q) \<Longrightarrow> live (session_at ?t q)" for q
    using D(6) [of q] x by (cases "q = ?n") (auto simp: at)
  show ?thesis unfolding sessions_ok_def tab(2) using o u t l a by blast
qed

end
