(* ===== verification/Server_Access.thy ===== *)
theory Server_Access
  imports Server_Sessions
begin

text \<open>
  Making a server (\<open>NewServer\<close>) and the access check for unauthenticated control connections
  (\<open>isUnauthReceiverAllowed\<close>) of \<open>server/server.go\<close>. A \<open>net.IP\<close> is its 4 or 16 bytes, empty for
  nil. \<open>net.ParseIP\<close> and \<open>net.ParseCIDR\<close> are arguments, with their result on a text. Entries of
  the allow list of addresses are compared in the code by their text, which \<open>net.IP.String\<close>
  makes from the normalised bytes, one text for each; here they are the bytes.
\<close>

section \<open>Addresses\<close>

definition v4InV6Prefix :: bytes where
  "v4InV6Prefix = zeros 10 @ [0xFF, 0xFF]"

definition IP_To4 :: "ip \<Rightarrow> ip" where
  "IP_To4 a =
     (if length a = 4 then a
      else if length a = 16 \<and> take 12 a = v4InV6Prefix then drop 12 a
      else [])"

definition IP_To16 :: "ip \<Rightarrow> ip" where
  "IP_To16 a =
     (if length a = 4 then v4InV6Prefix @ a
      else if length a = 16 then a else [])"

definition IP_Equal :: "ip \<Rightarrow> ip \<Rightarrow> bool" where
  "IP_Equal a b \<longleftrightarrow>
     (if length a = length b then a = b
      else if length a = 4 \<and> length b = 16 then take 12 b = v4InV6Prefix \<and> a = drop 12 b
      else if length a = 16 \<and> length b = 4 then take 12 a = v4InV6Prefix \<and> drop 12 a = b
      else False)"

definition IP_IsUnspecified :: "ip \<Rightarrow> bool" where
  "IP_IsUnspecified a \<longleftrightarrow> IP_Equal a (v4InV6Prefix @ zeros 4) \<or> IP_Equal a (zeros 16)"

text \<open>\<open>IPNet.Contains\<close>, with the mask of the network.\<close>

definition IPNet_Contains :: "ip \<times> bytes \<Rightarrow> ip \<Rightarrow> bool" where
  "IPNet_Contains n a =
     (let (nn, m) = n;
          a = (if IP_To4 a \<noteq> [] then IP_To4 a else a)
      in length a = length nn \<and> list_all (\<lambda>i. nn ! i AND m ! i = a ! i AND m ! i) [0 ..< length a])"

definition normalizeIP :: "ip \<Rightarrow> ip" where
  "normalizeIP a =
     (if a = [] then [] else if IP_To4 a \<noteq> [] then IP_To4 a else IP_To16 a)"

section \<open>Making a server\<close>

fun parseAllowCIDRs ::
    "(string \<Rightarrow> (ip \<times> bytes) option) \<Rightarrow> string list \<Rightarrow> (ip \<times> bytes) list res" where
  "parseAllowCIDRs parse [] = Inr []"
| "parseAllowCIDRs parse (cidr # cidrs) =
     (case parse cidr of
        None \<Rightarrow> Inl (Wrap ''%w: %s'' [ErrInvalidReceiverAddress])
      | Some ipNet \<Rightarrow>
         (case parseAllowCIDRs parse cidrs of Inl e \<Rightarrow> Inl e | Inr parsed \<Rightarrow> Inr (ipNet # parsed)))"

fun parseAllowIPs :: "(string \<Rightarrow> ip) \<Rightarrow> string list \<Rightarrow> ip list res" where
  "parseAllowIPs parse [] = Inr []"
| "parseAllowIPs parse (entry # entries) =
     (if parse entry = [] then Inl (Wrap ''%w: %s'' [ErrInvalidReceiverAddress])
      else
        (let a = (if IP_To4 (parse entry) \<noteq> [] then IP_To4 (parse entry) else parse entry) in
         case parseAllowIPs parse entries of Inl e \<Rightarrow> Inl e | Inr parsed \<Rightarrow> Inr (a # parsed)))"

abbreviation DefaultSERVWAIT :: int where "DefaultSERVWAIT \<equiv> 900 * time_Second"
abbreviation DefaultREFWAIT :: int where "DefaultREFWAIT \<equiv> 900 * time_Second"

definition NewServer ::
    "(string \<Rightarrow> (ip \<times> bytes) option) \<Rightarrow> (string \<Rightarrow> ip) \<Rightarrow> ServerConfig \<Rightarrow> u16 \<times> u16 \<Rightarrow>
     string list \<Rightarrow> string list \<Rightarrow> Server res" where
  "NewServer parse_cidr parse_ip config portRange allowlistCIDRs allowlistIPs =
     (let config = (if cf_SERVWAIT config = 0 then config\<lparr>cf_SERVWAIT := DefaultSERVWAIT\<rparr> else config);
          config = (if cf_REFWAIT config = 0 then config\<lparr>cf_REFWAIT := DefaultREFWAIT\<rparr> else config)
      in if cf_SupportedModes config AND reservedModeBit14 \<noteq> 0
         then Inl (Wrap ''%w: reserved mode bit 14 not supported'' [ErrInvalidModeCombo])
         else
           (case newPortManager (fst portRange) (snd portRange) of
              Inl e \<Rightarrow> Inl (Wrap ''failed to create port manager'' [e])
            | Inr pm \<Rightarrow>
               (case parseAllowCIDRs parse_cidr allowlistCIDRs of
                  Inl e \<Rightarrow> Inl e
                | Inr cidrs \<Rightarrow>
                   (case parseAllowIPs parse_ip allowlistIPs of
                      Inl e \<Rightarrow> Inl e
                    | Inr ips \<Rightarrow>
                        Inr \<lparr>sv_config = config, sv_sessions = Map.empty, sv_portManager = pm,
                             sv_unauthAllowCIDRs = cidrs, sv_unauthAllowIPs = ips,
                             sv_heap = [], sv_timers = [], sv_running = []\<rparr>))))"

section \<open>Who may be a receiver\<close>

definition receiverIP :: "RequestTWSession \<Rightarrow> ip" where
  "receiverIP request =
     (if rts_IPVN request = 4 then normalizeIP (take 4 (rts_ReceiverAddress request))
      else if rts_IPVN request = 6 then normalizeIP (rts_ReceiverAddress request)
      else [])"

text \<open>\<open>interfaces\<close>: the addresses of \<open>net.InterfaceAddrs\<close>, None for its error.\<close>

definition isLocalIP :: "ip list option \<Rightarrow> ip \<Rightarrow> bool" where
  "isLocalIP interfaces a =
     (let a = normalizeIP a in
      if a = [] then False
      else (case interfaces of
              None \<Rightarrow> False
            | Some addrs \<Rightarrow> list_ex (\<lambda>v. IP_Equal (normalizeIP v) a) addrs))"

definition isAllowlisted :: "Server \<Rightarrow> ip \<Rightarrow> bool" where
  "isAllowlisted s a =
     (let a = normalizeIP a in
      if a = [] then False
      else if List.member (sv_unauthAllowIPs s) a then True
      else list_ex (\<lambda>cidr. IPNet_Contains cidr a) (sv_unauthAllowCIDRs s))"

definition isUnauthReceiverAllowed ::
    "ip list option \<Rightarrow> Server \<Rightarrow> controlConnection \<Rightarrow> RequestTWSession \<Rightarrow> bool" where
  "isUnauthReceiverAllowed interfaces s cc request =
     (let receiver = receiverIP request in
      if receiver = [] then False
      else
        (let unspecified = IP_IsUnspecified receiver;
             receiver = (if unspecified then normalizeIP (cc_LocalAddr cc) else receiver) in
         if unspecified \<and> (receiver = [] \<or> IP_IsUnspecified receiver) then False
         else
           (let peerAddr = cc_RemoteAddr cc in
            if peerAddr \<noteq> [] \<and> IP_Equal (normalizeIP peerAddr) receiver then True
            else if isLocalIP interfaces receiver then True
            else if isAllowlisted s receiver then True
            else False)))"

definition maxSenderPadding :: "mode \<Rightarrow> u32" where
  "maxSenderPadding testMode =
     (let baseSize = (if testMode AND (ModeAuthenticated OR ModeEncrypted) \<noteq> 0 then 48 else 14) in
      if MaxTWAMPPacketSize \<le> baseSize then 0 else of_nat (MaxTWAMPPacketSize - baseSize))"

section \<open>Lemmas\<close>

lemma length_v4InV6Prefix [simp]: "length v4InV6Prefix = 12"
  by (simp add: v4InV6Prefix_def)

lemma length_To4: "length (IP_To4 a) \<in> {0, 4}"
  by (simp add: IP_To4_def)

lemma normalizeIP_length: "length (normalizeIP a) \<in> {0, 4, 16}"
  using length_To4 [of a] by (auto simp: normalizeIP_def IP_To16_def)

text \<open>On normalised addresses \<open>Equal\<close> is equality: no normalised address is a mapped one.\<close>

lemma normalizeIP_unmapped: "length (normalizeIP a) = 16 \<Longrightarrow> take 12 (normalizeIP a) \<noteq> v4InV6Prefix"
  by (auto simp: normalizeIP_def IP_To16_def IP_To4_def split: if_splits)

lemma IP_Equal_normalized: "IP_Equal (normalizeIP a) (normalizeIP b) \<longleftrightarrow> normalizeIP a = normalizeIP b"
  using normalizeIP_unmapped [of a] normalizeIP_unmapped [of b] by (auto simp: IP_Equal_def)

lemma normalizeIP_idem [simp]: "normalizeIP (normalizeIP a) = normalizeIP a"
proof (cases "length (normalizeIP a) = 16")
  case True
  then show ?thesis
    using normalizeIP_unmapped [OF True] by (auto simp: normalizeIP_def [of "normalizeIP a"] IP_To4_def IP_To16_def)
next
  case False
  then have "length (normalizeIP a) \<in> {0, 4}" using normalizeIP_length [of a] by auto
  then show ?thesis by (auto simp: normalizeIP_def [of "normalizeIP a"] IP_To4_def)
qed

end
