(* ===== verification/Server_Control.thy ===== *)
theory Server_Control
  imports Server_Access
begin

text \<open>
  The control connection of \<open>server/server.go\<close>: greeting, setup, reading a command, the handler of
  each command, and the replies. A handler takes the server and the connection and returns its
  error with both as it leaves them; \<open>None\<close> is the port search that never ends. Metrics and
  logging are left out. The environment of one handler call is the record below.
\<close>

section \<open>Environment\<close>

text \<open>
  The clock, as nanoseconds and as calendar time; the \<open>i\<close>-th read of the random source; the key
  derivation function (PBKDF2); the ports that can be listened on when a port is searched and when
  a session is started; the interface addresses; the order in which a map of sessions is ranged
  over; and the result of writing to the connection.
\<close>

record control_env =
  ev_now :: int
  ev_time :: go_time
  ev_random :: "nat \<Rightarrow> random_source"
  ev_kdf :: "bytes \<Rightarrow> bytes \<Rightarrow> nat \<Rightarrow> bytes"
  ev_free :: "u16 \<Rightarrow> bool"
  ev_listen :: "u16 \<Rightarrow> bool"
  ev_interfaces :: "ip list option"
  ev_order :: "session_id list"
  ev_write :: "bytes \<Rightarrow> unit res"

definition new_connection :: "int \<Rightarrow> ip \<Rightarrow> ip \<Rightarrow> bytes \<Rightarrow> controlConnection" where
  "new_connection now laddr raddr input =
     \<lparr>cc_mode = 0, cc_controlMode = 0, cc_testMode = 0, cc_keyDerivation = None,
      cc_controlEncrypt = None, cc_controlDecrypt = None, cc_serverStartBytes = [],
      cc_serverStartHMACPending = False, cc_sessions = Map.empty, cc_lastActivity = now,
      cc_greeting = None, cc_LocalAddr = laddr, cc_RemoteAddr = raddr, cc_in = input, cc_out = []\<rparr>"

definition controlRequiresAuthentication :: "mode \<Rightarrow> bool" where
  "controlRequiresAuthentication controlMode \<longleftrightarrow> controlMode AND securityMask \<noteq> ModeUnauthenticated"

definition conn_Write :: "control_env \<Rightarrow> bytes \<Rightarrow> controlConnection \<Rightarrow> unit res \<times> controlConnection" where
  "conn_Write env b cc =
     (case ev_write env b of
        Inl e \<Rightarrow> (Inl e, cc)
      | Inr _ \<Rightarrow> (Inr (), cc\<lparr>cc_out := cc_out cc @ [b]\<rparr>))"

text \<open>\<open>io.ReadFull\<close> of \<open>n\<close> bytes; a short read uses up what there is.\<close>

definition conn_ReadFull :: "nat \<Rightarrow> controlConnection \<Rightarrow> bytes res \<times> controlConnection" where
  "conn_ReadFull n cc =
     (if n \<le> length (cc_in cc)
      then (Inr (take n (cc_in cc)), cc\<lparr>cc_in := drop n (cc_in cc)\<rparr>)
      else (Inl (IOError ''EOF''), cc\<lparr>cc_in := []\<rparr>))"

section \<open>Greeting and setup\<close>

definition sendServerGreeting ::
    "control_env \<Rightarrow> Server \<Rightarrow> controlConnection \<Rightarrow> unit res \<times> controlConnection" where
  "sendServerGreeting env s cc =
     (let greeting = ServerGreeting_zero\<lparr>sg_Modes :=
            cf_SupportedModes (sv_config s) AND NOT reservedModeBit14\<rparr>
      in case ev_random env 0 16 of
           Inl e \<Rightarrow> (Inl (Wrap ''failed to generate challenge'' [e]), cc)
         | Inr challenge \<Rightarrow>
            (case ev_random env 1 16 of
               Inl e \<Rightarrow> (Inl (Wrap ''failed to generate salt'' [e]), cc)
             | Inr salt \<Rightarrow>
                (let greeting = greeting\<lparr>sg_Challenge := challenge, sg_Salt := salt, sg_Count := 1024\<rparr>
                 in case ServerGreeting_Marshal greeting of
                      Inl e \<Rightarrow> (Inl (Wrap ''failed to marshal greeting'' [e]), cc)
                    | Inr data \<Rightarrow>
                       (case conn_Write env data (cc\<lparr>cc_greeting := Some greeting\<rparr>) of
                          (Inl e, cc) \<Rightarrow> (Inl (Wrap ''failed to send greeting'' [e]), cc)
                        | (Inr _, cc) \<Rightarrow> (Inr (), cc)))))"

text \<open>The key identifier: up to the first zero byte, and nothing at all when there is none.\<close>

definition keyID_of :: "bytes \<Rightarrow> bytes" where
  "keyID_of keyID = (if List.member keyID 0 then takeWhile (\<lambda>b. b \<noteq> 0) keyID else [])"

text \<open>Authentication in a secure control mode: the new key material, or the error.\<close>

definition setup_keys ::
    "control_env \<Rightarrow> Server \<Rightarrow> controlConnection \<Rightarrow> SetupResponse \<Rightarrow> (TWAMPKeys \<times> CBCStream \<times> CBCStream) res" where
  "setup_keys env s cc setupResponse =
     (case cf_SecretMap (sv_config s) (keyID_of (sr_KeyID setupResponse)) of
        None \<Rightarrow> Inl (Wrap ''%w: %s'' [ErrUnknownKeyID])
      | Some sharedSecret \<Rightarrow>
     (case cc_greeting cc of
        None \<Rightarrow> Inl ErrMissingGreeting
      | Some greeting \<Rightarrow>
     (case DeriveKey (ev_kdf env) sharedSecret (sg_Salt greeting) (sg_Count greeting) of
        Inl e \<Rightarrow> Inl (Wrap ''failed to derive keys'' [e])
      | Inr (aesKey, hmacKey) \<Rightarrow>
     (case DecryptToken (sr_Token setupResponse) (sg_Challenge greeting) of
        Inl e \<Rightarrow> Inl (Wrap ''%w (token): %v'' [ErrDecryptFailed])
      | Inr tokenContents \<Rightarrow>
     (if tc_Challenge tokenContents \<noteq> sg_Challenge greeting
      then Inl (Errorf ''challenge mismatch in token'')
      else
     (case ev_random env 0 16 of
        Inl e \<Rightarrow> Inl (Wrap ''failed to generate server IV'' [e])
      | Inr serverIV \<Rightarrow>
     (let keys = \<lparr>AESKey = aesKey, HMACKey = hmacKey, TestAESKey = [], TestHMACKey = [],
                  ClientIV = sr_ClientIV setupResponse, ServerIV = serverIV\<rparr>
      in case NewCBCStream (AESKey keys) (ServerIV keys) of
           Inl e \<Rightarrow> Inl (Wrap ''failed to init control encrypt stream'' [e])
         | Inr controlEncrypt \<Rightarrow>
        (case NewCBCStream (AESKey keys) (ClientIV keys) of
           Inl e \<Rightarrow> Inl (Wrap ''failed to init control decrypt stream'' [e])
         | Inr controlDecrypt \<Rightarrow> Inr (keys, controlEncrypt, controlDecrypt)))))))))"

definition send_ServerStart ::
    "control_env \<Rightarrow> bytes \<Rightarrow> controlConnection \<Rightarrow> unit res \<times> controlConnection" where
  "send_ServerStart env serverIV cc =
     (let serverStart = ServerStart_zero\<lparr>sst_Accept := AcceptOK, sst_ServerIV := serverIV,
            sst_StartTime := FromTime (ev_time env)\<rparr>
      in case ServerStart_Marshal serverStart of
           Inl e \<Rightarrow> (Inl (Wrap ''failed to marshal Server-Start'' [e]), cc)
         | Inr data \<Rightarrow>
            (let cc = cc\<lparr>cc_serverStartBytes := data,
                   cc_serverStartHMACPending := controlRequiresAuthentication (cc_controlMode cc)\<rparr>
             in case conn_Write env data cc of
                  (Inl e, cc) \<Rightarrow> (Inl (Wrap ''failed to send Server-Start'' [e]), cc)
                | (Inr _, cc) \<Rightarrow> (Inr (), cc)))"

definition handleClientSetup ::
    "control_env \<Rightarrow> Server \<Rightarrow> controlConnection \<Rightarrow> unit res \<times> controlConnection" where
  "handleClientSetup env s cc =
     (case conn_ReadFull 164 cc of
        (Inl e, cc) \<Rightarrow> (Inl (Wrap ''failed to read setup response'' [e]), cc)
      | (Inr buf, cc) \<Rightarrow>
     (case SetupResponse_Unmarshal SetupResponse_zero buf of
        Inl e \<Rightarrow> (Inl (Wrap ''%w (setup response): %v'' [ErrUnmarshalFailed]), cc)
      | Inr setupResponse \<Rightarrow>
     (let requestedMode = sr_Mode setupResponse in
      if requestedMode = 0 then (Inl ErrClientTerminatedConnection, cc)
      else if ValidateRequestedMode requestedMode \<noteq> Inr ()
      then (Inl (Wrap ''%w: %d'' [ErrInvalidModeCombo]), cc)
      else if requestedMode AND cf_SupportedModes (sv_config s) = 0
      then (Inl (Wrap ''%w: %d'' [ErrUnsupportedMode]), cc)
      else
     (let cc = cc\<lparr>cc_mode := requestedMode\<rparr> in
      case ResolveMixedModes requestedMode of
        Inl e \<Rightarrow> (Inl (Wrap ''%w: %w'' [ErrInvalidModeCombo, e]), cc\<lparr>cc_controlMode := 0, cc_testMode := 0\<rparr>)
      | Inr (controlMode, testMode) \<Rightarrow>
     (let cc = cc\<lparr>cc_controlMode := controlMode, cc_testMode := testMode\<rparr> in
      if controlRequiresAuthentication controlMode
      then
        (case setup_keys env s cc setupResponse of
           Inl e \<Rightarrow> (Inl e, cc)
         | Inr (keys, controlEncrypt, controlDecrypt) \<Rightarrow>
             send_ServerStart env (ServerIV keys)
               (cc\<lparr>cc_keyDerivation := Some keys, cc_controlEncrypt := Some controlEncrypt,
                   cc_controlDecrypt := Some controlDecrypt\<rparr>))
      else
        (case ev_random env 0 16 of
           Inl e \<Rightarrow> (Inl (Wrap ''failed to generate server IV'' [e]), cc)
         | Inr serverIV \<Rightarrow> send_ServerStart env serverIV cc))))))"

section \<open>Reading a command\<close>

text \<open>\<open>int\<close> has 64 bits on the platforms the code names, so the comparison with \<open>math.MaxInt\<close>
  never fails: the length of a Stop-N-Sessions command is below \<open>2 ^ 37\<close>.\<close>

definition controlCommandLength :: "u8 \<Rightarrow> bytes \<Rightarrow> nat res" where
  "controlCommandLength cmd header =
     (if cmd = CmdRequestTWSession then Inr RequestTWSessionSize
      else if cmd = CmdStartSessions then Inr StartSessionsSize
      else if cmd = CmdStopSessions then Inr StopSessionsSize
      else if cmd = CmdStopNSessions then
        (if length header < 8 then Inl ErrInvalidMessageLength
         else
           (let numSessions = rd32 (seg 4 8 header);
                cmdLength64 = 16 + unat numSessions * 16 + 16
            in if 2 ^ 63 - 1 < cmdLength64 then Inl ErrInvalidMessageLength else Inr cmdLength64))
      else if cmd = CmdRequestTWSessionIndividual then Inr RequestTWSessionSize
      else Inl (Wrap ''%w: %d'' [ErrUnknownCommand]))"

definition readPlainCommand :: "controlConnection \<Rightarrow> bytes res \<times> controlConnection" where
  "readPlainCommand cc =
     (case conn_ReadFull 1 cc of
        (Inl e, cc) \<Rightarrow> (Inl e, cc)
      | (Inr header, cc) \<Rightarrow>
         if header ! 0 = CmdStopNSessions then
           (case conn_ReadFull 15 cc of
              (Inl e, cc) \<Rightarrow> (Inl e, cc)
            | (Inr rest, cc) \<Rightarrow>
               (let baseHeader = header @ rest in
                case controlCommandLength (header ! 0) baseHeader of
                  Inl e \<Rightarrow> (Inl e, cc)
                | Inr cmdLength \<Rightarrow>
                   (if 16 < cmdLength then
                      (case conn_ReadFull (cmdLength - 16) cc of
                         (Inl e, cc) \<Rightarrow> (Inl e, cc)
                       | (Inr body, cc) \<Rightarrow> (Inr (baseHeader @ body), cc))
                    else (Inr (take cmdLength baseHeader), cc))))
         else
           (case controlCommandLength (header ! 0) [] of
              Inl e \<Rightarrow> (Inl e, cc)
            | Inr cmdLength \<Rightarrow>
               (case conn_ReadFull (cmdLength - 1) cc of
                  (Inl e, cc) \<Rightarrow> (Inl e, cc)
                | (Inr body, cc) \<Rightarrow> (Inr (header @ body), cc))))"

definition stream_Decrypt :: "bytes \<Rightarrow> controlConnection \<Rightarrow> bytes res \<times> controlConnection" where
  "stream_Decrypt b cc =
     (case cc_controlDecrypt cc of
        None \<Rightarrow> (Inl (Panic ''nil pointer dereference''), cc)
      | Some stream \<Rightarrow>
         (case CBCStream_Decrypt stream b of
            (r, stream) \<Rightarrow> (r, cc\<lparr>cc_controlDecrypt := Some stream\<rparr>)))"

definition check_command_hmac :: "controlConnection \<Rightarrow> bytes \<Rightarrow> bytes res" where
  "check_command_hmac cc cmd =
     (let messageEnd = length cmd - 16 in
      case cc_keyDerivation cc of
        None \<Rightarrow> Inl (Panic ''nil pointer dereference'')
      | Some keys \<Rightarrow>
         (case VerifyHMAC (HMACKey keys) (take messageEnd cmd) (drop messageEnd cmd) of
            Inl e \<Rightarrow> Inl e
          | Inr valid \<Rightarrow> if \<not> valid then Inl ErrHMACVerificationFailed else Inr cmd))"

definition readEncryptedCommand :: "controlConnection \<Rightarrow> bytes res \<times> controlConnection" where
  "readEncryptedCommand cc =
     (if cc_controlDecrypt cc = None then (Inl (Errorf ''control decryption not initialized''), cc)
      else
     (case conn_ReadFull 16 cc of
        (Inl e, cc) \<Rightarrow> (Inl e, cc)
      | (Inr firstCipher, cc) \<Rightarrow>
     (case stream_Decrypt firstCipher cc of
        (Inl e, cc) \<Rightarrow> (Inl e, cc)
      | (Inr firstPlain, cc) \<Rightarrow>
     (case controlCommandLength (firstPlain ! 0) firstPlain of
        Inl e \<Rightarrow> (Inl e, cc)
      | Inr cmdLength \<Rightarrow>
      if cmdLength mod 16 \<noteq> 0 then (Inl ErrInvalidMessageLength, cc)
      else
     (let remaining = int cmdLength - int (length firstPlain) in
      if 0 < remaining then
        (case conn_ReadFull (nat remaining) cc of
           (Inl e, cc) \<Rightarrow> (Inl e, cc)
         | (Inr restCipher, cc) \<Rightarrow>
        (case stream_Decrypt restCipher cc of
           (Inl e, cc) \<Rightarrow> (Inl e, cc)
         | (Inr restPlain, cc) \<Rightarrow> (check_command_hmac cc (firstPlain @ restPlain), cc)))
      else (check_command_hmac cc (take cmdLength firstPlain), cc))))))"

definition readCommand :: "controlConnection \<Rightarrow> bytes res \<times> controlConnection" where
  "readCommand cc =
     (if controlRequiresAuthentication (cc_controlMode cc) then readEncryptedCommand cc
      else readPlainCommand cc)"

section \<open>Replies\<close>

definition sendControlMessage ::
    "control_env \<Rightarrow> bytes \<Rightarrow> bytes \<Rightarrow> controlConnection \<Rightarrow> unit res \<times> controlConnection" where
  "sendControlMessage env message hmacPrefix cc =
     (if length message < 16 then (Inl ErrInvalidMessageLength, cc)
      else if controlRequiresAuthentication (cc_controlMode cc) then
        (case cc_controlEncrypt cc of
           None \<Rightarrow> (Inl (Errorf ''control encryption not initialized''), cc)
         | Some stream \<Rightarrow>
            (let messageLen = length message - 16 in
             case cc_keyDerivation cc of
               None \<Rightarrow> (Inl (Panic ''nil pointer dereference''), cc)
             | Some keys \<Rightarrow>
                (case CalculateHMACWithPrefix (HMACKey keys) hmacPrefix (take messageLen message) of
                   Inl e \<Rightarrow> (Inl (Wrap ''failed to calculate HMAC'' [e]), cc)
                 | Inr hmac \<Rightarrow>
                    (case CBCStream_Encrypt stream (copy_at message messageLen (length message) hmac) of
                       (Inl e, stream) \<Rightarrow>
                         (Inl (Wrap ''failed to encrypt control message'' [e]),
                          cc\<lparr>cc_controlEncrypt := Some stream\<rparr>)
                     | (Inr encrypted, stream) \<Rightarrow>
                         conn_Write env encrypted (cc\<lparr>cc_controlEncrypt := Some stream\<rparr>)))))
      else conn_Write env (take (length message - 16) message @ zeros 16) cc)"

text \<open>The first reply after Server-Start covers that message with its HMAC too.\<close>

definition send_reply ::
    "control_env \<Rightarrow> string \<Rightarrow> bytes res \<Rightarrow> controlConnection \<Rightarrow> unit res \<times> controlConnection" where
  "send_reply env name marshalled cc =
     (case marshalled of
        Inl e \<Rightarrow> (Inl (Wrap (''failed to marshal '' @ name) [e]), cc)
      | Inr data \<Rightarrow>
         (let usePrefix = (controlRequiresAuthentication (cc_controlMode cc) \<and> cc_serverStartHMACPending cc);
              hmacPrefix = (if usePrefix then cc_serverStartBytes cc else [])
          in case sendControlMessage env data hmacPrefix cc of
               (Inl e, cc) \<Rightarrow> (Inl (wrap_err (''failed to send '' @ name) e), cc)
             | (Inr _, cc) \<Rightarrow>
                 (Inr (), if usePrefix then cc\<lparr>cc_serverStartHMACPending := False\<rparr> else cc)))"

definition sendAcceptSession ::
    "control_env \<Rightarrow> u8 \<Rightarrow> u16 \<Rightarrow> session_id \<Rightarrow> controlConnection \<Rightarrow> unit res \<times> controlConnection" where
  "sendAcceptSession env acceptCode port sid cc =
     send_reply env ''Accept-Session''
       (AcceptSession_Marshal
          (AcceptSession_zero\<lparr>as_Accept := acceptCode, as_Port := port, as_SID := sid\<rparr>) False) cc"

definition sendStartAck :: "control_env \<Rightarrow> u8 \<Rightarrow> controlConnection \<Rightarrow> unit res \<times> controlConnection" where
  "sendStartAck env acceptCode cc =
     send_reply env ''Start-Ack''
       (StartAck_Marshal (StartAck_zero\<lparr>sa_Accept := acceptCode\<rparr>) False) cc"

section \<open>Handlers\<close>

type_synonym handled = "(unit res \<times> Server \<times> controlConnection) option"

definition answer :: "Server \<Rightarrow> unit res \<times> controlConnection \<Rightarrow> handled" where
  "answer s r = Some (fst r, s, snd r)"

definition refuse :: "control_env \<Rightarrow> u8 \<Rightarrow> Server \<Rightarrow> controlConnection \<Rightarrow> handled" where
  "refuse env acceptCode s cc = answer s (sendAcceptSession env acceptCode 0 zeroSID cc)"

text \<open>The checks both request handlers make before they look for a port.\<close>

definition request_refused :: "control_env \<Rightarrow> Server \<Rightarrow> controlConnection \<Rightarrow> RequestTWSession \<Rightarrow> bool" where
  "request_refused env s cc request \<longleftrightarrow>
     rts_ConfSender request \<noteq> 0 \<or> rts_ConfReceiver request \<noteq> 0 \<or>
     \<not> controlRequiresAuthentication (cc_controlMode cc) \<and>
       \<not> isUnauthReceiverAllowed (ev_interfaces env) s cc request \<or>
     maxSenderPadding (cc_testMode cc) < rts_PaddingLength request"

text \<open>Making, storing and announcing the session, once it has a port and an identifier.\<close>

definition accept_session ::
    "control_env \<Rightarrow> RequestTWSession \<Rightarrow> session_id \<Rightarrow> u16 \<Rightarrow> Server \<Rightarrow> controlConnection \<Rightarrow> handled" where
  "accept_session env request sid reflectorPort s cc =
     (case make_session s cc request sid reflectorPort of
        Inl e \<Rightarrow> Some (Inl e, s\<lparr>sv_portManager := releasePort (sv_portManager s) reflectorPort\<rparr>, cc)
      | Inr session \<Rightarrow>
         (case store_session sid session s cc of
            (s, cc) \<Rightarrow> answer s (sendAcceptSession env AcceptOK reflectorPort sid cc)))"

definition handleRequestTWSession :: "control_env \<Rightarrow> Server \<Rightarrow> controlConnection \<Rightarrow> bytes \<Rightarrow> handled" where
  "handleRequestTWSession env s cc cmdData =
     (case RequestTWSession_Unmarshal RequestTWSession_zero cmdData
             (controlRequiresAuthentication (cc_controlMode cc)) of
        Inl e \<Rightarrow> Some (Inl (Wrap ''%w (Request-TW-Session): %v'' [ErrUnmarshalFailed]), s, cc)
      | Inr request \<Rightarrow>
         if \<not> SessionID_IsZero (rts_SID request) then refuse env AcceptNotSupported s cc
         else if request_refused env s cc request then refuse env AcceptNotSupported s cc
         else
           (case allocatePort (ev_free env) (sv_portManager s) of
              None \<Rightarrow> None
            | Some (Inl e, pm) \<Rightarrow> refuse env AcceptTempResLimited (s\<lparr>sv_portManager := pm\<rparr>) cc
            | Some (Inr reflectorPort, pm) \<Rightarrow>
               (let s = s\<lparr>sv_portManager := pm\<rparr> in
                case ev_random env 0 16 of
                  Inl e \<Rightarrow> Some (Inl (Wrap ''failed to generate SID'' [e]),
                    s\<lparr>sv_portManager := releasePort pm reflectorPort\<rparr>, cc)
                | Inr sid \<Rightarrow> accept_session env request sid reflectorPort s cc)))"

definition handleRequestTWSessionIndividual ::
    "control_env \<Rightarrow> Server \<Rightarrow> controlConnection \<Rightarrow> bytes \<Rightarrow> handled" where
  "handleRequestTWSessionIndividual env s cc cmdData =
     (case RequestTWSessionIndividual_Unmarshal RequestTWSession_zero cmdData
             (controlRequiresAuthentication (cc_controlMode cc)) of
        Inl e \<Rightarrow> Some (Inl (Wrap ''%w (Request-TW-Session-Individual): %v'' [ErrUnmarshalFailed]), s, cc)
      | Inr request \<Rightarrow>
         if request_refused env s cc request then refuse env AcceptNotSupported s cc
         else
           (case allocatePort (ev_free env) (sv_portManager s) of
              None \<Rightarrow> None
            | Some (Inl e, pm) \<Rightarrow> refuse env AcceptTempResLimited (s\<lparr>sv_portManager := pm\<rparr>) cc
            | Some (Inr reflectorPort, pm) \<Rightarrow>
               (let s = s\<lparr>sv_portManager := pm\<rparr>;
                    sid = rts_SID request
                in if sv_sessions s sid \<noteq> None
                   then refuse env AcceptFailure
                     (s\<lparr>sv_portManager := releasePort pm reflectorPort\<rparr>) cc
                   else accept_session env request sid reflectorPort s cc)))"

fun start_all :: "control_env \<Rightarrow> nat list \<Rightarrow> Server \<Rightarrow> unit res \<times> Server" where
  "start_all env [] s = (Inr (), s)"
| "start_all env (p # ps) s =
     (case startSession (ev_listen env) (ev_now env) p s of
        (Inl e, s) \<Rightarrow> (Inl e, s)
      | (Inr _, s) \<Rightarrow> start_all env ps s)"

definition handleStartSessions :: "control_env \<Rightarrow> Server \<Rightarrow> controlConnection \<Rightarrow> bytes \<Rightarrow> handled" where
  "handleStartSessions env s cc cmdData =
     (case StartSessions_Unmarshal StartSessions_zero cmdData
             (controlRequiresAuthentication (cc_controlMode cc)) of
        Inl e \<Rightarrow> Some (Inl (Wrap ''%w (Start-Sessions): %v'' [ErrUnmarshalFailed]), s, cc)
      | Inr _ \<Rightarrow>
         (case start_all env (pointers (cc_sessions cc) (ev_order env)) s of
            (Inl e, s) \<Rightarrow> answer s (sendStartAck env AcceptFailure cc)
          | (Inr _, s) \<Rightarrow> answer s (sendStartAck env AcceptOK cc)))"

text \<open>\<open>ev_order\<close> lists every key once, so that its length is the size of the map.\<close>

definition handleStopSessions :: "control_env \<Rightarrow> Server \<Rightarrow> controlConnection \<Rightarrow> bytes \<Rightarrow> handled" where
  "handleStopSessions env s cc cmdData =
     (case StopSessions_Unmarshal StopSessions_zero cmdData
             (controlRequiresAuthentication (cc_controlMode cc)) of
        Inl e \<Rightarrow> Some (Inl (Wrap ''%w (Stop-Sessions): %v'' [ErrUnmarshalFailed]), s, cc)
      | Inr stopSessions \<Rightarrow>
         (let sessionsToStop = pointers (cc_sessions cc) (ev_order env);
              activeSessions = of_nat (length sessionsToStop)
          in if stp_NumSessions stopSessions \<noteq> activeSessions
          then Some (Inl (Errorf ''RFC 5357 violation: NumSessions=%d does not match active sessions=%d''), s, cc)
          else
            Some (Inr (), fold (schedule_stop (ev_now env)) sessionsToStop s,
                  cc\<lparr>cc_sessions := Map.empty\<rparr>)))"

fun stop_listed :: "int \<Rightarrow> session_id list \<Rightarrow> Server \<times> controlConnection \<Rightarrow> Server \<times> controlConnection" where
  "stop_listed now [] (s, cc) = (s, cc)"
| "stop_listed now (sid # sids) (s, cc) =
     (case cc_sessions cc sid of
        None \<Rightarrow> stop_listed now sids (s, cc)
      | Some p \<Rightarrow> stop_listed now sids
          (schedule_stop now p s, cc\<lparr>cc_sessions := (cc_sessions cc)(sid := None)\<rparr>))"

definition handleStopNSessions :: "control_env \<Rightarrow> Server \<Rightarrow> controlConnection \<Rightarrow> bytes \<Rightarrow> handled" where
  "handleStopNSessions env s cc cmdData =
     (case StopNSessions_Unmarshal StopNSessions_zero cmdData
             (controlRequiresAuthentication (cc_controlMode cc)) of
        Inl e \<Rightarrow> Some (Inl (Wrap ''%w (Stop-N-Sessions): %v'' [ErrUnmarshalFailed]), s, cc)
      | Inr stopNSessions \<Rightarrow>
         if sns_NumSessions stopNSessions = 0 \<or> sns_SessionIDs stopNSessions = []
         then Some (Inr (), s, cc)
         else
           (case stop_listed (ev_now env) (sns_SessionIDs stopNSessions) (s, cc) of
              (s, cc) \<Rightarrow> Some (Inr (), s, cc)))"

section \<open>One round of the command loop\<close>

definition dispatch :: "control_env \<Rightarrow> Server \<Rightarrow> controlConnection \<Rightarrow> bytes \<Rightarrow> handled" where
  "dispatch env s cc cmd =
     (if cmd ! 0 = CmdRequestTWSession then handleRequestTWSession env s cc cmd
      else if cmd ! 0 = CmdStartSessions then handleStartSessions env s cc cmd
      else if cmd ! 0 = CmdStopSessions then handleStopSessions env s cc cmd
      else if cmd ! 0 = CmdStopNSessions then handleStopNSessions env s cc cmd
      else if cmd ! 0 = CmdRequestTWSessionIndividual then handleRequestTWSessionIndividual env s cc cmd
      else Some (Inl (Errorf ''unknown command: %d''), s, cc))"

text \<open>An error, also one of reading, ends the connection.\<close>

definition command_round :: "control_env \<Rightarrow> Server \<Rightarrow> controlConnection \<Rightarrow> handled" where
  "command_round env s cc =
     (case readCommand cc of
        (Inl e, cc) \<Rightarrow> Some (Inl e, s, cc)
      | (Inr cmd, cc) \<Rightarrow> dispatch env s (cc\<lparr>cc_lastActivity := ev_now env\<rparr>) cmd)"

text \<open>The opening of a connection.\<close>

definition open_connection :: "control_env \<Rightarrow> control_env \<Rightarrow> Server \<Rightarrow> controlConnection \<Rightarrow> unit res \<times> controlConnection" where
  "open_connection env env' s cc =
     (case sendServerGreeting env s cc of
        (Inl e, cc) \<Rightarrow> (Inl e, cc)
      | (Inr _, cc) \<Rightarrow> handleClientSetup env' s cc)"

section \<open>What input and output leave alone\<close>

definition same_conn :: "controlConnection \<Rightarrow> controlConnection \<Rightarrow> bool" where
  "same_conn cc cc' \<longleftrightarrow> cc_sessions cc' = cc_sessions cc \<and> cc_controlMode cc' = cc_controlMode cc \<and>
     cc_testMode cc' = cc_testMode cc \<and> cc_keyDerivation cc' = cc_keyDerivation cc"

named_theorems io_frame

lemma same_conn_refl [simp]: "same_conn cc cc"
  by (simp add: same_conn_def)

lemma same_conn_trans: "same_conn a b \<Longrightarrow> same_conn b c \<Longrightarrow> same_conn a c"
  by (simp add: same_conn_def)

lemma make_session_cong: "same_conn cc cc' \<Longrightarrow> make_session s cc' = make_session s cc"
  unfolding same_conn_def make_session_def by (elim conjE) (simp only:)

lemma conn_Write_frame [io_frame]: "same_conn cc (snd (conn_Write env b cc))"
  by (simp add: conn_Write_def same_conn_def split: sum.split)

lemma conn_ReadFull_frame [io_frame]: "same_conn cc (snd (conn_ReadFull n cc))"
  by (simp add: conn_ReadFull_def same_conn_def)

lemma stream_Decrypt_frame [io_frame]: "same_conn cc (snd (stream_Decrypt b cc))"
  by (simp add: stream_Decrypt_def same_conn_def split: option.split prod.split)

text \<open>Operations in sequence.\<close>

lemma same_conn_bind:
  assumes "same_conn cc (snd r)" and "\<And>e cc'. r = (Inl e, cc') \<Longrightarrow> same_conn cc' (snd (f e cc'))"
    and "\<And>x cc'. r = (Inr x, cc') \<Longrightarrow> same_conn cc' (snd (g x cc'))"
  shows "same_conn cc (snd (case r of (Inl e, cc') \<Rightarrow> f e cc' | (Inr x, cc') \<Rightarrow> g x cc'))"
  using assms by (auto split: prod.split sum.split intro: same_conn_trans)

lemma same_conn_case: "same_conn cc (snd r) \<Longrightarrow> r = (x, cc') \<Longrightarrow> same_conn cc cc'"
  by simp

lemma sendControlMessage_frame [io_frame]: "same_conn cc (snd (sendControlMessage env m pre cc))"
proof -
  have "same_conn cc (snd (conn_Write env b (cc\<lparr>cc_controlEncrypt := st\<rparr>)))" for b st
    using conn_Write_frame [of "cc\<lparr>cc_controlEncrypt := st\<rparr>" env b] by (simp add: same_conn_def)
  then show ?thesis
    by (auto simp: sendControlMessage_def Let_def io_frame split: option.split sum.split prod.split)
      (simp_all add: same_conn_def)
qed

lemma send_reply_frame [io_frame]: "same_conn cc (snd (send_reply env n m cc))"
proof (cases m)
  case (Inr b)
  let ?pre = "if controlRequiresAuthentication (cc_controlMode cc) \<and> cc_serverStartHMACPending cc
    then cc_serverStartBytes cc else []"
  obtain r cc' where "sendControlMessage env b ?pre cc = (r, cc')" by fastforce
  with sendControlMessage_frame [of cc env b ?pre] show ?thesis
    by (cases r) (auto simp: send_reply_def Inr Let_def same_conn_def)
qed (simp add: send_reply_def)

lemma answer_frame:
  assumes "answer s (sendAcceptSession env c port sid cc) = Some (r, s', cc') \<or>
    answer s (sendStartAck env c cc) = Some (r, s', cc')"
  shows "s' = s \<and> same_conn cc cc'"
  using assms send_reply_frame
  by (auto simp: answer_def sendAcceptSession_def sendStartAck_def)

lemma readPlainCommand_frame [io_frame]: "same_conn cc (snd (readPlainCommand cc))"
  unfolding readPlainCommand_def
  by (intro same_conn_bind io_frame)
    (auto split: sum.split intro!: same_conn_bind io_frame simp: Let_def)

lemma readEncryptedCommand_frame [io_frame]: "same_conn cc (snd (readEncryptedCommand cc))"
  unfolding readEncryptedCommand_def
  by (auto split: sum.split intro!: same_conn_bind io_frame simp: Let_def)

lemma readCommand_frame [io_frame]: "same_conn cc (snd (readCommand cc))"
  by (simp add: readCommand_def io_frame)

section \<open>What the handlers do to the server\<close>

lemma alloc_release_same: "allocatePort free pm = Some (Inr p, pm') \<Longrightarrow> releasePort pm' p = pm"
  using ports.alloc_new [of free pm p pm']
  by (cases pm) (auto simp: allocatePort_def releasePort_def split: option.splits sum.splits)

lemma put_portManager_same [simp]: "s\<lparr>sv_portManager := sv_portManager s\<rparr> = s"
  by (cases s) simp

text \<open>
  The effect of a request, whatever its outcome: nothing, or one more session that holds a port of
  its own.
\<close>

definition adds_session :: "Server \<Rightarrow> controlConnection \<Rightarrow> session_id \<Rightarrow> Server \<Rightarrow> controlConnection \<Rightarrow> bool" where
  "adds_session s cc sid s' cc' \<longleftrightarrow>
     (\<exists>free port pm request x.
        allocatePort free (sv_portManager s) = Some (Inr port, pm) \<and>
        make_session (s\<lparr>sv_portManager := pm\<rparr>) cc request sid port = Inr x \<and>
        s' = fst (store_session sid x (s\<lparr>sv_portManager := pm\<rparr>) cc) \<and>
        same_conn (cc\<lparr>cc_sessions := (cc_sessions cc)(sid \<mapsto> length (sv_heap s))\<rparr>) cc')"

lemma refuse_effect: "refuse env c s cc = Some (r, s', cc') \<Longrightarrow> s' = s \<and> same_conn cc cc'"
  unfolding refuse_def using answer_frame by blast

lemma accept_effect:
  assumes alloc: "allocatePort free (sv_portManager s) = Some (Inr port, pm)"
    and acc: "accept_session env request sid port (s\<lparr>sv_portManager := pm\<rparr>) cc = Some (r, s', cc')"
  shows "s' = s \<and> same_conn cc cc' \<or> adds_session s cc sid s' cc'"
proof (cases "make_session (s\<lparr>sv_portManager := pm\<rparr>) cc request sid port")
  case (Inl e)
  then show ?thesis using acc alloc_release_same [OF alloc] by (auto simp: accept_session_def)
next
  case (Inr x)
  let ?t = "store_session sid x (s\<lparr>sv_portManager := pm\<rparr>) cc"
  have "answer (fst ?t) (sendAcceptSession env AcceptOK port sid (snd ?t)) = Some (r, s', cc')"
    using acc Inr by (simp add: accept_session_def split: prod.splits)
  then have "s' = fst ?t" "same_conn (snd ?t) cc'" using answer_frame by blast+
  then show ?thesis
    unfolding adds_session_def using alloc Inr
    by (intro disjI2 exI [of _ free] exI [of _ port] exI [of _ pm] exI [of _ request] exI [of _ x])
      (simp add: store_session_def Let_def)
qed

text \<open>The part behind the checks, for both requests, and the cases of each handler.\<close>

lemma port_cases:
  assumes "(case allocatePort free (sv_portManager s) of
      None \<Rightarrow> None
    | Some (Inl e, pm) \<Rightarrow> refuse env c (s\<lparr>sv_portManager := pm\<rparr>) cc
    | Some (Inr port, pm) \<Rightarrow> f port pm) = Some (r, s', cc')"
  obtains "refuse env c s cc = Some (r, s', cc')"
  | port pm where "allocatePort free (sv_portManager s) = Some (Inr port, pm)" "f port pm = Some (r, s', cc')"
proof (cases "allocatePort free (sv_portManager s)")
  case (Some a)
  obtain x pm where a: "a = (x, pm)" by fastforce
  show ?thesis
  proof (cases x)
    case (Inl e)
    then have "pm = sv_portManager s" using Some a ports.alloc_error by blast
    then show ?thesis using that(1) assms Some a Inl by simp
  next
    case (Inr port)
    then show ?thesis using that(2) assms Some a by simp
  qed
qed (use assms in simp)

lemma request_cases:
  assumes "handleRequestTWSession env s cc cmd = Some (r, s', cc')"
  obtains (fails) "s' = s" "cc' = cc"
  | (refused) code where "refuse env code s cc = Some (r, s', cc')"
  | (accepts) request port pm sid where
      "RequestTWSession_Unmarshal RequestTWSession_zero cmd
         (controlRequiresAuthentication (cc_controlMode cc)) = Inr request"
      "SessionID_IsZero (rts_SID request)" "\<not> request_refused env s cc request"
      "allocatePort (ev_free env) (sv_portManager s) = Some (Inr port, pm)" "ev_random env 0 16 = Inr sid"
      "accept_session env request sid port (s\<lparr>sv_portManager := pm\<rparr>) cc = Some (r, s', cc')"
proof (cases "RequestTWSession_Unmarshal RequestTWSession_zero cmd
    (controlRequiresAuthentication (cc_controlMode cc))")
  case (Inr request)
  show ?thesis
  proof (cases "\<not> SessionID_IsZero (rts_SID request) \<or> request_refused env s cc request")
    case True
    then show ?thesis
      using assms Inr refused by (auto simp: handleRequestTWSession_def split: if_splits)
  next
    case False
    have "(case allocatePort (ev_free env) (sv_portManager s) of
        None \<Rightarrow> None
      | Some (Inl e, pm) \<Rightarrow> refuse env AcceptTempResLimited (s\<lparr>sv_portManager := pm\<rparr>) cc
      | Some (Inr port, pm) \<Rightarrow>
          (case ev_random env 0 16 of
             Inl e \<Rightarrow> Some (Inl (Wrap ''failed to generate SID'' [e]),
               s\<lparr>sv_portManager := pm, sv_portManager := releasePort pm port\<rparr>, cc)
           | Inr sid \<Rightarrow> accept_session env request sid port (s\<lparr>sv_portManager := pm\<rparr>) cc)) =
        Some (r, s', cc')"
      using False assms unfolding handleRequestTWSession_def Let_def by (simp add: Inr)
    then show ?thesis
    proof (rule port_cases)
      fix port pm
      assume a: "allocatePort (ev_free env) (sv_portManager s) = Some (Inr port, pm)"
        and f: "(case ev_random env 0 16 of
             Inl e \<Rightarrow> Some (Inl (Wrap ''failed to generate SID'' [e]),
               s\<lparr>sv_portManager := pm, sv_portManager := releasePort pm port\<rparr>, cc)
           | Inr sid \<Rightarrow> accept_session env request sid port (s\<lparr>sv_portManager := pm\<rparr>) cc) =
           Some (r, s', cc')"
      show ?thesis
      proof (cases "ev_random env 0 16")
        case (Inl e)
        then show ?thesis using f alloc_release_same [OF a] fails by simp
      next
        case (Inr sid)
        then show ?thesis using f a False accepts [OF \<open>_ = Inr request\<close>] by simp
      qed
    qed (rule refused)
  qed
qed (use assms fails in \<open>simp add: handleRequestTWSession_def\<close>)

lemma individual_cases:
  assumes "handleRequestTWSessionIndividual env s cc cmd = Some (r, s', cc')"
  obtains (fails) "s' = s" "cc' = cc"
  | (refused) code where "refuse env code s cc = Some (r, s', cc')"
  | (accepts) request port pm where
      "RequestTWSessionIndividual_Unmarshal RequestTWSession_zero cmd
         (controlRequiresAuthentication (cc_controlMode cc)) = Inr request"
      "\<not> request_refused env s cc request" "sv_sessions s (rts_SID request) = None"
      "allocatePort (ev_free env) (sv_portManager s) = Some (Inr port, pm)"
      "accept_session env request (rts_SID request) port (s\<lparr>sv_portManager := pm\<rparr>) cc = Some (r, s', cc')"
proof (cases "RequestTWSessionIndividual_Unmarshal RequestTWSession_zero cmd
    (controlRequiresAuthentication (cc_controlMode cc))")
  case (Inr request)
  show ?thesis
  proof (cases "request_refused env s cc request")
    case True
    then show ?thesis using assms Inr refused by (simp add: handleRequestTWSessionIndividual_def)
  next
    case False
    have "(case allocatePort (ev_free env) (sv_portManager s) of
        None \<Rightarrow> None
      | Some (Inl e, pm) \<Rightarrow> refuse env AcceptTempResLimited (s\<lparr>sv_portManager := pm\<rparr>) cc
      | Some (Inr port, pm) \<Rightarrow>
          (if sv_sessions s (rts_SID request) \<noteq> None
           then refuse env AcceptFailure (s\<lparr>sv_portManager := pm, sv_portManager := releasePort pm port\<rparr>) cc
           else accept_session env request (rts_SID request) port (s\<lparr>sv_portManager := pm\<rparr>) cc)) =
        Some (r, s', cc')"
      using assms unfolding handleRequestTWSessionIndividual_def Let_def
      by (simp add: Inr False cong: option.case_cong sum.case_cong prod.case_cong)
    then show ?thesis
    proof (rule port_cases)
      fix port pm
      assume a: "allocatePort (ev_free env) (sv_portManager s) = Some (Inr port, pm)"
        and f: "(if sv_sessions s (rts_SID request) \<noteq> None
           then refuse env AcceptFailure (s\<lparr>sv_portManager := pm, sv_portManager := releasePort pm port\<rparr>) cc
           else accept_session env request (rts_SID request) port (s\<lparr>sv_portManager := pm\<rparr>) cc) =
           Some (r, s', cc')"
      show ?thesis
      proof (cases "sv_sessions s (rts_SID request)")
        case None
        then show ?thesis using f accepts [OF Inr False None a] by simp
      next
        case (Some q)
        then show ?thesis using f alloc_release_same [OF a] refused by simp
      qed
    qed (rule refused)
  qed
qed (use assms fails in \<open>simp add: handleRequestTWSessionIndividual_def\<close>)

lemma request_effect:
  assumes "handleRequestTWSession env s cc cmd = Some (r, s', cc')"
  shows "s' = s \<and> same_conn cc cc' \<or>
    (\<exists>sid. ev_random env 0 16 = Inr sid \<and> adds_session s cc sid s' cc')"
  using assms
proof (cases rule: request_cases)
  case (accepts request port pm sid)
  then show ?thesis using accept_effect by blast
qed (auto dest: refuse_effect)

lemma individual_effect:
  assumes "handleRequestTWSessionIndividual env s cc cmd = Some (r, s', cc')"
  shows "s' = s \<and> same_conn cc cc' \<or> (\<exists>sid. sv_sessions s sid = None \<and> adds_session s cc sid s' cc')"
  using assms
proof (cases rule: individual_cases)
  case (accepts request port pm)
  then show ?thesis using accept_effect by blast
qed (auto dest: refuse_effect)

text \<open>The other handlers.\<close>

lemma start_effect:
  assumes "handleStartSessions env s cc cmd = Some (r, s', cc')"
  shows "(s' = s \<or> s' = snd (start_all env (pointers (cc_sessions cc) (ev_order env)) s)) \<and> same_conn cc cc'"
proof (cases "StartSessions_Unmarshal StartSessions_zero cmd
    (controlRequiresAuthentication (cc_controlMode cc))")
  case (Inr m)
  obtain x t where x: "start_all env (pointers (cc_sessions cc) (ev_order env)) s = (x, t)" by fastforce
  then have "answer t (sendStartAck env (case x of Inl e \<Rightarrow> AcceptFailure | Inr u \<Rightarrow> AcceptOK) cc) = Some (r, s', cc')"
    using assms Inr by (cases x) (simp_all add: handleStartSessions_def)
  then show ?thesis using x answer_frame by fastforce
qed (use assms in \<open>simp add: handleStartSessions_def\<close>)

lemma stop_effect:
  assumes "handleStopSessions env s cc cmd = Some (r, s', cc')"
  shows "s' = s \<and> cc' = cc \<or>
    s' = fold (schedule_stop (ev_now env)) (pointers (cc_sessions cc) (ev_order env)) s \<and>
    cc' = cc\<lparr>cc_sessions := Map.empty\<rparr>"
  using assms unfolding handleStopSessions_def Let_def by (auto split: sum.splits if_splits)

lemma stop_n_effect:
  assumes "handleStopNSessions env s cc cmd = Some (r, s', cc')"
  shows "s' = s \<and> cc' = cc \<or> (\<exists>sids. (s', cc') = stop_listed (ev_now env) sids (s, cc))"
  using assms unfolding handleStopNSessions_def
  by (auto split: sum.splits if_splits prod.splits) metis+

end
