(* ===== verification/Server_System.thy ===== *)
theory Server_System
  imports Server_Control
begin

text \<open>
  The server as a transition system: any number of control connections, each read by its goroutine
  (\<open>handleConnection\<close>), a reflector goroutine per started session, and the timers. A step is one
  command, one round of a reflector, one timer, or the begin or end of a connection; the steps of
  different goroutines interleave in any order. What the peers, the clock, the random source and the
  system do is chosen anew by every event.
\<close>

section \<open>Steps\<close>

record system =
  sy_server :: Server
  sy_conns :: "nat \<rightharpoonup> controlConnection"
  sy_crashed :: bool

datatype event =
    Connect nat int ip ip control_env control_env bytes
  | Input nat bytes
  | Command nat control_env "session_id list"
  | Disconnect nat "session_id list"
  | Round nat random_source "bytes \<Rightarrow> net_addr \<Rightarrow> unit res" int read_result
  | Timer nat
  | Shutdown "session_id list"

text \<open>The deferred clean-up of a connection, and its removal.\<close>

definition drop_connection :: "nat \<Rightarrow> session_id list \<Rightarrow> controlConnection \<Rightarrow> Server \<Rightarrow> system \<Rightarrow> system" where
  "drop_connection c order cc s sy =
     sy\<lparr>sy_server := connection_cleanup order cc s, sy_conns := (sy_conns sy)(c := None)\<rparr>"

inductive sys_step :: "event \<Rightarrow> system \<Rightarrow> system \<Rightarrow> bool" where
  connected:
    "\<not> sy_crashed sy \<Longrightarrow> sy_conns sy c = None \<Longrightarrow>
     open_connection env env' (sy_server sy) (new_connection now l r b) = (Inr (), cc) \<Longrightarrow>
     sys_step (Connect c now l r env env' b) sy (sy\<lparr>sy_conns := (sy_conns sy)(c \<mapsto> cc)\<rparr>)"
| not_connected:
    "\<not> sy_crashed sy \<Longrightarrow> sy_conns sy c = None \<Longrightarrow>
     open_connection env env' (sy_server sy) (new_connection now l r b) = (Inl e, cc) \<Longrightarrow>
     sys_step (Connect c now l r env env' b) sy sy"
| input:
    "\<not> sy_crashed sy \<Longrightarrow> sy_conns sy c = Some cc \<Longrightarrow>
     sys_step (Input c b) sy (sy\<lparr>sy_conns := (sy_conns sy)(c \<mapsto> cc\<lparr>cc_in := cc_in cc @ b\<rparr>)\<rparr>)"
| command:
    "\<not> sy_crashed sy \<Longrightarrow> sy_conns sy c = Some cc \<Longrightarrow> order_ok (cc_sessions cc) (ev_order env) \<Longrightarrow>
     command_round env (sy_server sy) cc = Some (Inr (), s, cc') \<Longrightarrow>
     sys_step (Command c env order) sy (sy\<lparr>sy_server := s, sy_conns := (sy_conns sy)(c \<mapsto> cc')\<rparr>)"
| command_failed:
    "\<not> sy_crashed sy \<Longrightarrow> sy_conns sy c = Some cc \<Longrightarrow> order_ok (cc_sessions cc) (ev_order env) \<Longrightarrow>
     command_round env (sy_server sy) cc = Some (Inl e, s, cc') \<Longrightarrow>
     \<not> is_panic (Inl e :: unit res) \<Longrightarrow> order_ok (cc_sessions cc') order \<Longrightarrow>
     sys_step (Command c env order) sy (drop_connection c order cc' s sy)"
| command_panic:
    "\<not> sy_crashed sy \<Longrightarrow> sy_conns sy c = Some cc \<Longrightarrow> order_ok (cc_sessions cc) (ev_order env) \<Longrightarrow>
     command_round env (sy_server sy) cc = Some (Inl (Panic m), s, cc') \<Longrightarrow>
     sys_step (Command c env order) sy
       (sy\<lparr>sy_server := s, sy_conns := (sy_conns sy)(c \<mapsto> cc'), sy_crashed := True\<rparr>)"
| disconnect:
    "\<not> sy_crashed sy \<Longrightarrow> sy_conns sy c = Some cc \<Longrightarrow> order_ok (cc_sessions cc) order \<Longrightarrow>
     sys_step (Disconnect c order) sy (drop_connection c order cc (sy_server sy) sy)"
| continue:
    "\<not> sy_crashed sy \<Longrightarrow> p \<in> set (sv_running (sy_server sy)) \<Longrightarrow>
     reflectPackets_round rnd send now r p (sy_server sy) = (Continue out, s) \<Longrightarrow>
     sys_step (Round p rnd send now r) sy (sy\<lparr>sy_server := s\<rparr>)"
| return:
    "\<not> sy_crashed sy \<Longrightarrow> p \<in> set (sv_running (sy_server sy)) \<Longrightarrow>
     reflectPackets_round rnd send now r p (sy_server sy) = (Return, s) \<Longrightarrow>
     reflector_exit p s = (Inr (), s') \<Longrightarrow>
     sys_step (Round p rnd send now r) sy (sy\<lparr>sy_server := s'\<rparr>)"
| return_panic:
    "\<not> sy_crashed sy \<Longrightarrow> p \<in> set (sv_running (sy_server sy)) \<Longrightarrow>
     reflectPackets_round rnd send now r p (sy_server sy) = (Return, s) \<Longrightarrow>
     reflector_exit p s = (Inl e, s') \<Longrightarrow>
     sys_step (Round p rnd send now r) sy (sy\<lparr>sy_server := s', sy_crashed := True\<rparr>)"
| panic:
    "\<not> sy_crashed sy \<Longrightarrow> p \<in> set (sv_running (sy_server sy)) \<Longrightarrow>
     reflectPackets_round rnd send now r p (sy_server sy) = (Round_Panic m, s) \<Longrightarrow>
     sys_step (Round p rnd send now r) sy (sy\<lparr>sy_server := s, sy_crashed := True\<rparr>)"
| timer:
    "\<not> sy_crashed sy \<Longrightarrow> i < length (sv_timers (sy_server sy)) \<Longrightarrow>
     sys_step (Timer i) sy (sy\<lparr>sy_server := fire_timer i (sy_server sy)\<rparr>)"
| shutdown:
    "\<not> sy_crashed sy \<Longrightarrow> order_ok (sv_sessions (sy_server sy)) order \<Longrightarrow>
     sys_step (Shutdown order) sy (sy\<lparr>sy_server := Server_Stop order (sy_server sy)\<rparr>)"

text \<open>A server that has just been made.\<close>

definition fresh_system :: "system \<Rightarrow> bool" where
  "fresh_system sy \<longleftrightarrow> sy_conns sy = Map.empty \<and> \<not> sy_crashed sy \<and>
     (\<exists>pc pip config rg cidrs ips. NewServer pc pip config rg cidrs ips = Inr (sy_server sy))"

section \<open>Invariants of a run\<close>

text \<open>
  The steps with a good event, and runs of them.
\<close>

definition good_step :: "(event \<Rightarrow> system \<Rightarrow> bool) \<Rightarrow> system \<Rightarrow> system \<Rightarrow> bool" where
  "good_step good sy sy' \<longleftrightarrow> (\<exists>e. good e sy \<and> sys_step e sy sy')"

definition run :: "(event \<Rightarrow> system \<Rightarrow> bool) \<Rightarrow> system \<Rightarrow> system \<Rightarrow> bool" where
  "run good = (good_step good)\<^sup>*\<^sup>*"

definition any_event :: "event \<Rightarrow> system \<Rightarrow> bool" where
  "any_event e sy \<longleftrightarrow> True"

text \<open>
  A property kept by the steps of a relation holds along its runs; one that also holds at the start
  holds in every state a run leads to.
\<close>

locale preserved =
  fixes trans :: "'s \<Rightarrow> 's \<Rightarrow> bool" and inv :: "'s \<Rightarrow> bool"
  assumes kept: "inv s \<Longrightarrow> trans s t \<Longrightarrow> inv t"
begin

lemma along: "trans\<^sup>*\<^sup>* s t \<Longrightarrow> inv s \<Longrightarrow> inv t"
  by (induction rule: rtranclp_induct) (auto intro: kept)

end

locale invariant = preserved trans inv
  for trans :: "'s \<Rightarrow> 's \<Rightarrow> bool" and inv :: "'s \<Rightarrow> bool" +
  fixes start :: "'s \<Rightarrow> bool"
  assumes at_start: "start s \<Longrightarrow> inv s"
begin

lemma reached: "start s \<Longrightarrow> trans\<^sup>*\<^sup>* s t \<Longrightarrow> inv t"
  by (blast intro: along at_start)

end

text \<open>Only a start and an exit change which reflectors run.\<close>

lemma stopSession_running [simp]: "sv_running (stopSession q s) = sv_running s"
  by (simp add: stopSession_def Let_def)

lemma round_running:
  assumes "reflectPackets_round rnd send now r p s = (y, t)"
  shows "sv_running t = sv_running s"
proof (cases r)
  case (Read_Packet a)
  obtain out x where "reflect_iteration rnd send (ar_datagram a) (ar_addr a) (ar_ttl a) (ar_rx a)
      (ar_tx a) (ar_now a) (session_at s p) = (out, x)" by fastforce
  then show ?thesis
    using assms Read_Packet by (cases out) (auto simp: reflectPackets_round_def Let_def split: if_splits)
qed (use assms in \<open>auto simp: reflectPackets_round_def Let_def split: if_splits\<close>)

text \<open>
  A property of the system that every kind of step keeps, as long as the events of the run are
  \<open>good\<close>.
\<close>

locale system_preserved =
  fixes inv :: "system \<Rightarrow> bool" and good :: "event \<Rightarrow> system \<Rightarrow> bool"
  assumes connects: "inv sy \<Longrightarrow> sy_conns sy c = None \<Longrightarrow>
      open_connection env env' (sy_server sy) (new_connection now l r b) = (Inr (), cc) \<Longrightarrow>
      inv (sy\<lparr>sy_conns := (sy_conns sy)(c \<mapsto> cc)\<rparr>)"
    and inputs: "inv sy \<Longrightarrow> sy_conns sy c = Some cc \<Longrightarrow>
      inv (sy\<lparr>sy_conns := (sy_conns sy)(c \<mapsto> cc\<lparr>cc_in := cc_in cc @ b\<rparr>)\<rparr>)"
    and commands: "inv sy \<Longrightarrow> good (Command c env order) sy \<Longrightarrow> sy_conns sy c = Some cc \<Longrightarrow>
      command_round env (sy_server sy) cc = Some (x, s, cc') \<Longrightarrow>
      inv (sy\<lparr>sy_server := s, sy_conns := (sy_conns sy)(c \<mapsto> cc')\<rparr>)"
    and drops: "inv (sy\<lparr>sy_server := s, sy_conns := (sy_conns sy)(c \<mapsto> cc)\<rparr>) \<Longrightarrow>
      inv (drop_connection c order cc s sy)"
    and crashes: "inv sy \<Longrightarrow> inv (sy\<lparr>sy_crashed := True\<rparr>)"
    and rounds: "inv sy \<Longrightarrow> p \<in> set (sv_running (sy_server sy)) \<Longrightarrow>
      reflectPackets_round rnd send now rr p (sy_server sy) = (y, s) \<Longrightarrow> inv (sy\<lparr>sy_server := s\<rparr>)"
    and exits: "inv (sy\<lparr>sy_server := s\<rparr>) \<Longrightarrow> p \<in> set (sv_running s) \<Longrightarrow>
      reflector_exit p s = (x, s') \<Longrightarrow> inv (sy\<lparr>sy_server := s'\<rparr>)"
    and timers: "inv sy \<Longrightarrow> i < length (sv_timers (sy_server sy)) \<Longrightarrow>
      inv (sy\<lparr>sy_server := fire_timer i (sy_server sy)\<rparr>)"
    and shutdowns: "inv sy \<Longrightarrow> inv (sy\<lparr>sy_server := Server_Stop order (sy_server sy)\<rparr>)"
begin

lemma crashed_server: "inv (sy\<lparr>sy_server := s\<rparr>) \<Longrightarrow> inv (sy\<lparr>sy_server := s, sy_crashed := True\<rparr>)"
  using crashes [of "sy\<lparr>sy_server := s\<rparr>"] by simp

lemma sys_step_inv: "sys_step e sy sy' \<Longrightarrow> good e sy \<Longrightarrow> inv sy \<Longrightarrow> inv sy'"
proof (induction rule: sys_step.induct)
  case (command_panic sy c cc env m s cc' order)
  then show ?case
    using crashes [of "sy\<lparr>sy_server := s, sy_conns := (sy_conns sy)(c \<mapsto> cc')\<rparr>"] commands by simp
next
  case (disconnect sy c cc order)
  then have "sy\<lparr>sy_server := sy_server sy, sy_conns := (sy_conns sy)(c \<mapsto> cc)\<rparr> = sy"
    by (cases sy) (simp add: fun_upd_idem)
  then show ?case
    using disconnect drops [where sy = sy and s = "sy_server sy" and c = c and cc = cc] by simp
next
  case (connected sy c env env' now l r b cc)
  then show ?case using connects by blast
next
  case (input sy c cc b)
  then show ?case using inputs by blast
next
  case (command sy c cc env s cc' order)
  then show ?case using commands by blast
next
  case (command_failed sy c cc env e s cc' order)
  then have "inv (sy\<lparr>sy_server := s, sy_conns := (sy_conns sy)(c \<mapsto> cc')\<rparr>)" using commands by blast
  then show ?case by (rule drops)
next
  case (continue sy p rnd send now r out s)
  then show ?case using rounds by blast
next
  case (return sy p rnd send now r s s')
  then have "inv (sy\<lparr>sy_server := s\<rparr>)" using rounds by blast
  moreover have "p \<in> set (sv_running s)" using return(2) round_running [OF return(3)] by simp
  ultimately show ?case using return exits by blast
next
  case (return_panic sy p rnd send now r s e s')
  then have "inv (sy\<lparr>sy_server := s\<rparr>)" using rounds by blast
  moreover have "p \<in> set (sv_running s)" using return_panic(2) round_running [OF return_panic(3)] by simp
  ultimately have "inv (sy\<lparr>sy_server := s'\<rparr>)" using return_panic exits by blast
  then show ?case by (rule crashed_server)
next
  case (panic sy p rnd send now r m s)
  then have "inv (sy\<lparr>sy_server := s\<rparr>)" using rounds by blast
  then show ?case by (rule crashed_server)
next
  case (timer sy i)
  then show ?case using timers by blast
next
  case (shutdown sy order)
  then show ?case using shutdowns by blast
qed

end

sublocale system_preserved \<subseteq> preserved "good_step good" inv
  by unfold_locales (auto simp: good_step_def intro: sys_step_inv)

locale system_invariant = system_preserved +
  assumes fresh: "fresh_system sy \<Longrightarrow> inv sy"

sublocale system_invariant \<subseteq> invariant "good_step good" inv fresh_system
  by unfold_locales (rule fresh)

section \<open>How the heap grows\<close>

text \<open>No operation removes a session or changes its identifier, port, mode or keys.\<close>

definition grows :: "Server \<Rightarrow> Server \<Rightarrow> bool" where
  "grows s s' \<longleftrightarrow> length (sv_heap s) \<le> length (sv_heap s') \<and>
     (\<forall>p < length (sv_heap s). se_sid (session_at s' p) = se_sid (session_at s p) \<and>
        se_reflectorPort (session_at s' p) = se_reflectorPort (session_at s p) \<and>
        se_mode (session_at s' p) = se_mode (session_at s p) \<and>
        se_sessionKeys (session_at s' p) = se_sessionKeys (session_at s p))"

lemma grows_refl [simp]: "grows s s"
  by (simp add: grows_def)

lemma grows_trans: "grows s t \<Longrightarrow> grows t u \<Longrightarrow> grows s u"
  by (auto simp: grows_def)

lemma grows_put:
  "se_sid x = se_sid (session_at s p) \<Longrightarrow> se_reflectorPort x = se_reflectorPort (session_at s p) \<Longrightarrow>
   se_mode x = se_mode (session_at s p) \<Longrightarrow> se_sessionKeys x = se_sessionKeys (session_at s p) \<Longrightarrow>
   grows s (put_session p x s)"
  by (cases "p < length (sv_heap s)") (simp_all add: grows_def)

lemma grows_fields [simp]:
  "grows s (t\<lparr>sv_running := r\<rparr>) = grows s t" "grows s (t\<lparr>sv_timers := ti\<rparr>) = grows s t"
  "grows s (t\<lparr>sv_sessions := m\<rparr>) = grows s t" "grows s (t\<lparr>sv_portManager := pm\<rparr>) = grows s t"
  "grows (s\<lparr>sv_running := r\<rparr>) t = grows s t" "grows (s\<lparr>sv_timers := ti\<rparr>) t = grows s t"
  "grows (s\<lparr>sv_portManager := pm\<rparr>) t = grows s t"
  by (simp_all add: grows_def)

lemma startSession_grows: "grows s (snd (startSession listen now p s))"
  by (auto simp: startSession_def Let_def intro: grows_put)

lemma start_all_grows: "grows s (snd (start_all env ps s))"
proof (induction ps arbitrary: s)
  case (Cons p ps)
  obtain r t where t: "startSession (ev_listen env) (ev_now env) p s = (r, t)" by fastforce
  then have "grows s t" using startSession_grows by (metis snd_conv)
  then show ?case using t Cons.IH [of t] by (cases r) (auto intro: grows_trans)
qed simp

lemma stopSession_grows: "grows s (stopSession p s)"
  by (auto simp: stopSession_def Let_def intro: grows_put)

lemma fold_stop_grows: "grows s (fold stopSession ps s)"
  by (induction ps arbitrary: s) (auto intro: grows_trans stopSession_grows)

lemma schedule_stop_grows [simp]: "grows s (fold (schedule_stop now) ps s)"
proof (induction ps arbitrary: s)
  case (Cons p ps)
  have "grows s (schedule_stop now p s)" by (simp add: schedule_stop_def)
  with Cons.IH show ?case by (auto intro: grows_trans)
qed simp

lemma fire_timer_grows: "grows s (fire_timer i s)"
  using stopSession_grows [of "s\<lparr>sv_timers := t\<rparr>" for t] by (simp add: fire_timer_def Let_def)

lemma reflectPackets_round_grows: "grows s (snd (reflectPackets_round rnd send now r p s))"
proof (cases r)
  case (Read_Packet a)
  obtain out x where it: "reflect_iteration rnd send (ar_datagram a) (ar_addr a) (ar_ttl a) (ar_rx a)
      (ar_tx a) (ar_now a) (session_at s p) = (out, x)" by fastforce
  have "grows s (put_session p x s)"
    using reflect_iteration_frame [OF it] by (intro grows_put) (simp_all add: same_session_def)
  then show ?thesis
    using it Read_Packet grows_trans [OF _ stopSession_grows]
    by (cases out) (auto simp: reflectPackets_round_def Let_def)
qed (auto simp: reflectPackets_round_def Let_def stopSession_grows)

lemma put_session_running [simp]:
  "put_session p x (s\<lparr>sv_running := r\<rparr>) = (put_session p x s)\<lparr>sv_running := r\<rparr>"
  by (simp add: put_session_def)

lemma reflector_exit_grows: "grows s (snd (reflector_exit p s))"
  by (cases "se_reflectorDone (session_at s p)") (auto simp: reflector_exit_def Let_def intro: grows_put)

lemma store_session_grows: "grows s (fst (store_session sid x s cc))"
  by (simp add: store_session_def grows_def session_at_def nth_append Let_def)

lemma stop_listed_grows: "grows s (fst (stop_listed now sids (s, cc)))"
proof (induction sids arbitrary: s cc)
  case (Cons sid sids)
  show ?case
  proof (cases "cc_sessions cc sid")
    case (Some p)
    have "grows s (schedule_stop now p s)" by (simp add: schedule_stop_def)
    then show ?thesis using Some Cons.IH by (auto intro: grows_trans)
  qed (use Cons.IH in simp)
qed simp

lemmas grow = startSession_grows start_all_grows stopSession_grows fold_stop_grows
  schedule_stop_grows fire_timer_grows reflectPackets_round_grows reflector_exit_grows
  store_session_grows stop_listed_grows

section \<open>The effect of a command\<close>

definition is_start :: "controlConnection \<Rightarrow> bool" where
  "is_start cc \<longleftrightarrow> (case readCommand cc of
     (Inr cmd, _) \<Rightarrow> cmd ! 0 = CmdStartSessions | (Inl e, _) \<Rightarrow> False)"

lemma adds_session_cong: "same_conn cc cc' \<Longrightarrow> adds_session s cc' sid = adds_session s cc sid"
  by (intro ext) (simp add: adds_session_def make_session_cong store_session_def Let_def, simp add: same_conn_def)

inductive command_effect ::
    "control_env \<Rightarrow> Server \<Rightarrow> controlConnection \<Rightarrow> Server \<Rightarrow> controlConnection \<Rightarrow> bool" where
  same: "same_conn cc cc' \<Longrightarrow> command_effect env s cc s cc'"
| adds: "adds_session s cc sid s' cc' \<Longrightarrow> ev_random env 0 16 = Inr sid \<or> sv_sessions s sid = None \<Longrightarrow>
    command_effect env s cc s' cc'"
| starts: "is_start cc \<Longrightarrow> same_conn cc cc' \<Longrightarrow>
    command_effect env s cc (snd (start_all env (pointers (cc_sessions cc) (ev_order env)) s)) cc'"
| stops: "same_conn (cc\<lparr>cc_sessions := Map.empty\<rparr>) cc' \<Longrightarrow>
    command_effect env s cc
      (fold (schedule_stop (ev_now env)) (pointers (cc_sessions cc) (ev_order env)) s) cc'"
| stops_n: "same_conn cc cc0 \<Longrightarrow> (s', cc') = stop_listed (ev_now env) sids (s, cc0) \<Longrightarrow>
    command_effect env s cc s' cc'"

lemma command_round_effect:
  assumes "command_round env s cc = Some (r, s', cc')"
  shows "command_effect env s cc s' cc'"
proof (cases "readCommand cc")
  case (Pair x cc1)
  have f: "same_conn cc cc1" using readCommand_frame [of cc] Pair by simp
  show ?thesis
  proof (cases x)
    case (Inl e)
    then show ?thesis using assms Pair f by (auto simp: command_round_def intro: same)
  next
    case (Inr cmd)
    let ?cc = "cc1\<lparr>cc_lastActivity := ev_now env\<rparr>"
    have f: "same_conn cc ?cc" using f by (simp add: same_conn_def)
    have t: "same_conn cc cc''" if "same_conn ?cc cc''" for cc'' using f that by (rule same_conn_trans)
    have d: "dispatch env s ?cc cmd = Some (r, s', cc')"
      using assms Pair Inr by (simp add: command_round_def)
    then consider "handleRequestTWSession env s ?cc cmd = Some (r, s', cc')"
      | "cmd ! 0 = CmdStartSessions" "handleStartSessions env s ?cc cmd = Some (r, s', cc')"
      | "handleStopSessions env s ?cc cmd = Some (r, s', cc')"
      | "handleStopNSessions env s ?cc cmd = Some (r, s', cc')"
      | "handleRequestTWSessionIndividual env s ?cc cmd = Some (r, s', cc')"
      | "s' = s" "cc' = ?cc"
      by (auto simp: dispatch_def split: if_splits)
    then show ?thesis
    proof cases
      case 1
      from request_effect [OF this] show ?thesis
        using t adds adds_session_cong [OF f] by (auto intro: same)
    next
      case 2
      have "is_start cc" using 2(1) Pair Inr by (simp add: is_start_def)
      moreover have "cc_sessions ?cc = cc_sessions cc" using f by (simp add: same_conn_def)
      ultimately show ?thesis
        using start_effect [OF 2(2)] t starts by (auto intro: same)
    next
      case 3
      have e: "same_conn (cc\<lparr>cc_sessions := Map.empty\<rparr>) (?cc\<lparr>cc_sessions := Map.empty\<rparr>)"
        "cc_sessions cc1 = cc_sessions cc"
        using f by (simp_all add: same_conn_def)
      from stop_effect [OF 3] show ?thesis
        using f e stops [OF e(1), of env s] by (auto intro: same)
    next
      case 4
      from stop_n_effect [OF this] show ?thesis
        using f stops_n [OF f] by (auto intro: same)
    next
      case 5
      from individual_effect [OF this] show ?thesis
        using t adds adds_session_cong [OF f] by (auto intro: same)
    next
      case 6
      then show ?thesis using f by (auto intro: same)
    qed
  qed
qed

section \<open>References\<close>

text \<open>
  Timers, goroutines and connections only refer to sessions that exist, a connection files a session
  under its identifier, and no session belongs to two connections.
\<close>

definition refs_ok :: "Server \<Rightarrow> bool" where
  "refs_ok s \<longleftrightarrow> (\<forall>t \<in> set (sv_timers s). snd t < length (sv_heap s)) \<and>
     (\<forall>p \<in> set (sv_running s). p < length (sv_heap s))"

definition conn_refs :: "Server \<Rightarrow> controlConnection \<Rightarrow> bool" where
  "conn_refs s cc \<longleftrightarrow> (\<forall>sid p. cc_sessions cc sid = Some p \<longrightarrow>
     p < length (sv_heap s) \<and> se_sid (session_at s p) = sid)"

definition system_refs :: "system \<Rightarrow> bool" where
  "system_refs sy \<longleftrightarrow> refs_ok (sy_server sy) \<and>
     (\<forall>c cc. sy_conns sy c = Some cc \<longrightarrow> conn_refs (sy_server sy) cc) \<and>
     (\<forall>c c' cc cc' p. sy_conns sy c = Some cc \<longrightarrow> sy_conns sy c' = Some cc' \<longrightarrow>
        p \<in> ran (cc_sessions cc) \<longrightarrow> p \<in> ran (cc_sessions cc') \<longrightarrow> c = c')"

lemma conn_refs_grows: "grows s s' \<Longrightarrow> conn_refs s cc \<Longrightarrow> conn_refs s' cc"
  unfolding grows_def conn_refs_def by (metis less_le_trans)

lemma conn_refs_sessions: "cc_sessions cc' = cc_sessions cc \<Longrightarrow> conn_refs s cc' = conn_refs s cc"
  by (simp add: conn_refs_def)

lemma refs_ok_fields [simp]: "refs_ok (s\<lparr>sv_sessions := m\<rparr>) = refs_ok s"
  "refs_ok (s\<lparr>sv_portManager := pm\<rparr>) = refs_ok s" "refs_ok (put_session p x s) = refs_ok s"
  by (simp_all add: refs_ok_def)

lemma startSession_refs: "refs_ok s \<Longrightarrow> p < length (sv_heap s) \<Longrightarrow> refs_ok (snd (startSession l now p s))"
  by (simp add: startSession_def Let_def refs_ok_def)

lemma start_all_refs:
  "refs_ok s \<Longrightarrow> \<forall>p \<in> set ps. p < length (sv_heap s) \<Longrightarrow> refs_ok (snd (start_all env ps s))"
proof (induction ps arbitrary: s)
  case (Cons p ps)
  obtain r t where t: "startSession (ev_listen env) (ev_now env) p s = (r, t)" by fastforce
  then have "t = snd (startSession (ev_listen env) (ev_now env) p s)" by simp
  then have "refs_ok t" "length (sv_heap t) = length (sv_heap s)"
    using Cons.prems by (simp_all only: startSession_length list.set startSession_refs insert_iff ball_simps)
  then show ?case using t Cons by (cases r) auto
qed simp

lemma stopSession_refs [simp]: "refs_ok (stopSession p s) = refs_ok s"
  by (simp add: stopSession_def Let_def)

lemma fold_stop_refs [simp]: "refs_ok (fold stopSession ps s) = refs_ok s"
  by (induction ps arbitrary: s) simp_all

lemma schedule_refs: "refs_ok s \<Longrightarrow> p < length (sv_heap s) \<Longrightarrow> refs_ok (schedule_stop now p s)"
  by (auto simp: schedule_stop_def refs_ok_def)

lemma schedule_heap [simp]: "sv_heap (schedule_stop now p s) = sv_heap s"
  by (simp add: schedule_stop_def)

lemma fold_schedule_refs:
  "refs_ok s \<Longrightarrow> \<forall>p \<in> set ps. p < length (sv_heap s) \<Longrightarrow> refs_ok (fold (schedule_stop now) ps s)"
  by (induction ps arbitrary: s) (simp_all add: schedule_refs)

lemma map_le_drop:
  assumes "m \<subseteq>\<^sub>m m'(k := None)"
  shows "m \<subseteq>\<^sub>m m'"
  unfolding map_le_def
proof
  fix a assume "a \<in> dom m"
  moreover from this have "m a = (m'(k := None)) a" using assms by (simp add: map_le_def)
  ultimately show "m a = m' a" by (cases "a = k") auto
qed

lemma stop_listed_refs:
  "refs_ok s \<Longrightarrow> conn_refs s cc \<Longrightarrow> stop_listed now sids (s, cc) = (s', cc') \<Longrightarrow>
    refs_ok s' \<and> sv_heap s' = sv_heap s \<and> cc_sessions cc' \<subseteq>\<^sub>m cc_sessions cc"
proof (induction sids arbitrary: s cc)
  case (Cons sid sids)
  show ?case
  proof (cases "cc_sessions cc sid")
    case (Some p)
    let ?cc = "cc\<lparr>cc_sessions := (cc_sessions cc)(sid := None)\<rparr>"
    have "p < length (sv_heap s)" using Some Cons.prems(2) by (auto simp: conn_refs_def)
    moreover have "conn_refs (schedule_stop now p s) ?cc"
      using Cons.prems(2) by (simp add: conn_refs_def session_at_def)
    moreover have "stop_listed now sids (schedule_stop now p s, ?cc) = (s', cc')"
      using Cons.prems(3) Some by simp
    ultimately have "refs_ok s' \<and> sv_heap s' = sv_heap s \<and> cc_sessions cc' \<subseteq>\<^sub>m cc_sessions ?cc"
      using Cons.IH [of "schedule_stop now p s" ?cc] Cons.prems(1) by (simp add: schedule_refs fun_upd_def)
    then show ?thesis using map_le_drop by auto
  qed (use Cons in simp)
qed simp

lemma fire_timer_refs: "refs_ok s \<Longrightarrow> refs_ok (fire_timer i s)"
proof -
  assume "refs_ok s"
  then have "refs_ok (s\<lparr>sv_timers := take i (sv_timers s) @ drop (Suc i) (sv_timers s)\<rparr>)"
    by (auto simp: refs_ok_def dest: in_set_takeD in_set_dropD)
  then show ?thesis by (simp add: fire_timer_def Let_def)
qed

lemma reflectPackets_round_refs: "refs_ok s \<Longrightarrow> refs_ok (snd (reflectPackets_round rnd send now r p s))"
proof (cases r)
  case (Read_Packet a)
  obtain out x where "reflect_iteration rnd send (ar_datagram a) (ar_addr a) (ar_ttl a) (ar_rx a)
      (ar_tx a) (ar_now a) (session_at s p) = (out, x)" by fastforce
  then show "refs_ok s \<Longrightarrow> ?thesis"
    using Read_Packet by (cases out) (simp_all add: reflectPackets_round_def Let_def)
qed (auto simp: reflectPackets_round_def Let_def)

lemma reflector_exit_refs: "refs_ok s \<Longrightarrow> refs_ok (snd (reflector_exit p s))"
  by (cases "se_reflectorDone (session_at s p)")
    (auto simp: reflector_exit_def Let_def refs_ok_def dest: notin_set_remove1)

lemma pointers_refs: "conn_refs s cc \<Longrightarrow> \<forall>p \<in> set (pointers (cc_sessions cc) order). p < length (sv_heap s)"
  by (auto simp: set_pointers conn_refs_def)

text \<open>What a command does to the references.\<close>

lemma command_effect_refs:
  assumes "command_effect env s cc s' cc'" and "refs_ok s" and "conn_refs s cc"
  shows "grows s s' \<and> refs_ok s' \<and> conn_refs s' cc' \<and>
    (\<forall>p \<in> ran (cc_sessions cc'). p \<in> ran (cc_sessions cc) \<or> p = length (sv_heap s))"
  using assms
proof cases
  case same
  then show ?thesis using assms by (simp add: same_conn_def conn_refs_def)
next
  case (adds sid)
  then obtain free port pm request x where
    x: "make_session (s\<lparr>sv_portManager := pm\<rparr>) cc request sid port = Inr x"
    and s': "s' = fst (store_session sid x (s\<lparr>sv_portManager := pm\<rparr>) cc)"
    and cc': "same_conn (cc\<lparr>cc_sessions := (cc_sessions cc)(sid \<mapsto> length (sv_heap s))\<rparr>) cc'"
    by (auto simp: adds_session_def)
  have "se_sid x = sid"
    using x by (auto simp: make_session_def Let_def split: option.splits if_splits sum.splits)
  moreover have g: "grows s s'"
    using store_session_grows [of "s\<lparr>sv_portManager := pm\<rparr>" sid x cc] by (simp add: s')
  moreover have "session_at s' (length (sv_heap s)) = x" "length (sv_heap s') = Suc (length (sv_heap s))"
    by (simp_all add: s' store_session_def session_at_def Let_def)
  ultimately have "conn_refs s' cc'"
    using conn_refs_grows [OF g assms(3)] cc' by (auto simp: conn_refs_def same_conn_def)
  moreover have "refs_ok s'"
    using assms(2) by (auto simp: s' refs_ok_def store_session_def Let_def less_SucI)
  ultimately show ?thesis
    using g cc' by (auto simp: same_conn_def ran_def)
next
  case starts
  then show ?thesis
    using assms start_all_refs pointers_refs start_all_grows conn_refs_grows
    by (metis same_conn_def conn_refs_sessions)
next
  case stops
  have "sv_heap (fold (schedule_stop now) ps t) = sv_heap t" for now ps t
    by (induction ps arbitrary: t) simp_all
  then show ?thesis
    using stops assms fold_schedule_refs pointers_refs by (simp add: same_conn_def conn_refs_def)
next
  case (stops_n cc0 sids)
  then have "conn_refs s cc0" using assms(3) by (simp add: same_conn_def conn_refs_def)
  with stops_n have "refs_ok s' \<and> sv_heap s' = sv_heap s \<and> cc_sessions cc' \<subseteq>\<^sub>m cc_sessions cc0"
    using stop_listed_refs [OF assms(2), of cc0] by metis
  moreover have "grows s s'"
    using stop_listed_grows [of s "ev_now env" sids cc0] stops_n(2) by (metis fst_conv)
  moreover have "cc_sessions cc' sid = Some p \<Longrightarrow> cc_sessions cc sid = Some p" for sid p
    using calculation stops_n(1) by (force simp: map_le_def same_conn_def dom_def)
  ultimately show ?thesis
    using conn_refs_grows [OF _ assms(3), of s'] by (auto simp: conn_refs_def ran_def)
qed

lemma system_refs_server:
  "system_refs sy \<Longrightarrow> grows (sy_server sy) s \<Longrightarrow> refs_ok s \<Longrightarrow> system_refs (sy\<lparr>sy_server := s\<rparr>)"
  unfolding system_refs_def by (auto intro: conn_refs_grows)

lemma system_refs_crashed [simp]: "system_refs (sy\<lparr>sy_crashed := b\<rparr>) = system_refs sy"
  by (simp add: system_refs_def)

lemma system_refsD:
  assumes "system_refs sy"
  shows "refs_ok (sy_server sy)" and "sy_conns sy c = Some cc \<Longrightarrow> conn_refs (sy_server sy) cc"
    and "sy_conns sy c = Some cc \<Longrightarrow> sy_conns sy c' = Some cc' \<Longrightarrow>
      p \<in> ran (cc_sessions cc) \<Longrightarrow> p \<in> ran (cc_sessions cc') \<Longrightarrow> c = c'"
  using assms unfolding system_refs_def by blast+

lemma system_refs_conn:
  assumes "system_refs sy" and c: "sy_conns sy c = Some cc"
    and g: "grows (sy_server sy) s" and r: "refs_ok s" and cc': "conn_refs s cc'"
    and new: "\<forall>p \<in> ran (cc_sessions cc'). p \<in> ran (cc_sessions cc) \<or> p = length (sv_heap (sy_server sy))"
  shows "system_refs (sy\<lparr>sy_server := s, sy_conns := (sy_conns sy)(c \<mapsto> cc')\<rparr>)"
proof -
  note D = system_refsD [OF assms(1)]
  have old: "p < length (sv_heap (sy_server sy))" if "sy_conns sy d = Some dd" "p \<in> ran (cc_sessions dd)" for d dd p
    using D(2) [OF that(1)] that(2) by (auto simp: conn_refs_def ran_def)
  have apart: False if "d \<noteq> c" "sy_conns sy d = Some dd" "p \<in> ran (cc_sessions dd)" "p \<in> ran (cc_sessions cc')" for d dd p
    using new old [OF that(2,3)] D(3) [OF c that(2), of p] that by blast
  show ?thesis
    unfolding system_refs_def
  proof (intro conjI allI impI)
    show "refs_ok (sy_server (sy\<lparr>sy_server := s, sy_conns := (sy_conns sy)(c \<mapsto> cc')\<rparr>))" using r by simp
  next
    fix d dd assume "sy_conns (sy\<lparr>sy_server := s, sy_conns := (sy_conns sy)(c \<mapsto> cc')\<rparr>) d = Some dd"
    then show "conn_refs (sy_server (sy\<lparr>sy_server := s, sy_conns := (sy_conns sy)(c \<mapsto> cc')\<rparr>)) dd"
      using cc' D(2) conn_refs_grows [OF g] by (cases "d = c") auto
  next
    fix d d' dd dd' p
    assume "sy_conns (sy\<lparr>sy_server := s, sy_conns := (sy_conns sy)(c \<mapsto> cc')\<rparr>) d = Some dd"
      and "sy_conns (sy\<lparr>sy_server := s, sy_conns := (sy_conns sy)(c \<mapsto> cc')\<rparr>) d' = Some dd'"
      and "p \<in> ran (cc_sessions dd)" and "p \<in> ran (cc_sessions dd')"
    then show "d = d'" using apart D(3) by (cases "d = c"; cases "d' = c") auto
  qed
qed

lemma system_refs_drop:
  assumes "system_refs (sy\<lparr>sy_server := s, sy_conns := (sy_conns sy)(c \<mapsto> cc)\<rparr>)"
  shows "system_refs (drop_connection c order cc s sy)"
proof -
  let ?t = "drop_connection c order cc s sy"
  note D = system_refsD [OF assms]
  have g: "grows s (sy_server ?t)" and r: "refs_ok (sy_server ?t)"
    using D(1) by (simp_all add: drop_connection_def connection_cleanup_def fold_stop_grows)
  have sub: "(sy_conns (sy\<lparr>sy_server := s, sy_conns := (sy_conns sy)(c \<mapsto> cc)\<rparr>)) d = Some dd"
    if "sy_conns ?t d = Some dd" for d dd
    using that by (simp add: drop_connection_def split: if_splits)
  have k: "conn_refs (sy_server ?t) dd" if "sy_conns ?t d = Some dd" for d dd
    using D(2) [OF sub [OF that]] conn_refs_grows [OF g] by simp
  show ?thesis
    unfolding system_refs_def using r k D(3) [OF sub sub] by blast
qed

lemma open_connection_frame: "same_conn cc (snd (sendServerGreeting env s cc))"
  using conn_Write_frame [of "cc\<lparr>cc_greeting := g\<rparr>" env b for g b]
  by (auto simp: sendServerGreeting_def Let_def split: sum.split prod.split)
    (auto simp: same_conn_def dest!: arg_cong [of _ _ snd])

section \<open>Setting up a connection\<close>

lemma control_auth_bits:
  assumes "bit m 1 \<or> bit m 2"
  shows "controlRequiresAuthentication m"
proof (rule ccontr)
  assume "\<not> controlRequiresAuthentication m"
  then have "m AND securityMask = 1" by (simp add: controlRequiresAuthentication_def)
  then have "bit (m AND securityMask) i \<longleftrightarrow> bit (1 :: mode) i" for i by simp
  from this [of 1] this [of 2] assms show False
    by (simp add: resolve_masks(1) bit_1_iff)
qed

text \<open>A secure test mode comes with a secure control mode.\<close>

lemma resolved_modes:
  assumes "ResolveMixedModes m = Inr (c, t)" and "secure_test_mode t"
  shows "controlRequiresAuthentication c"
proof (cases "bit m 3")
  case True
  then have "t = 1 OR (m AND NOT (securityMask OR ModeMixed))"
    using assms(1) by (auto simp: ResolveMixedModes_def Let_def split: sum.splits if_splits)
  then have "\<not> bit t 1" "\<not> bit t 2"
    using resolve_masks(2) [of m] by (simp_all add: bit_or_iff bit_1_iff)
  then show ?thesis using assms(2) by (simp add: secure_bits)
next
  case False
  then have "c = t"
    using assms(1) by (auto simp: ResolveMixedModes_def Let_def split: sum.splits if_splits)
  then show ?thesis using assms(2) control_auth_bits by (simp add: secure_bits)
qed

text \<open>The key material of a connection that will need it, and of a session in a secure mode.\<close>

definition keyed_conn :: "controlConnection \<Rightarrow> bool" where
  "keyed_conn cc \<longleftrightarrow>
     (controlRequiresAuthentication (cc_controlMode cc) \<longrightarrow> cc_keyDerivation cc \<noteq> None) \<and>
     (if secure_test_mode (cc_testMode cc)
      then (case cc_keyDerivation cc of None \<Rightarrow> False
            | Some k \<Rightarrow> length (ClientIV k) = 16 \<and> length (ServerIV k) = 16)
      else True)"

definition keyed_session :: "TestSession \<Rightarrow> bool" where
  "keyed_session x \<longleftrightarrow>
     (if secure_test_mode (se_mode x)
      then (case se_sessionKeys x of None \<Rightarrow> False
            | Some k \<Rightarrow> length (TestAESKey k) = 16 \<and> length (TestHMACKey k) = 32 \<and>
                length (ClientIV k) = 16 \<and> length (ServerIV k) = 16)
      else True)"

lemma setup_keys_ivs:
  assumes "setup_keys env s cc sr = Inr (keys, enc, dec)"
  shows "length (ClientIV keys) = 16 \<and> length (ServerIV keys) = 16 \<and> length (AESKey keys) = 16"
  using assms by (auto simp: setup_keys_def NewCBCStream_def Let_def split: option.splits sum.splits if_splits)

lemma send_ServerStart_frame: "same_conn cc (snd (send_ServerStart env iv cc))"
proof -
  have "same_conn cc (snd (conn_Write env b (cc\<lparr>cc_serverStartBytes := b, cc_serverStartHMACPending := h\<rparr>)))" for b h
    using conn_Write_frame [of "cc\<lparr>cc_serverStartBytes := b, cc_serverStartHMACPending := h\<rparr>" env b]
    by (simp add: same_conn_def)
  then show ?thesis
    by (auto simp: send_ServerStart_def Let_def split: sum.split prod.split dest: same_conn_case)
qed

lemma setup_effect:
  assumes "handleClientSetup env s cc = (Inr (), cc')"
  shows "cc_sessions cc' = cc_sessions cc \<and> keyed_conn cc'"
proof -
  obtain x cc1 where r: "conn_ReadFull 164 cc = (x, cc1)" by fastforce
  have f: "same_conn cc cc1" using conn_ReadFull_frame [of cc 164] r by simp
  obtain buf where x: "x = Inr buf" using assms r by (cases x) (auto simp: handleClientSetup_def)
  obtain sr where sr: "SetupResponse_Unmarshal SetupResponse_zero buf = Inr sr"
    using assms r x by (cases "SetupResponse_Unmarshal SetupResponse_zero buf") (auto simp: handleClientSetup_def)
  obtain c t where m: "ResolveMixedModes (sr_Mode sr) = Inr (c, t)"
    using assms r x sr by (cases "ResolveMixedModes (sr_Mode sr)")
      (auto simp: handleClientSetup_def Let_def split: if_splits)
  let ?cc = "cc1\<lparr>cc_mode := sr_Mode sr, cc_controlMode := c, cc_testMode := t\<rparr>"
  show ?thesis
  proof (cases "controlRequiresAuthentication c")
    case True
    then obtain keys enc dec where k: "setup_keys env s ?cc sr = Inr (keys, enc, dec)"
      using assms r x sr m
      by (cases "setup_keys env s ?cc sr") (auto simp: handleClientSetup_def Let_def split: if_splits)
    let ?k = "?cc\<lparr>cc_keyDerivation := Some keys, cc_controlEncrypt := Some enc, cc_controlDecrypt := Some dec\<rparr>"
    have "send_ServerStart env (ServerIV keys) ?k = (Inr (), cc')"
      using assms r x sr m k True by (simp add: handleClientSetup_def Let_def split: if_splits)
    then have "same_conn ?k cc'" using send_ServerStart_frame by (metis snd_conv)
    then show ?thesis
      using setup_keys_ivs [OF k] f by (simp add: same_conn_def keyed_conn_def)
  next
    case False
    then obtain iv where "send_ServerStart env iv ?cc = (Inr (), cc')"
      using assms r x sr m
      by (cases "ev_random env 0 16") (auto simp: handleClientSetup_def Let_def split: if_splits)
    then have "same_conn ?cc cc'" using send_ServerStart_frame by (metis snd_conv)
    then show ?thesis
      using resolved_modes [OF m] False f by (auto simp: same_conn_def keyed_conn_def)
  qed
qed

lemma open_connection_effect:
  assumes "open_connection env env' s (new_connection now l r b) = (Inr (), cc)"
  shows "cc_sessions cc = Map.empty \<and> keyed_conn cc"
proof -
  obtain x cc1 where g: "sendServerGreeting env s (new_connection now l r b) = (x, cc1)" by fastforce
  then have "handleClientSetup env' s cc1 = (Inr (), cc)"
    using assms by (cases x) (auto simp: open_connection_def)
  moreover have "same_conn (new_connection now l r b) cc1"
    using open_connection_frame [of "new_connection now l r b" env s] g by simp
  ultimately show ?thesis
    using setup_effect by (fastforce simp: same_conn_def new_connection_def)
qed

section \<open>Every step keeps the references\<close>

lemma conn_refs_none: "cc_sessions cc = Map.empty \<Longrightarrow> conn_refs s cc"
  by (simp add: conn_refs_def)

lemma system_refs_connect:
  assumes "system_refs sy" and "cc_sessions cc = Map.empty"
  shows "system_refs (sy\<lparr>sy_conns := (sy_conns sy)(c \<mapsto> cc)\<rparr>)"
proof -
  note D = system_refsD [OF assms(1)]
  have "conn_refs (sy_server sy) dd" if "((sy_conns sy)(c \<mapsto> cc)) d = Some dd" for d dd
    using that D(2) conn_refs_none [OF assms(2)] by (cases "d = c") auto
  moreover have "d = d'" if "((sy_conns sy)(c \<mapsto> cc)) d = Some dd" "((sy_conns sy)(c \<mapsto> cc)) d' = Some dd'"
      "p \<in> ran (cc_sessions dd)" "p \<in> ran (cc_sessions dd')" for d d' dd dd' p
    using that D(3) assms(2) by (cases "d = c"; cases "d' = c") auto
  moreover have "sy_conns (sy\<lparr>sy_conns := (sy_conns sy)(c \<mapsto> cc)\<rparr>) = (sy_conns sy)(c \<mapsto> cc)"
    "sy_server (sy\<lparr>sy_conns := (sy_conns sy)(c \<mapsto> cc)\<rparr>) = sy_server sy" by simp_all
  ultimately show ?thesis unfolding system_refs_def using D(1) by metis
qed

lemma system_refs_command:
  assumes "system_refs sy" and "sy_conns sy c = Some cc"
    and "command_round env (sy_server sy) cc = Some (r, s, cc')"
  shows "system_refs (sy\<lparr>sy_server := s, sy_conns := (sy_conns sy)(c \<mapsto> cc')\<rparr>)"
proof -
  note D = system_refsD [OF assms(1)]
  have "grows (sy_server sy) s \<and> refs_ok s \<and> conn_refs s cc' \<and>
      (\<forall>p \<in> ran (cc_sessions cc'). p \<in> ran (cc_sessions cc) \<or> p = length (sv_heap (sy_server sy)))"
    using D(1) D(2) [OF assms(2)] by (rule command_effect_refs [OF command_round_effect [OF assms(3)]])
  then show ?thesis by (elim conjE) (rule system_refs_conn [OF assms(1,2)])
qed

lemma NewServer_fields:
  assumes "NewServer pc pip config rg cidrs ips = Inr s"
  shows "sv_heap s = [] \<and> sv_timers s = [] \<and> sv_running s = [] \<and> sv_sessions s = Map.empty \<and>
    newPortManager (fst rg) (snd rg) = Inr (sv_portManager s)"
  using assms unfolding NewServer_def Let_def
  by (cases "newPortManager (fst rg) (snd rg)"; cases "parseAllowCIDRs pc cidrs";
      cases "parseAllowIPs pip ips") (simp_all split: if_split_asm, auto)

lemma newPortManager_unused: "newPortManager mn mx = Inr pm \<Longrightarrow> usedPorts pm = {}"
  by (auto simp: newPortManager_def Let_def split: if_splits)

lemma fresh_server:
  "fresh_system sy \<Longrightarrow> sv_heap (sy_server sy) = [] \<and> sv_timers (sy_server sy) = [] \<and>
    sv_running (sy_server sy) = [] \<and> sv_sessions (sy_server sy) = Map.empty \<and>
    usedPorts (sv_portManager (sy_server sy)) = {} \<and> sy_conns sy = Map.empty"
  using NewServer_fields newPortManager_unused unfolding fresh_system_def by blast

interpretation refs: system_invariant system_refs any_event
proof unfold_locales
  show "system_refs sy" if "fresh_system sy" for sy
    using fresh_server [OF that] by (simp add: system_refs_def refs_ok_def)
  show "system_refs (sy\<lparr>sy_conns := (sy_conns sy)(c \<mapsto> cc)\<rparr>)"
    if "system_refs sy" "open_connection env env' (sy_server sy) (new_connection now l r b) = (Inr (), cc)"
    for sy c env env' now l r b cc
    using that open_connection_effect system_refs_connect by blast
  show "system_refs (sy\<lparr>sy_conns := (sy_conns sy)(c \<mapsto> cc\<lparr>cc_in := cc_in cc @ b\<rparr>)\<rparr>)"
    if "system_refs sy" "sy_conns sy c = Some cc" for sy c cc b
    using that system_refs_conn [of sy c cc "sy_server sy" "cc\<lparr>cc_in := cc_in cc @ b\<rparr>"] system_refsD
    by (auto simp: conn_refs_def)
  show "system_refs (sy\<lparr>sy_server := s\<rparr>)"
    if "system_refs sy" "reflectPackets_round rnd send now rr p (sy_server sy) = (y, s)"
    for sy rnd send now rr p y s
    using that system_refs_server [OF that(1), of s] system_refsD(1)
      reflectPackets_round_refs [of "sy_server sy" rnd send now rr p]
      reflectPackets_round_grows [of "sy_server sy" rnd send now rr p] by simp
  show "system_refs (sy\<lparr>sy_server := s'\<rparr>)"
    if "system_refs (sy\<lparr>sy_server := s\<rparr>)" "reflector_exit p s = (x, s')" for sy s p x s'
    using that system_refs_server [OF that(1), of s'] system_refsD(1) [OF that(1)]
      reflector_exit_refs [of s p] reflector_exit_grows [of s p] by simp
  show "system_refs (sy\<lparr>sy_server := fire_timer i (sy_server sy)\<rparr>)" if "system_refs sy" for sy i
    using that system_refs_server fire_timer_refs fire_timer_grows system_refsD(1) by blast
  show "system_refs (sy\<lparr>sy_server := Server_Stop order (sy_server sy)\<rparr>)" if "system_refs sy" for sy order
    using that system_refs_server [of sy "Server_Stop order (sy_server sy)"] system_refsD(1)
    by (simp add: Server_Stop_def fold_stop_grows)
qed (use system_refs_command system_refs_drop in auto)

section \<open>Key material\<close>

definition keyed_system :: "system \<Rightarrow> bool" where
  "keyed_system sy \<longleftrightarrow> (\<forall>p < length (sv_heap (sy_server sy)). keyed_session (session_at (sy_server sy) p)) \<and>
     (\<forall>c cc. sy_conns sy c = Some cc \<longrightarrow> keyed_conn cc)"

lemma start_all_length [simp]: "length (sv_heap (snd (start_all env ps s))) = length (sv_heap s)"
proof (induction ps arbitrary: s)
  case (Cons p ps)
  obtain r t where t: "startSession (ev_listen env) (ev_now env) p s = (r, t)" by fastforce
  then have "length (sv_heap t) = length (sv_heap s)" using startSession_length by (metis snd_conv)
  then show ?case using t Cons.IH [of t] by (cases r) auto
qed simp

lemma fold_schedule_heap [simp]: "sv_heap (fold (schedule_stop now) ps s) = sv_heap s"
  by (induction ps arbitrary: s) simp_all

lemma fold_stop_length [simp]: "length (sv_heap (fold stopSession ps s)) = length (sv_heap s)"
  by (induction ps arbitrary: s) simp_all

lemma fire_timer_length [simp]: "length (sv_heap (fire_timer i s)) = length (sv_heap s)"
  by (simp add: fire_timer_def Let_def)

lemma keyed_same_length:
  assumes "grows s s'" and "length (sv_heap s') = length (sv_heap s)"
    and "\<forall>p < length (sv_heap s). keyed_session (session_at s p)"
  shows "\<forall>p < length (sv_heap s'). keyed_session (session_at s' p)"
  using assms unfolding grows_def keyed_session_def by simp

text \<open>A session is made with keys when its mode asks for them.\<close>

lemma make_session_keyed:
  assumes "make_session s cc request sid port = Inr x" and "keyed_conn cc"
  shows "keyed_session x"
proof (cases "secure_test_mode (cc_testMode cc)")
  case True
  then obtain k where k: "cc_keyDerivation cc = Some k" "length (ClientIV k) = 16" "length (ServerIV k) = 16"
    using assms(2) by (auto simp: keyed_conn_def split: option.splits)
  have "cc_testMode cc \<noteq> 1" using True by (auto simp: secure_bits bit_1_iff)
  with k assms(1) obtain a h where d: "DeriveTestSessionKeys (AESKey k) (HMACKey k) sid = Inr (a, h)"
    and x: "se_sessionKeys x = Some \<lparr>AESKey = [], HMACKey = [], TestAESKey = a, TestHMACKey = h,
      ClientIV = ClientIV k, ServerIV = ServerIV k\<rparr>"
    by (auto simp: make_session_def Let_def split: sum.splits)
  from d have "length a = 16" "length h = 32"
    by (auto simp: DeriveTestSessionKeys_def aes_NewCipher_def aes.len_E cbc_simps split: if_splits sum.splits)
  with x k show ?thesis by (simp add: keyed_session_def)
next
  case False
  moreover have "se_mode x = cc_testMode cc"
    using assms(1) by (auto simp: make_session_def Let_def split: option.splits if_splits sum.splits)
  ultimately show ?thesis by (simp add: keyed_session_def)
qed

lemma store_session_at:
  "p \<le> length (sv_heap s) \<Longrightarrow> session_at (fst (store_session sid x s cc)) p =
    (if p = length (sv_heap s) then x else session_at s p)"
  "length (sv_heap (fst (store_session sid x s cc))) = Suc (length (sv_heap s))"
  by (simp_all add: store_session_def session_at_def nth_append Let_def)

lemma keyed_conn_cong: "same_conn cc cc' \<Longrightarrow> keyed_conn cc' = keyed_conn cc"
  unfolding same_conn_def keyed_conn_def by (elim conjE) (simp only:)

lemma keyed_command:
  assumes "command_effect env s cc s' cc'" and "keyed_conn cc"
    and "\<forall>p < length (sv_heap s). keyed_session (session_at s p)"
  shows "keyed_conn cc' \<and> (\<forall>p < length (sv_heap s'). keyed_session (session_at s' p))"
  using assms(1)
proof cases
  case same
  then show ?thesis using assms keyed_conn_cong by blast
next
  case (adds sid)
  then obtain free port pm request x where
    x: "make_session (s\<lparr>sv_portManager := pm\<rparr>) cc request sid port = Inr x"
    and s': "s' = fst (store_session sid x (s\<lparr>sv_portManager := pm\<rparr>) cc)"
    and cc': "same_conn (cc\<lparr>cc_sessions := (cc_sessions cc)(sid \<mapsto> length (sv_heap s))\<rparr>) cc'"
    by (auto simp: adds_session_def)
  have "keyed_session (session_at s' p)" if "p < length (sv_heap s')" for p
    using that assms(3) make_session_keyed [OF x assms(2)]
      store_session_at(1) [of p "s\<lparr>sv_portManager := pm\<rparr>" sid x cc]
    by (cases "p = length (sv_heap s)") (auto simp: s' store_session_at(2) less_Suc_eq_le)
  moreover have "keyed_conn cc'"
    using assms(2) keyed_conn_cong [OF cc'] by (simp add: keyed_conn_def)
  ultimately show ?thesis by blast
next
  case starts
  then show ?thesis
    using assms keyed_conn_cong keyed_same_length [OF start_all_grows start_all_length] by blast
next
  case stops
  have "keyed_conn cc'" using assms(2) keyed_conn_cong [OF stops(2)] by (simp add: keyed_conn_def)
  moreover have "\<forall>p < length (sv_heap s'). keyed_session (session_at s' p)"
    unfolding stops(1) using assms(3) by (simp add: session_at_def)
  ultimately show ?thesis by blast
next
  case (stops_n cc0 sids)
  have "sv_heap (fst (stop_listed now sids (t, dd))) = sv_heap t \<and>
      keyed_conn (snd (stop_listed now sids (t, dd))) = keyed_conn dd" for now t dd
  proof (induction sids arbitrary: t dd)
    case (Cons sid sids)
    have "keyed_conn (dd\<lparr>cc_sessions := m\<rparr>) = keyed_conn dd" for m by (simp add: keyed_conn_def)
    then show ?case using Cons.IH by (cases "cc_sessions dd sid") simp_all
  qed simp
  from this [of "ev_now env" s cc0] have "sv_heap s' = sv_heap s" "keyed_conn cc' = keyed_conn cc0"
    using stops_n(2) by (metis fst_conv, metis snd_conv)
  then show ?thesis using assms keyed_conn_cong [OF stops_n(1)] by (simp add: session_at_def)
qed

lemma keyed_server:
  assumes "keyed_system sy" and "grows (sy_server sy) s" and "length (sv_heap s) = length (sv_heap (sy_server sy))"
  shows "keyed_system (sy\<lparr>sy_server := s\<rparr>)"
  using assms keyed_same_length [OF assms(2,3)] unfolding keyed_system_def by simp

lemma keyed_conns:
  assumes "keyed_system sy" and "keyed_conn cc"
    and "\<forall>p < length (sv_heap s). keyed_session (session_at s p)"
  shows "keyed_system (sy\<lparr>sy_server := s, sy_conns := (sy_conns sy)(c \<mapsto> cc)\<rparr>)"
proof -
  have "keyed_conn dd" if "((sy_conns sy)(c \<mapsto> cc)) d = Some dd" for d dd
    using that assms(1,2) by (cases "d = c") (auto simp: keyed_system_def)
  then show ?thesis using assms(3) unfolding keyed_system_def by simp
qed

lemma keyed_drop:
  assumes "keyed_system (sy\<lparr>sy_server := s, sy_conns := (sy_conns sy)(c \<mapsto> cc)\<rparr>)"
  shows "keyed_system (drop_connection c order cc s sy)"
proof -
  let ?u = "sy\<lparr>sy_server := s, sy_conns := (sy_conns sy)(c \<mapsto> cc)\<rparr>"
  have "\<forall>p < length (sv_heap s). keyed_session (session_at s p)"
    using assms by (simp add: keyed_system_def)
  then have "\<forall>p < length (sv_heap (connection_cleanup order cc s)).
      keyed_session (session_at (connection_cleanup order cc s) p)"
    unfolding connection_cleanup_def by (rule keyed_same_length [OF fold_stop_grows fold_stop_length])
  moreover have "keyed_conn dd" if "sy_conns (drop_connection c order cc s sy) d = Some dd" for d dd
  proof -
    from that have "sy_conns ?u d = Some dd" by (simp add: drop_connection_def split: if_splits)
    then show ?thesis using assms unfolding keyed_system_def by blast
  qed
  ultimately show ?thesis unfolding keyed_system_def by (simp add: drop_connection_def)
qed

lemma keyed_crashed [simp]: "keyed_system (sy\<lparr>sy_crashed := b\<rparr>) = keyed_system sy"
  by (simp add: keyed_system_def)

lemma keyed_command_step:
  assumes "keyed_system sy" and "sy_conns sy c = Some cc"
    and "command_round env (sy_server sy) cc = Some (r, s, cc')"
  shows "keyed_system (sy\<lparr>sy_server := s, sy_conns := (sy_conns sy)(c \<mapsto> cc')\<rparr>)"
proof -
  have "keyed_conn cc' \<and> (\<forall>p < length (sv_heap s). keyed_session (session_at s p))"
    using keyed_command [OF command_round_effect [OF assms(3)]] assms(1,2) by (simp add: keyed_system_def)
  then show ?thesis using keyed_conns [OF assms(1)] by blast
qed

lemma keyed_put_conn:
  "keyed_system sy \<Longrightarrow> keyed_conn cc \<Longrightarrow> keyed_system (sy\<lparr>sy_conns := (sy_conns sy)(c \<mapsto> cc)\<rparr>)"
  using keyed_conns [of sy cc "sy_server sy" c] by (simp add: keyed_system_def)

interpretation keyed: system_invariant keyed_system any_event
proof unfold_locales
  show "keyed_system sy" if "fresh_system sy" for sy
    using fresh_server [OF that] by (simp add: keyed_system_def)
  show "keyed_system (sy\<lparr>sy_conns := (sy_conns sy)(c \<mapsto> cc)\<rparr>)"
    if "keyed_system sy" "open_connection env env' (sy_server sy) (new_connection now l r b) = (Inr (), cc)"
    for sy c env env' now l r b cc
    using that open_connection_effect keyed_put_conn by blast
  show "keyed_system (sy\<lparr>sy_conns := (sy_conns sy)(c \<mapsto> cc\<lparr>cc_in := cc_in cc @ b\<rparr>)\<rparr>)"
    if "keyed_system sy" "sy_conns sy c = Some cc" for sy c cc b
    using that by (intro keyed_put_conn) (simp_all add: keyed_system_def keyed_conn_def)
  show "keyed_system (sy\<lparr>sy_server := s\<rparr>)"
    if "keyed_system sy" "reflectPackets_round rnd send now rr p (sy_server sy) = (y, s)"
    for sy rnd send now rr p y s
    using that keyed_server [OF that(1), of s] reflectPackets_round_grows [of "sy_server sy" rnd send now rr p]
      reflectPackets_round_length [of rnd send now rr p "sy_server sy"] by simp
  show "keyed_system (sy\<lparr>sy_server := s'\<rparr>)"
    if "keyed_system (sy\<lparr>sy_server := s\<rparr>)" "reflector_exit p s = (x, s')" for sy s p x s'
    using that keyed_server [OF that(1), of s'] reflector_exit_grows [of s p] reflector_exit_length [of p s]
    by simp
  show "keyed_system (sy\<lparr>sy_server := fire_timer i (sy_server sy)\<rparr>)" if "keyed_system sy" for sy i
    using that keyed_server fire_timer_grows fire_timer_length by blast
  show "keyed_system (sy\<lparr>sy_server := Server_Stop order (sy_server sy)\<rparr>)" if "keyed_system sy" for sy order
    using that keyed_server fold_stop_grows fold_stop_length unfolding Server_Stop_def by blast
qed (use keyed_command_step keyed_drop in auto)

section \<open>Ports\<close>

text \<open>
  A calm event never starts a session again after it was stopped, and draws no session identifier
  that is taken. The server itself ensures neither: a session that times out or is terminated stays with
  its connection, whose next Start-Sessions starts it again.
\<close>

definition calm :: "event \<Rightarrow> system \<Rightarrow> bool" where
  "calm e sy \<longleftrightarrow>
     (case e of
        Command c env order \<Rightarrow>
          (case sy_conns sy c of
             None \<Rightarrow> True
           | Some cc \<Rightarrow>
              (case ev_random env 0 16 of
                 Inl e \<Rightarrow> True | Inr sid \<Rightarrow> sv_sessions (sy_server sy) sid = None) \<and>
              (is_start cc \<longrightarrow> (\<forall>p \<in> ran (cc_sessions cc). live (session_at (sy_server sy) p))))
      | _ \<Rightarrow> True)"

lemma startSession_live:
  "live (session_at s q) \<Longrightarrow> live (session_at (snd (startSession listen now p s)) q)"
  by (cases "p < length (sv_heap s)") (simp_all add: startSession_def Let_def live_def)

lemma start_all_ok:
  "sessions_ok s \<Longrightarrow> \<forall>p \<in> set ps. live (session_at s p) \<Longrightarrow> sessions_ok (snd (start_all env ps s))"
proof (induction ps arbitrary: s)
  case (Cons p ps)
  obtain r t where t: "startSession (ev_listen env) (ev_now env) p s = (r, t)" by fastforce
  then have e: "t = snd (startSession (ev_listen env) (ev_now env) p s)" by simp
  have "sessions_ok t" unfolding e using Cons.prems by (intro startSession_ok) simp_all
  moreover have "\<forall>q \<in> set ps. live (session_at t q)"
    unfolding e using Cons.prems(2) by (simp add: startSession_live)
  ultimately show ?case using t Cons.IH [of t] by (cases r) auto
qed simp

lemma schedule_ok [simp]: "sessions_ok (schedule_stop now p s) = sessions_ok s"
  by (simp add: schedule_stop_def)

lemma fold_schedule_ok [simp]: "sessions_ok (fold (schedule_stop now) ps s) = sessions_ok s"
  by (induction ps arbitrary: s) simp_all

lemma stop_listed_ok: "sessions_ok (fst (stop_listed now sids (s, cc))) = sessions_ok s"
proof (induction sids arbitrary: s cc)
  case (Cons sid sids)
  then show ?case by (cases "cc_sessions cc sid") simp_all
qed simp

lemma command_effect_ok:
  assumes "command_effect env s cc s' cc'" and "sessions_ok s"
    and "case ev_random env 0 16 of Inl e \<Rightarrow> True | Inr sid \<Rightarrow> sv_sessions s sid = None"
    and "is_start cc \<Longrightarrow> \<forall>p \<in> ran (cc_sessions cc). live (session_at s p)"
  shows "sessions_ok s'"
  using assms(1)
proof cases
  case (adds sid)
  then have new: "sv_sessions s sid = None" using assms(3) by auto
  from adds obtain free port pm request x where
    al: "allocatePort free (sv_portManager s) = Some (Inr port, pm)"
    and x: "make_session (s\<lparr>sv_portManager := pm\<rparr>) cc request sid port = Inr x"
    and s': "s' = fst (store_session sid x (s\<lparr>sv_portManager := pm\<rparr>) cc)"
    by (auto simp: adds_session_def)
  have "se_sid x = sid \<and> se_reflectorPort x = port \<and> live x"
    using x by (auto simp: make_session_def live_def Let_def split: option.splits if_splits sum.splits)
  then show ?thesis unfolding s' using store_session_ok [OF assms(2) al new] by blast
next
  case starts
  have "\<forall>p \<in> set (pointers (cc_sessions cc) (ev_order env)). live (session_at s p)"
  proof
    fix p assume "p \<in> set (pointers (cc_sessions cc) (ev_order env))"
    then have "p \<in> ran (cc_sessions cc)" by (auto simp: set_pointers intro: ranI)
    then show "live (session_at s p)" using assms(4) [OF starts(2)] by blast
  qed
  then show ?thesis unfolding starts(1) using assms(2) by (rule start_all_ok [rotated])
next
  case (stops_n cc0 sids)
  then show ?thesis using stop_listed_ok [of "ev_now env" sids s cc0] assms(2) by (metis fst_conv)
qed (use assms(2) in simp_all)

definition ports_inv :: "system \<Rightarrow> bool" where
  "ports_inv sy \<longleftrightarrow> sessions_ok (sy_server sy) \<and> system_refs sy"

lemma fold_pointers_ok:
  assumes "sessions_ok s" and "\<And>sid p. m sid = Some p \<Longrightarrow> p < length (sv_heap s)"
  shows "sessions_ok (fold stopSession (pointers m order) s)"
proof -
  have "\<forall>p \<in> set (pointers m order). p < length (sv_heap s)"
    using assms(2) by (auto simp: set_pointers)
  then show ?thesis using fold_stop_ok assms(1) by blast
qed

interpretation ports_safe: system_invariant ports_inv calm
proof unfold_locales
  show "ports_inv sy" if "fresh_system sy" for sy
  proof -
    have "holding (sy_server sy) = Map.empty" using fresh_server [OF that] by (simp add: holding_def fun_eq_iff)
    then show ?thesis
      using fresh_server [OF that] refs.fresh [OF that]
      by (simp add: ports_inv_def sessions_ok_def ports.owned_def)
  qed
  show "ports_inv (sy\<lparr>sy_server := s, sy_conns := (sy_conns sy)(c \<mapsto> cc')\<rparr>)"
    if "ports_inv sy" "calm (Command c env order) sy" "sy_conns sy c = Some cc"
      "command_round env (sy_server sy) cc = Some (x, s, cc')" for sy c env order cc x s cc'
  proof -
    have "sessions_ok s"
      using that command_effect_ok [OF command_round_effect [OF that(4)]]
      by (simp add: ports_inv_def calm_def)
    then show ?thesis using that system_refs_command by (simp add: ports_inv_def)
  qed
  show "ports_inv (drop_connection c order cc s sy)"
    if "ports_inv (sy\<lparr>sy_server := s, sy_conns := (sy_conns sy)(c \<mapsto> cc)\<rparr>)" for sy s c cc order
  proof -
    have "conn_refs s cc" using that
        system_refsD(2) [of "sy\<lparr>sy_server := s, sy_conns := (sy_conns sy)(c \<mapsto> cc)\<rparr>" c cc]
      by (simp add: ports_inv_def)
    then have "sessions_ok (connection_cleanup order cc s)"
      unfolding connection_cleanup_def using that
      by (intro fold_pointers_ok) (auto simp: ports_inv_def conn_refs_def)
    then show ?thesis using that system_refs_drop unfolding ports_inv_def
      by (auto simp: drop_connection_def)
  qed
  show "ports_inv (sy\<lparr>sy_server := s\<rparr>)"
    if "ports_inv sy" "p \<in> set (sv_running (sy_server sy))"
      "reflectPackets_round rnd send now rr p (sy_server sy) = (y, s)" for sy rnd send now rr p y s
    using that refs.rounds [OF _ that(2,3)] system_refsD(1) [of sy]
      reflectPackets_round_ok [of "sy_server sy" p rnd send now rr]
    by (auto simp: ports_inv_def refs_ok_def)
  show "ports_inv (sy\<lparr>sy_server := s'\<rparr>)"
    if "ports_inv (sy\<lparr>sy_server := s\<rparr>)" "p \<in> set (sv_running s)" "reflector_exit p s = (x, s')" for sy s p x s'
    using that refs.exits [OF _ that(2,3)] reflector_exit_ok [of s p] by (auto simp: ports_inv_def)
  show "ports_inv (sy\<lparr>sy_server := fire_timer i (sy_server sy)\<rparr>)"
    if "ports_inv sy" "i < length (sv_timers (sy_server sy))" for sy i
    using that refs.timers fire_timer_ok [of "sy_server sy" i] system_refsD(1) [of sy]
    by (auto simp: ports_inv_def refs_ok_def)
  show "ports_inv (sy\<lparr>sy_server := Server_Stop order (sy_server sy)\<rparr>)" if "ports_inv sy" for sy order
    using that refs.shutdowns fold_pointers_ok [of "sy_server sy" "sv_sessions (sy_server sy)" order]
      sessions_okD(1) [of "sy_server sy"] by (auto simp: ports_inv_def Server_Stop_def)
qed (use refs.connects refs.inputs refs.crashes in \<open>auto simp: ports_inv_def\<close>)

end
