(* ===== verification/Server_Setup.thy ===== *)
theory Server_Setup
  imports Server_Control
begin

text \<open>
  What the setup of a control connection (\<open>handleClientSetup\<close>) promises: which clients get through,
  with which keys, and what the client can read back.
\<close>

section \<open>Lemmas\<close>

text \<open>An environment in which writing succeeds and the random source delivers.\<close>

definition env_ok :: "control_env \<Rightarrow> bool" where
  "env_ok env \<longleftrightarrow> (\<forall>b. ev_write env b = Inr ()) \<and>
     (\<forall>i n. \<exists>b. ev_random env i n = Inr b \<and> length b = n)"

lemma conn_Write_ok: "env_ok env \<Longrightarrow> conn_Write env b cc = (Inr (), cc\<lparr>cc_out := cc_out cc @ [b]\<rparr>)"
  by (simp add: conn_Write_def env_ok_def)

lemma env_random: "env_ok env \<Longrightarrow> \<exists>b. ev_random env i n = Inr b \<and> length b = n"
  by (simp add: env_ok_def)

lemma conn_ReadFull_front:
  "cc_in cc = a @ b \<Longrightarrow> length a = n \<Longrightarrow> conn_ReadFull n cc = (Inr a, cc\<lparr>cc_in := b\<rparr>)"
  by (simp add: conn_ReadFull_def)

definition ServerStart_of :: "control_env \<Rightarrow> bytes \<Rightarrow> ServerStart" where
  "ServerStart_of env iv = ServerStart_zero\<lparr>sst_Accept := AcceptOK, sst_ServerIV := iv,
     sst_StartTime := FromTime (ev_time env)\<rparr>"

lemma send_ServerStart_ok:
  assumes "env_ok env" and "length iv = 16"
  shows "\<exists>data. ServerStart_Marshal (ServerStart_of env iv) = Inr data \<and> send_ServerStart env iv cc =
    (Inr (), cc\<lparr>cc_serverStartBytes := data,
       cc_serverStartHMACPending := controlRequiresAuthentication (cc_controlMode cc),
       cc_out := cc_out cc @ [data]\<rparr>)"
proof -
  have "ServerStart_ok (ServerStart_of env iv)"
    using assms(2) by (simp add: ServerStart_of_def ServerStart_ok_def ServerStart_zero_def)
  then obtain data where "ServerStart_Marshal (ServerStart_of env iv) = Inr data"
    using start_codec.enc_ok by blast
  then show ?thesis
    by (simp add: send_ServerStart_def ServerStart_of_def conn_Write_ok [OF assms(1)] Let_def)
qed

lemma send_ServerStart_done: "env_ok env \<Longrightarrow> length iv = 16 \<Longrightarrow> fst (send_ServerStart env iv cc) = Inr ()"
  using send_ServerStart_ok [of env iv cc] by auto

text \<open>Up to the point where the mode is resolved.\<close>

lemma handleClientSetup_mode:
  assumes "SetupResponse_ok sr" and "SetupResponse_Marshal sr = Inr buf" and "cc_in cc = buf @ rest"
    and "ResolveMixedModes (sr_Mode sr) = Inr (c, t)"
  defines "cc' \<equiv> cc\<lparr>cc_in := rest, cc_mode := sr_Mode sr, cc_controlMode := c, cc_testMode := t\<rparr>"
  shows "handleClientSetup env s cc =
    (if sr_Mode sr AND cf_SupportedModes (sv_config s) = 0
     then (Inl (Wrap ''%w: %d'' [ErrUnsupportedMode]), cc\<lparr>cc_in := rest\<rparr>)
     else if controlRequiresAuthentication c
     then (case setup_keys env s cc' sr of
             Inl e \<Rightarrow> (Inl e, cc')
           | Inr (keys, enc, dec) \<Rightarrow> send_ServerStart env (ServerIV keys)
               (cc'\<lparr>cc_keyDerivation := Some keys, cc_controlEncrypt := Some enc,
                    cc_controlDecrypt := Some dec\<rparr>))
     else (case ev_random env 0 16 of
             Inl e \<Rightarrow> (Inl (Wrap ''failed to generate server IV'' [e]), cc')
           | Inr iv \<Rightarrow> send_ServerStart env iv cc'))"
proof -
  obtain b where "SetupResponse_Marshal sr = Inr b" "length b = 164"
    using setup_codec.enc_ok [OF assms(1)] by blast
  then have l: "length buf = 164" using assms(2) by simp
  have u: "SetupResponse_Unmarshal SetupResponse_zero buf = Inr sr"
    using setup_codec.dec_enc [OF assms(1,2), of "[]"] by simp
  have v: "ValidateRequestedMode (sr_Mode sr) = Inr ()"
    using assms(4) by (auto simp: ResolveMixedModes_def split: sum.splits)
  then have "sr_Mode sr \<noteq> 0" by (auto simp: ValidateRequestedMode_iff)
  then show ?thesis
    unfolding cc'_def
    by (simp add: handleClientSetup_def conn_ReadFull_front [OF assms(3) l] u v assms(4) Let_def)
qed

text \<open>The key identifier ends at its first zero byte; eighty other bytes name no key.\<close>

lemma keyID_of_padded: "0 \<notin> set k \<Longrightarrow> length k < 80 \<Longrightarrow> keyID_of (k @ zeros (80 - length k)) = k"
proof -
  assume k: "0 \<notin> set k" "length k < 80"
  have "takeWhile (\<lambda>b. b \<noteq> 0) k = k" using k(1) by (auto simp: takeWhile_eq_all_conv)
  moreover have "zeros (80 - length k) = 0 # zeros (79 - length k)"
    using k(2) by (simp add: zeros_def flip: replicate_Suc)
  ultimately show ?thesis
    using k by (simp add: keyID_of_def takeWhile_append2)
qed

section \<open>The greeting\<close>

definition ServerGreeting_of :: "Server \<Rightarrow> bytes \<Rightarrow> bytes \<Rightarrow> ServerGreeting" where
  "ServerGreeting_of s challenge salt = ServerGreeting_zero\<lparr>
     sg_Modes := cf_SupportedModes (sv_config s) AND NOT reservedModeBit14,
     sg_Challenge := challenge, sg_Salt := salt, sg_Count := 1024\<rparr>"

lemma ServerGreeting_of_ok: "length a = 16 \<Longrightarrow> length b = 16 \<Longrightarrow> ServerGreeting_ok (ServerGreeting_of s a b)"
  by (simp add: ServerGreeting_of_def ServerGreeting_ok_def ServerGreeting_zero_def)

lemma sendServerGreeting_ok:
  assumes "env_ok env"
  shows "\<exists>a b data. ev_random env 0 16 = Inr a \<and> length a = 16 \<and> ev_random env 1 16 = Inr b \<and> length b = 16 \<and>
    ServerGreeting_Marshal (ServerGreeting_of s a b) = Inr data \<and>
    (\<forall>cc. sendServerGreeting env s cc =
      (Inr (), cc\<lparr>cc_greeting := Some (ServerGreeting_of s a b), cc_out := cc_out cc @ [data]\<rparr>))"
proof -
  obtain a b where r: "ev_random env 0 16 = Inr a" "length a = 16" "ev_random env 1 16 = Inr b" "length b = 16"
    using env_random [OF assms] by meson
  obtain data where "ServerGreeting_Marshal (ServerGreeting_of s a b) = Inr data"
    using greeting_codec.enc_ok [OF ServerGreeting_of_ok [OF r(2,4)]] by blast
  with r show ?thesis
    by (simp add: sendServerGreeting_def ServerGreeting_of_def Let_def conn_Write_ok [OF assms])
qed

section \<open>What a secure setup needs\<close>

text \<open>What the server takes from a secure setup: the secret under the key identifier and a token
  that the challenge opens. The key material then comes from the secret alone.\<close>

definition setup_granted :: "Server \<Rightarrow> ServerGreeting \<Rightarrow> SetupResponse \<Rightarrow> bool" where
  "setup_granted s g sr \<longleftrightarrow>
     cf_SecretMap (sv_config s) (keyID_of (sr_KeyID sr)) \<noteq> None \<and>
     (case DecryptToken (sr_Token sr) (sg_Challenge g) of Inl e \<Rightarrow> False | Inr c \<Rightarrow> True)"

definition secret_keys :: "control_env \<Rightarrow> Server \<Rightarrow> ServerGreeting \<Rightarrow> SetupResponse \<Rightarrow> bytes" where
  "secret_keys env s g sr =
     (case cf_SecretMap (sv_config s) (keyID_of (sr_KeyID sr)) of
        None \<Rightarrow> []
      | Some secret \<Rightarrow> ev_kdf env secret (sg_Salt g) (unat (sg_Count g)))"

lemma setup_keys_eq:
  assumes "env_ok env" and "cc_greeting cc = Some g" and "ServerGreeting_ok g" and "SetupResponse_ok sr"
    and "length (secret_keys env s g sr) = 48" and "setup_granted s g sr"
  shows "\<exists>iv. length iv = 16 \<and> ev_random env 0 16 = Inr iv \<and>
    (let k = secret_keys env s g sr;
         keys = \<lparr>AESKey = take 16 k, HMACKey = drop 16 k, TestAESKey = [], TestHMACKey = [],
                 ClientIV = sr_ClientIV sr, ServerIV = iv\<rparr>
     in setup_keys env s cc sr = Inr (keys,
          \<lparr>cs_block = take 16 k, cs_iv = iv\<rparr>, \<lparr>cs_block = take 16 k, cs_iv = sr_ClientIV sr\<rparr>))"
proof -
  obtain secret where sec: "cf_SecretMap (sv_config s) (keyID_of (sr_KeyID sr)) = Some secret"
    using assms(6) by (auto simp: setup_granted_def)
  obtain c where tok: "DecryptToken (sr_Token sr) (sg_Challenge g) = Inr c"
    using assms(6) by (auto simp: setup_granted_def split: sum.splits)
  then have ch: "tc_Challenge c = sg_Challenge g" by (simp add: DecryptToken_iff)
  obtain iv where iv: "ev_random env 0 16 = Inr iv" "length iv = 16"
    using env_random [OF assms(1)] by blast
  let ?k = "ev_kdf env secret (sg_Salt g) (unat (sg_Count g))"
  have k: "secret_keys env s g sr = ?k" by (simp add: secret_keys_def sec)
  have d: "DeriveKey (ev_kdf env) secret (sg_Salt g) (sg_Count g) = Inr (take 16 ?k, drop 16 ?k)"
    using assms(3) by (simp add: DeriveKey_def ServerGreeting_ok_def Let_def seg_def)
  have l: "length (sr_ClientIV sr) = 16" using assms(4) by (simp add: SetupResponse_ok_def)
  show ?thesis
    unfolding k using assms(5) iv l
    by (intro exI [of _ iv]) (simp add: setup_keys_def sec assms(2) d tok ch NewCBCStream_def k Let_def)
qed

lemma setup_keys_denied:
  assumes "cc_greeting cc = Some g" and "\<not> setup_granted s g sr"
  shows "\<exists>e. setup_keys env s cc sr = Inl e"
  using assms
  by (auto simp: setup_keys_def setup_granted_def split: option.splits sum.splits)

section \<open>A server to try things on\<close>

text \<open>
  A server with some modes and one secret, under the empty identifier, for the port range given; an
  environment in which every call succeeds and nothing is random.
\<close>

definition demo_env :: control_env where
  "demo_env = \<lparr>ev_now = 0, ev_time = \<lparr>unix_secs = 0, nanosecond = 0\<rparr>, ev_random = (\<lambda>i n. Inr (zeros n)),
     ev_kdf = (\<lambda>secret salt count. zeros 48), ev_free = (\<lambda>port. True), ev_listen = (\<lambda>port. True),
     ev_interfaces = None, ev_order = [], ev_write = (\<lambda>b. Inr ())\<rparr>"

definition demo_config :: "mode \<Rightarrow> ServerConfig" where
  "demo_config modes = \<lparr>cf_SupportedModes = modes, cf_SecretMap = [[] \<mapsto> [1]],
     cf_SERVWAIT = DefaultSERVWAIT, cf_REFWAIT = DefaultREFWAIT, cf_DSCP = 0, cf_MaxHMACFailures = 0\<rparr>"

definition demo_server :: "mode \<Rightarrow> u16 \<Rightarrow> u16 \<Rightarrow> Server" where
  "demo_server modes mn mx = \<lparr>sv_config = demo_config modes, sv_sessions = Map.empty,
     sv_portManager = \<lparr>minPort = mn, maxPort = mx, usedPorts = {}\<rparr>, sv_unauthAllowCIDRs = [],
     sv_unauthAllowIPs = [], sv_heap = [], sv_timers = [], sv_running = []\<rparr>"

definition demo_greeting :: ServerGreeting where
  "demo_greeting = ServerGreeting_zero\<lparr>sg_Count := 1024\<rparr>"

definition demo_response :: "mode \<Rightarrow> SetupResponse" where
  "demo_response m = \<lparr>sr_Mode = m, sr_KeyID = zeros 80,
     sr_Token = cbc_enc (aes_encrypt (zeros 16)) (zeros 16) (zeros 64), sr_ClientIV = zeros 16\<rparr>"

definition demo_conn :: "bytes \<Rightarrow> controlConnection" where
  "demo_conn b = (new_connection 0 [10, 0, 0, 2] [10, 0, 0, 1] b)\<lparr>cc_greeting := Some demo_greeting\<rparr>"

lemma demo_env_ok: "env_ok demo_env"
  by (simp add: env_ok_def demo_env_def)

lemma demo_greeting_ok: "ServerGreeting_ok demo_greeting"
  by (simp add: demo_greeting_def ServerGreeting_ok_def ServerGreeting_zero_def)

lemma demo_response_ok: "SetupResponse_ok (demo_response m)"
  by (simp add: demo_response_def SetupResponse_ok_def aes.len_cbc_enc)

lemma demo_response_bytes: "\<exists>buf. SetupResponse_Marshal (demo_response m) = Inr buf \<and> length buf = 164"
  using setup_codec.enc_ok [OF demo_response_ok] by blast

lemma demo_granted: "setup_granted (demo_server modes mn mx) demo_greeting (demo_response m)"
proof -
  have "DecryptToken (sr_Token (demo_response m)) (sg_Challenge demo_greeting) =
      Inr \<lparr>tc_Challenge = zeros 16, tc_AESKey = zeros 16, tc_HMACKey = zeros 32\<rparr>"
    by (simp add: DecryptToken_iff CreateToken_eq demo_response_def demo_greeting_def ServerGreeting_zero_def)
      (simp add: zeros_def flip: replicate_add)
  moreover have "keyID_of (zeros 80) = []" using keyID_of_padded [of "[]"] by simp
  ultimately show ?thesis
    by (simp add: setup_granted_def demo_server_def demo_config_def) (simp add: demo_response_def)
qed

lemma demo_keys: "secret_keys demo_env (demo_server modes mn mx) g (demo_response m) = zeros 48"
proof -
  have "keyID_of (zeros 80) = []" using keyID_of_padded [of "[]"] by simp
  then show ?thesis
    by (simp add: secret_keys_def demo_server_def demo_config_def demo_env_def demo_response_def)
qed

lemma demo_modes:
  "ResolveMixedModes 1 = Inr (1, 1)" "ResolveMixedModes 4 = Inr (4, 4)" "ResolveMixedModes 65 = Inr (65, 65)"
  "ResolveMixedModes 17 = Inr (17, 17)"
  "controlRequiresAuthentication 4" "\<not> controlRequiresAuthentication 1" "\<not> controlRequiresAuthentication 65"
  "\<not> controlRequiresAuthentication 17"
  by (simp_all add: ResolveMixedModes_def ValidateRequestedMode_def securityMask_def
      controlRequiresAuthentication_def)

text \<open>The connection after a secure setup.\<close>

definition keys_from :: "bytes \<Rightarrow> SetupResponse \<Rightarrow> bytes \<Rightarrow> TWAMPKeys" where
  "keys_from k sr iv = \<lparr>AESKey = take 16 k, HMACKey = drop 16 k, TestAESKey = [], TestHMACKey = [],
     ClientIV = sr_ClientIV sr, ServerIV = iv\<rparr>"

definition secured :: "bytes \<Rightarrow> SetupResponse \<Rightarrow> bytes \<Rightarrow> bytes \<Rightarrow> controlConnection \<Rightarrow> controlConnection" where
  "secured k sr iv data cc = cc\<lparr>cc_keyDerivation := Some (keys_from k sr iv),
     cc_controlEncrypt := Some \<lparr>cs_block = take 16 k, cs_iv = iv\<rparr>,
     cc_controlDecrypt := Some \<lparr>cs_block = take 16 k, cs_iv = sr_ClientIV sr\<rparr>,
     cc_serverStartBytes := data, cc_serverStartHMACPending := True, cc_out := cc_out cc @ [data]\<rparr>"

lemma ServerStart_of_ok: "length iv = 16 \<Longrightarrow> ServerStart_ok (ServerStart_of env iv)"
  by (simp add: ServerStart_of_def ServerStart_ok_def ServerStart_zero_def)

lemma setup_secure_ok:
  assumes "env_ok env" and "cc_greeting cc = Some g" and "ServerGreeting_ok g" and "SetupResponse_ok sr"
    and "SetupResponse_Marshal sr = Inr buf" and "cc_in cc = buf @ rest"
    and "ResolveMixedModes (sr_Mode sr) = Inr (c, t)" and "controlRequiresAuthentication c"
    and "length (secret_keys env s g sr) = 48"
    and "sr_Mode sr AND cf_SupportedModes (sv_config s) \<noteq> 0" and "setup_granted s g sr"
  shows "\<exists>iv data. length iv = 16 \<and> ServerStart_Marshal (ServerStart_of env iv) = Inr data \<and>
    handleClientSetup env s cc = (Inr (), secured (secret_keys env s g sr) sr iv data
      (cc\<lparr>cc_in := rest, cc_mode := sr_Mode sr, cc_controlMode := c, cc_testMode := t\<rparr>))"
proof -
  let ?cc = "cc\<lparr>cc_in := rest, cc_mode := sr_Mode sr, cc_controlMode := c, cc_testMode := t\<rparr>"
    and ?k = "secret_keys env s g sr"
  obtain iv where iv: "length iv = 16" and k: "setup_keys env s ?cc sr =
      Inr (keys_from ?k sr iv, \<lparr>cs_block = take 16 ?k, cs_iv = iv\<rparr>, \<lparr>cs_block = take 16 ?k, cs_iv = sr_ClientIV sr\<rparr>)"
    using setup_keys_eq [of env ?cc g sr s] assms unfolding Let_def keys_from_def by auto
  let ?kk = "?cc\<lparr>cc_keyDerivation := Some (keys_from ?k sr iv),
    cc_controlEncrypt := Some \<lparr>cs_block = take 16 ?k, cs_iv = iv\<rparr>,
    cc_controlDecrypt := Some \<lparr>cs_block = take 16 ?k, cs_iv = sr_ClientIV sr\<rparr>\<rparr>"
  obtain data where data: "ServerStart_Marshal (ServerStart_of env iv) = Inr data"
    and st: "send_ServerStart env iv ?kk =
      (Inr (), ?kk\<lparr>cc_serverStartBytes := data, cc_serverStartHMACPending := True,
         cc_out := cc_out cc @ [data]\<rparr>)"
    using send_ServerStart_ok [OF assms(1) iv, of ?kk] assms(8) by auto
  have "ServerIV (keys_from ?k sr iv) = iv" by (simp add: keys_from_def)
  then have "handleClientSetup env s cc = (Inr (), ?kk\<lparr>cc_serverStartBytes := data,
      cc_serverStartHMACPending := True, cc_out := cc_out cc @ [data]\<rparr>)"
    using assms(8,10) k st by (simp add: handleClientSetup_mode [OF assms(4-7), where env = env and s = s])
  then show ?thesis
    using iv data by (intro exI [of _ iv] exI [of _ data]) (simp add: secured_def)
qed

section \<open>Properties\<close>

text \<open>C11: the setup of a secure control connection. A well-formed response whose mode resolves
  to authenticated or encrypted control is accepted exactly when the mode has a bit in common with
  the supported ones, the key identifier names a secret, and the token opens under the challenge.
  Then both directions start from the key derived from the secret, the salt and the count of the
  greeting, with the client's and the server's IV; the last thing written is a Server-Start
  message that carries the server's IV, and its HMAC is still owed.\<close>

theorem setup_secure:
  assumes "env_ok env" and "cc_greeting cc = Some g" and "ServerGreeting_ok g" and "SetupResponse_ok sr"
    and "SetupResponse_Marshal sr = Inr buf" and "cc_in cc = buf @ rest"
    and "ResolveMixedModes (sr_Mode sr) = Inr (c, t)" and "controlRequiresAuthentication c"
    and "length (secret_keys env s g sr) = 48"
  shows "case handleClientSetup env s cc of
      (Inl e, cc') \<Rightarrow> sr_Mode sr AND cf_SupportedModes (sv_config s) = 0 \<or> \<not> setup_granted s g sr
    | (Inr _, cc') \<Rightarrow>
        sr_Mode sr AND cf_SupportedModes (sv_config s) \<noteq> 0 \<and> setup_granted s g sr \<and>
        cc_in cc' = rest \<and> cc_controlMode cc' = c \<and> cc_testMode cc' = t \<and>
        (\<exists>iv data. length iv = 16 \<and>
           (let k = take 16 (secret_keys env s g sr) in
            cc_keyDerivation cc' = Some \<lparr>AESKey = k, HMACKey = drop 16 (secret_keys env s g sr),
              TestAESKey = [], TestHMACKey = [], ClientIV = sr_ClientIV sr, ServerIV = iv\<rparr> \<and>
            cc_controlEncrypt cc' = Some \<lparr>cs_block = k, cs_iv = iv\<rparr> \<and>
            cc_controlDecrypt cc' = Some \<lparr>cs_block = k, cs_iv = sr_ClientIV sr\<rparr>) \<and>
           cc_serverStartHMACPending cc' \<and> cc_serverStartBytes cc' = data \<and>
           cc_out cc' = cc_out cc @ [data] \<and>
           ServerStart_Unmarshal ServerStart_zero data = Inr (ServerStart_of env iv))"
proof (cases "sr_Mode sr AND cf_SupportedModes (sv_config s) \<noteq> 0 \<and> setup_granted s g sr")
  case False
  let ?cc = "cc\<lparr>cc_in := rest, cc_mode := sr_Mode sr, cc_controlMode := c, cc_testMode := t\<rparr>"
  show ?thesis
    using False handleClientSetup_mode [OF assms(4-7), where env = env and s = s] assms(2,8)
      setup_keys_denied [of ?cc g s sr env] by auto
next
  case True
  then obtain iv data where iv: "length iv = 16" and d: "ServerStart_Marshal (ServerStart_of env iv) = Inr data"
    and h: "handleClientSetup env s cc = (Inr (), secured (secret_keys env s g sr) sr iv data
      (cc\<lparr>cc_in := rest, cc_mode := sr_Mode sr, cc_controlMode := c, cc_testMode := t\<rparr>))"
    using setup_secure_ok [OF assms] by blast
  have "ServerStart_Unmarshal ServerStart_zero data = Inr (ServerStart_of env iv)"
    using start_codec.dec_enc [OF ServerStart_of_ok [OF iv] d, of "[]"] by simp
  then show ?thesis using True iv by (simp add: h secured_def keys_from_def Let_def)
qed

text \<open>The witness: encrypted control with the secret that the empty key identifier names.\<close>

theorem setup_secure_witness:
  "\<exists>buf. SetupResponse_Marshal (demo_response 4) = Inr buf \<and>
     (case handleClientSetup demo_env (demo_server 4 0 0) (demo_conn buf) of
        (Inl e, cc') \<Rightarrow> False
      | (Inr _, cc') \<Rightarrow> cc_controlMode cc' = 4 \<and> cc_serverStartHMACPending cc' \<and>
          cc_controlDecrypt cc' = Some \<lparr>cs_block = zeros 16, cs_iv = zeros 16\<rparr>)"
proof -
  obtain buf where b: "SetupResponse_Marshal (demo_response 4) = Inr buf"
    using demo_response_bytes by blast
  have r: "ResolveMixedModes (sr_Mode (demo_response 4)) = Inr (4, 4)"
    by (simp add: demo_response_def demo_modes)
  have c: "cc_greeting (demo_conn buf) = Some demo_greeting" "cc_in (demo_conn buf) = buf @ []"
    by (simp_all add: demo_conn_def new_connection_def)
  have m: "sr_Mode (demo_response 4) AND cf_SupportedModes (sv_config (demo_server 4 0 0)) \<noteq> 0"
    by (simp add: demo_response_def demo_server_def demo_config_def)
  have z: "take 16 (zeros 48) = zeros 16" "sr_ClientIV (demo_response 4) = zeros 16"
    by (simp_all add: zeros_def demo_response_def)
  have "length (secret_keys demo_env (demo_server 4 0 0) demo_greeting (demo_response 4)) = 48"
    by (simp add: demo_keys)
  note P = setup_secure [OF demo_env_ok c(1) demo_greeting_ok demo_response_ok b c(2) r demo_modes(5) this,
      unfolded demo_keys z Let_def]
  have "case handleClientSetup demo_env (demo_server 4 0 0) (demo_conn buf) of
        (Inl e, cc') \<Rightarrow> False
      | (Inr _, cc') \<Rightarrow> cc_controlMode cc' = 4 \<and> cc_serverStartHMACPending cc' \<and>
          cc_controlDecrypt cc' = Some \<lparr>cs_block = zeros 16, cs_iv = zeros 16\<rparr>"
  proof (cases "handleClientSetup demo_env (demo_server 4 0 0) (demo_conn buf)")
    case (Pair x cc')
    show ?thesis
    proof (cases x)
      case (Inl e)
      then show ?thesis
        using m demo_granted [of 4 0 0 4] P [unfolded Pair Inl prod.case sum.case]
        by blast
    next
      case (Inr u)
      then show ?thesis
        unfolding Pair Inr prod.case sum.case
        using P [unfolded Pair Inr prod.case sum.case] by blast
    qed
  qed
  with b show ?thesis by (intro exI [of _ buf] conjI)
qed

text \<open>C29: a mode is accepted as soon as it shares one bit with the supported modes; the security
  bits are not compared by themselves. A server configured for encrypted control that supports a
  feature as well opens an unauthenticated connection for a client that asks for unauthenticated
  control and that feature, and asks it for no key.\<close>

theorem setup_overlap:
  assumes "env_ok env" and "SetupResponse_ok sr" and "SetupResponse_Marshal sr = Inr buf"
    and "cc_in cc = buf @ rest" and "ResolveMixedModes (sr_Mode sr) = Inr (c, t)"
    and "\<not> controlRequiresAuthentication c"
  shows "fst (handleClientSetup env s cc) = Inr () \<longleftrightarrow> sr_Mode sr AND cf_SupportedModes (sv_config s) \<noteq> 0"
proof -
  obtain iv where "ev_random env 0 16 = Inr iv" "length iv = 16"
    using env_random [OF assms(1)] by blast
  then show ?thesis
    using send_ServerStart_done [OF assms(1), of iv] assms(6)
    by (simp add: handleClientSetup_mode [OF assms(2-5), where env = env and s = s])
qed

text \<open>The witness: a server for encrypted control (4) with symmetrical size (64), and a client that
  asks for unauthenticated control (1) with symmetrical size.\<close>

theorem setup_overlap_witness:
  "\<exists>buf. SetupResponse_Marshal (demo_response 65) = Inr buf \<and>
     fst (handleClientSetup demo_env (demo_server 68 0 0) (demo_conn buf)) = Inr ()"
proof -
  obtain buf where b: "SetupResponse_Marshal (demo_response 65) = Inr buf"
    using demo_response_bytes by blast
  have r: "ResolveMixedModes (sr_Mode (demo_response 65)) = Inr (65, 65)"
    by (simp add: demo_response_def demo_modes)
  have "cc_in (demo_conn buf) = buf @ []" by (simp add: demo_conn_def new_connection_def)
  from setup_overlap [OF demo_env_ok demo_response_ok b this r demo_modes(7), of "demo_server 68 0 0"]
  show ?thesis using b by (simp add: demo_response_def demo_server_def demo_config_def)
qed

end
