(* ===== verification/Server_Channel.thy ===== *)
theory Server_Channel
  imports Server_Setup
begin

text \<open>
  The control channel as the two ends see it: which bytes the server accepts as a command, and what
  a client reads from a reply.
\<close>

section \<open>Reading a command\<close>

lemma controlCommandLength_min: "controlCommandLength c h = Inr n \<Longrightarrow> 32 \<le> n"
  by (auto simp: controlCommandLength_def Let_def split: if_splits)

lemma controlCommandLength_front:
  "16 \<le> length h \<Longrightarrow> controlCommandLength c (take 16 h) = controlCommandLength c h"
  by (simp add: controlCommandLength_def seg_def drop_take min_def)

text \<open>The first block is decrypted to learn the length, then the rest; together that is the
  decryption of the whole.\<close>

lemma readEncryptedCommand_eq:
  assumes st: "cc_controlDecrypt cc = Some st" "stream_ok st" and l: "16 \<le> length (cc_in cc)"
  defines "dec \<equiv> cbc_dec (aes_decrypt (cs_block st)) (cs_iv st)"
  defines "fp \<equiv> dec (take 16 (cc_in cc))"
  assumes n: "controlCommandLength (fp ! 0) fp = Inr n" "16 dvd n" "n \<le> length (cc_in cc)"
  shows "readEncryptedCommand cc =
    (let cc' = cc\<lparr>cc_in := drop n (cc_in cc),
           cc_controlDecrypt := Some (st\<lparr>cs_iv := last_block (take n (cc_in cc))\<rparr>)\<rparr>
     in (check_command_hmac cc' (dec (take n (cc_in cc))), cc'))"
proof -
  have n32: "32 \<le> n" using n(1) by (rule controlCommandLength_min)
  let ?a = "take 16 (cc_in cc)" and ?b = "take (n - 16) (drop 16 (cc_in cc))"
  have ab: "?a @ ?b = take n (cc_in cc)"
  proof -
    have "take n (cc_in cc) = take 16 (cc_in cc) @ take (n - 16) (drop 16 (cc_in cc))"
      using n32 take_add [of 16 "n - 16" "cc_in cc"] by simp
    then show ?thesis by simp
  qed
  have wa: "whole_blocks ?a" and wb: "whole_blocks ?b"
    using l n n32 by (auto simp: whole_blocks_def dvd_diff_nat)
  let ?st1 = "st\<lparr>cs_iv := last_block (cs_iv st @ ?a)\<rparr>"
  have st1: "stream_ok ?st1" using CBCStream_Decrypt_eq(2) [OF st(2) wa] .
  have d1: "CBCStream_Decrypt st ?a = (Inr fp, ?st1)"
    using CBCStream_Decrypt_eq(1) [OF st(2) wa] by (simp add: fp_def dec_def)
  have d2: "CBCStream_Decrypt ?st1 ?b = (Inr (cbc_dec (aes_decrypt (cs_block st)) (last_block (cs_iv st @ ?a)) ?b),
      st\<lparr>cs_iv := last_block (last_block (cs_iv st @ ?a) @ ?b)\<rparr>)"
    using CBCStream_Decrypt_eq(1) [OF st1 wb] by simp
  have iv: "length (cs_iv st) = 16" "length (cs_block st) = 16" using st(2) by (simp_all add: stream_ok_def)
  have fp: "length fp = 16" unfolding fp_def dec_def using iv l by (simp add: aes.len_cbc_dec)
  have "dec (?a @ ?b) = fp @ cbc_dec (aes_decrypt (cs_block st)) (last_block (cs_iv st @ ?a)) ?b"
    unfolding fp_def dec_def using iv l by (intro aes.cbc_dec_append) simp_all
  then have whole: "fp @ cbc_dec (aes_decrypt (cs_block st)) (last_block (cs_iv st @ ?a)) ?b = dec (take n (cc_in cc))"
    by (simp add: ab)
  have "last_block (last_block (cs_iv st @ ?a) @ ?b) = last_block (cs_iv st @ take n (cc_in cc))"
    using l ab by (subst last_block_chain) simp_all
  also have "\<dots> = last_block (take n (cc_in cc))" using n32 n(3) by (intro last_block_append) simp
  finally have lb: "last_block (last_block (cs_iv st @ ?a) @ ?b) = last_block (take n (cc_in cc))" .
  have r1: "conn_ReadFull 16 cc = (Inr ?a, cc\<lparr>cc_in := drop 16 (cc_in cc)\<rparr>)"
    using l by (simp add: conn_ReadFull_def)
  have r2: "conn_ReadFull (n - 16) (cc\<lparr>cc_in := drop 16 (cc_in cc), cc_controlDecrypt := Some ?st1\<rparr>) =
      (Inr ?b, cc\<lparr>cc_in := drop n (cc_in cc), cc_controlDecrypt := Some ?st1\<rparr>)"
    using n(3) n32 by (simp add: conn_ReadFull_def)
  show ?thesis
    using n32 n(1,2) st(1)
    by (simp add: readEncryptedCommand_def r1 stream_Decrypt_def d1 fp r2 nat_diff_distrib d2 whole lb
        Let_def mod_eq_0_iff_dvd of_nat_diff)
qed

text \<open>What a read that succeeds says about the input.\<close>

lemma readEncryptedCommand_read:
  assumes st: "cc_controlDecrypt cc = Some st" "stream_ok st" and r: "readEncryptedCommand cc = (Inr cmd, cc')"
  defines "dec \<equiv> cbc_dec (aes_decrypt (cs_block st)) (cs_iv st)"
  obtains n where "16 \<le> length (cc_in cc)" "n \<le> length (cc_in cc)" "16 dvd n"
    "controlCommandLength (dec (take 16 (cc_in cc)) ! 0) (dec (take 16 (cc_in cc))) = Inr n"
proof -
  let ?a = "take 16 (cc_in cc)"
  have l: "16 \<le> length (cc_in cc)"
    using r st by (auto simp: readEncryptedCommand_def conn_ReadFull_def split: if_splits)
  then have wa: "whole_blocks ?a" by (auto simp: whole_blocks_def)
  have d1: "CBCStream_Decrypt st ?a = (Inr (dec ?a), st\<lparr>cs_iv := last_block (cs_iv st @ ?a)\<rparr>)"
    using CBCStream_Decrypt_eq(1) [OF st(2) wa] by (simp add: dec_def)
  have iv: "length (cs_iv st) = 16" "length (cs_block st) = 16" using st(2) by (simp_all add: stream_ok_def)
  have fp: "length (dec ?a) = 16" unfolding dec_def using iv l by (simp add: aes.len_cbc_dec)
  have r1: "conn_ReadFull 16 cc = (Inr ?a, cc\<lparr>cc_in := drop 16 (cc_in cc)\<rparr>)"
    using l by (simp add: conn_ReadFull_def)
  obtain n where n: "controlCommandLength (dec ?a ! 0) (dec ?a) = Inr n"
    using r st(1) by (cases "controlCommandLength (dec ?a ! 0) (dec ?a)")
      (simp_all add: readEncryptedCommand_def r1 stream_Decrypt_def d1)
  have n32: "32 \<le> n" using n by (rule controlCommandLength_min)
  have "16 dvd n"
    using r st(1) n by (cases "16 dvd n")
      (simp_all add: readEncryptedCommand_def r1 stream_Decrypt_def d1 mod_eq_0_iff_dvd)
  moreover have "n \<le> length (cc_in cc)"
  proof (rule ccontr)
    assume "\<not> n \<le> length (cc_in cc)"
    then have "\<not> n - 16 \<le> length (drop 16 (cc_in cc))" using n32 by simp
    then show False
      using r st(1) n n32 \<open>16 dvd n\<close> fp
      by (simp add: readEncryptedCommand_def r1 stream_Decrypt_def d1 mod_eq_0_iff_dvd Let_def
          nat_diff_distrib conn_ReadFull_def [of "n - 16"])
  qed
  ultimately show ?thesis using that l n by blast
qed

lemma check_command_hmac_iff:
  assumes "cc_keyDerivation cc = Some keys" and "length (HMACKey keys) = 32" and "16 \<le> length cmd"
  shows "check_command_hmac cc cmd = Inr cmd' \<longleftrightarrow> cmd' = cmd \<and>
    CalculateHMAC (HMACKey keys) (take (length cmd - 16) cmd) = Inr (drop (length cmd - 16) cmd)"
  using assms by (auto simp: check_command_hmac_def VerifyHMAC_def CalculateHMAC_def Let_def)

text \<open>
  The bytes a peer sends for a command: encrypted under the stream, of the length the command has,
  with the HMAC over everything before its last 16 bytes in these.
\<close>

definition sealed_command :: "CBCStream \<Rightarrow> bytes \<Rightarrow> bytes \<Rightarrow> bytes \<Rightarrow> CBCStream \<Rightarrow> bool" where
  "sealed_command st hmacKey cmd c st' \<longleftrightarrow>
     CBCStream_Encrypt st cmd = (Inr c, st') \<and>
     controlCommandLength (cmd ! 0) cmd = Inr (length cmd) \<and>
     CalculateHMAC hmacKey (take (length cmd - 16) cmd) = Inr (drop (length cmd - 16) cmd)"

lemma cbc_dec_first:
  assumes "length k = 16" and "length iv = 16" and "16 dvd length c" and "16 \<le> length c"
  shows "take 16 (cbc_dec (aes_decrypt k) iv c) = cbc_dec (aes_decrypt k) iv (take 16 c)"
proof -
  have "cbc_dec (aes_decrypt k) iv (take 16 c @ drop 16 c) = cbc_dec (aes_decrypt k) iv (take 16 c) @
      cbc_dec (aes_decrypt k) (last_block (iv @ take 16 c)) (drop 16 c)"
    using assms by (intro aes.cbc_dec_append) simp_all
  moreover have "length (cbc_dec (aes_decrypt k) iv (take 16 c)) = 16"
    using assms by (simp add: aes.len_cbc_dec)
  ultimately show ?thesis by simp
qed

lemma read_is_sealed:
  assumes "cc_controlDecrypt cc = Some st" and "stream_ok st"
    and "cc_keyDerivation cc = Some keys" and "length (HMACKey keys) = 32"
    and r: "readEncryptedCommand cc = (Inr cmd, cc')"
  shows "\<exists>c rest st'. cc_in cc = c @ rest \<and> sealed_command st (HMACKey keys) cmd c st' \<and>
    cc' = cc\<lparr>cc_in := rest, cc_controlDecrypt := Some st'\<rparr>"
proof -
  let ?dec = "cbc_dec (aes_decrypt (cs_block st)) (cs_iv st)"
  have iv: "length (cs_iv st) = 16" "length (cs_block st) = 16" using assms(2) by (simp_all add: stream_ok_def)
  obtain n where n: "16 \<le> length (cc_in cc)" "n \<le> length (cc_in cc)" "16 dvd n"
      "controlCommandLength (?dec (take 16 (cc_in cc)) ! 0) (?dec (take 16 (cc_in cc))) = Inr n"
    using assms(1,2) r by (rule readEncryptedCommand_read)
  let ?c = "take n (cc_in cc)" and ?st = "st\<lparr>cs_iv := last_block (take n (cc_in cc))\<rparr>"
  have n32: "32 \<le> n" using n(4) by (rule controlCommandLength_min)
  have len: "length (?dec ?c) = n" using iv n by (simp add: aes.len_cbc_dec)
  note e = readEncryptedCommand_eq [OF assms(1,2) n(1,4,3,2)]
  have cc': "cc' = cc\<lparr>cc_in := drop n (cc_in cc), cc_controlDecrypt := Some ?st\<rparr>"
    and chk: "check_command_hmac cc' (?dec ?c) = Inr cmd" using r unfolding e Let_def by auto
  have k: "cc_keyDerivation cc' = Some keys" by (simp add: cc' assms(3))
  have cmd: "cmd = ?dec ?c"
    "CalculateHMAC (HMACKey keys) (take (length cmd - 16) cmd) = Inr (drop (length cmd - 16) cmd)"
    using chk len n32 by (simp_all add: check_command_hmac_iff [OF k assms(4)])
  have "take 16 (?dec ?c) = ?dec (take 16 (cc_in cc))"
    using iv n n32 by (subst cbc_dec_first) (simp_all add: min_def)
  moreover from this have "?dec ?c ! 0 = ?dec (take 16 (cc_in cc)) ! 0"
    by (metis nth_take zero_less_numeral)
  ultimately have cl: "controlCommandLength (cmd ! 0) cmd = Inr (length cmd)"
    using n(4) controlCommandLength_front [of "?dec ?c" "?dec ?c ! 0"] len n32 cmd(1) by simp
  have w: "whole_blocks (?dec ?c)" using len n n32 by (auto simp: whole_blocks_def)
  have "cbc_enc (aes_encrypt (cs_block st)) (cs_iv st) (?dec ?c) = ?c"
    using iv n by (simp add: aes.cbc_enc_dec)
  then have "CBCStream_Encrypt st cmd = (Inr ?c, ?st)"
    using CBCStream_Encrypt_eq(1) [OF assms(2) w] n n32 by (simp add: cmd(1) last_block_append)
  then show "\<exists>c rest st'. cc_in cc = c @ rest \<and> sealed_command st (HMACKey keys) cmd c st' \<and>
       cc' = cc\<lparr>cc_in := rest, cc_controlDecrypt := Some st'\<rparr>"
    using cl cmd(2) cc' by (intro exI [of _ ?c] exI [of _ "drop n (cc_in cc)"] exI [of _ ?st])
      (simp add: sealed_command_def)
qed

lemma sealed_is_read:
  assumes "cc_controlDecrypt cc = Some st" and "stream_ok st"
    and "cc_keyDerivation cc = Some keys" and "length (HMACKey keys) = 32"
    and i: "cc_in cc = c @ rest" and sealed: "sealed_command st (HMACKey keys) cmd c st'"
  defines "cc' \<equiv> cc\<lparr>cc_in := rest, cc_controlDecrypt := Some st'\<rparr>"
  shows "readEncryptedCommand cc = (Inr cmd, cc')"
proof -
  let ?dec = "cbc_dec (aes_decrypt (cs_block st)) (cs_iv st)"
  have iv: "length (cs_iv st) = 16" "length (cs_block st) = 16" using assms(2) by (simp_all add: stream_ok_def)
  have enc: "CBCStream_Encrypt st cmd = (Inr c, st')"
    and cl: "controlCommandLength (cmd ! 0) cmd = Inr (length cmd)"
    and mac: "CalculateHMAC (HMACKey keys) (take (length cmd - 16) cmd) = Inr (drop (length cmd - 16) cmd)"
    using sealed by (simp_all add: sealed_command_def)
  have l: "32 \<le> length cmd" using cl by (rule controlCommandLength_min)
  have w: "whole_blocks cmd"
    using enc l by (auto simp: CBCStream_Encrypt_def whole_blocks_def mod_eq_0_iff_dvd split: if_splits)
  have c: "c = cbc_enc (aes_encrypt (cs_block st)) (cs_iv st) cmd" "st' = st\<lparr>cs_iv := last_block (cs_iv st @ c)\<rparr>"
    using enc CBCStream_Encrypt_eq(1) [OF assms(2) w] by auto
  have d: "16 dvd length cmd" using w by (simp add: whole_blocks_def)
  have lc: "length c = length cmd" using iv d by (simp add: c(1) aes.len_cbc_enc)
  have tk: "take (length cmd) (cc_in cc) = c" "drop (length cmd) (cc_in cc) = rest" by (simp_all add: i lc)
  have dc: "?dec c = cmd" using iv d by (simp add: c(1) aes.cbc_dec_enc)
  have f: "?dec (take 16 (cc_in cc)) = take 16 cmd"
    using cbc_dec_first [of "cs_block st" "cs_iv st" c] iv d l lc by (simp add: dc i)
  have n: "controlCommandLength (?dec (take 16 (cc_in cc)) ! 0) (?dec (take 16 (cc_in cc))) = Inr (length cmd)"
    unfolding f using cl l controlCommandLength_front [of cmd "cmd ! 0"] by simp
  have "st' = st\<lparr>cs_iv := last_block c\<rparr>" using l lc by (simp add: c(2) last_block_append)
  then have "readEncryptedCommand cc = (check_command_hmac cc' cmd, cc')"
    using readEncryptedCommand_eq [OF assms(1,2) _ n d] l lc
    by (simp add: i tk dc cc'_def Let_def)
  moreover have "check_command_hmac cc' cmd = Inr cmd"
    using mac l check_command_hmac_iff [of cc' keys cmd cmd] assms(3,4) by (simp add: cc'_def)
  ultimately show ?thesis by simp
qed

section \<open>Replies\<close>

text \<open>
  A connection with keys, and the bytes of a reply as its reader takes them: they decrypt, at the
  point of the stream the reader has reached, to a message whose last 16 bytes are the HMAC over
  the prefix that is owed and everything before them.
\<close>

definition secure_conn :: "CBCStream \<Rightarrow> TWAMPKeys \<Rightarrow> controlConnection \<Rightarrow> bool" where
  "secure_conn st keys cc \<longleftrightarrow> controlRequiresAuthentication (cc_controlMode cc) \<and>
     cc_controlEncrypt cc = Some st \<and> stream_ok st \<and>
     cc_keyDerivation cc = Some keys \<and> length (HMACKey keys) = 32"

definition sealed_reply :: "CBCStream \<Rightarrow> bytes \<Rightarrow> bytes \<Rightarrow> bytes \<Rightarrow> bytes \<Rightarrow> CBCStream \<Rightarrow> bool" where
  "sealed_reply st hmacKey pre c m st' \<longleftrightarrow>
     CBCStream_Decrypt st c = (Inr m, st') \<and>
     CalculateHMACWithPrefix hmacKey pre (take (length m - 16) m) = Inr (drop (length m - 16) m)"

lemma stream_step:
  assumes "stream_ok st" and "whole_blocks m"
  obtains c st' where "CBCStream_Encrypt st m = (Inr c, st')" "CBCStream_Decrypt st c = (Inr m, st')" "stream_ok st'"
proof -
  let ?c = "cbc_enc (aes_encrypt (cs_block st)) (cs_iv st) m"
  note e = CBCStream_Encrypt_eq [OF assms]
  have iv: "length (cs_iv st) = 16" "length (cs_block st) = 16" using assms(1) by (simp_all add: stream_ok_def)
  have l: "length ?c = length m" using iv assms(2) by (simp add: aes.len_cbc_enc whole_blocks_def)
  then have w: "whole_blocks ?c" using assms(2) by (auto simp: whole_blocks_def)
  have d: "cbc_dec (aes_decrypt (cs_block st)) (cs_iv st) ?c = m"
    using iv assms(2) by (simp add: aes.cbc_dec_enc whole_blocks_def)
  show ?thesis
  proof (rule that)
    show "CBCStream_Decrypt st ?c = (Inr m, st\<lparr>cs_iv := last_block (cs_iv st @ ?c)\<rparr>)"
      using CBCStream_Decrypt_eq(1) [OF assms(1) w] d by simp
  qed (use e in auto)
qed

lemma copy_at_end:
  "length mac = 16 \<Longrightarrow> 16 \<le> length m \<Longrightarrow>
    copy_at m (length m - 16) (length m) mac = take (length m - 16) m @ mac"
  by (simp add: copy_at_def)

lemma sendControlMessage_secure:
  assumes ok: "env_ok env" and s: "secure_conn st keys cc" and m: "whole_blocks m"
  obtains mac c st' where "length mac = 16" "sealed_reply st (HMACKey keys) pre c (take (length m - 16) m @ mac) st'"
    "stream_ok st'" "sendControlMessage env m pre cc =
      (Inr (), cc\<lparr>cc_controlEncrypt := Some st', cc_out := cc_out cc @ [c]\<rparr>)"
proof -
  have l: "16 \<le> length m" using m by (rule whole_blocks_16)
  let ?m = "take (length m - 16) m"
  obtain mac where mac: "CalculateHMACWithPrefix (HMACKey keys) pre ?m = Inr mac" "length mac = 16"
    using s by (simp add: CalculateHMACWithPrefix_def secure_conn_def)
  have w: "whole_blocks (?m @ mac)" using m l mac by (auto simp: whole_blocks_def)
  obtain c st' where c: "CBCStream_Encrypt st (?m @ mac) = (Inr c, st')"
    "CBCStream_Decrypt st c = (Inr (?m @ mac), st')" "stream_ok st'"
    using s stream_step [OF _ w] by (auto simp: secure_conn_def)
  show ?thesis
  proof (rule that [of mac c st'])
    show "sendControlMessage env m pre cc =
        (Inr (), cc\<lparr>cc_controlEncrypt := Some st', cc_out := cc_out cc @ [c]\<rparr>)"
      using s l mac c(1) by (simp add: sendControlMessage_def secure_conn_def Let_def copy_at_end
          conn_Write_ok [OF ok])
  qed (use mac c l in \<open>simp_all add: sealed_reply_def\<close>)
qed

lemma sendControlMessage_plain:
  assumes "env_ok env" and "\<not> controlRequiresAuthentication (cc_controlMode cc)"
  shows "sendControlMessage env (b @ zeros 16) pre cc = (Inr (), cc\<lparr>cc_out := cc_out cc @ [b @ zeros 16]\<rparr>)"
  using assms by (simp add: sendControlMessage_def conn_Write_ok)

text \<open>What precedes the first reply under its HMAC.\<close>

definition owed_prefix :: "controlConnection \<Rightarrow> bytes" where
  "owed_prefix cc = (if cc_serverStartHMACPending cc then cc_serverStartBytes cc else [])"

text \<open>The connection after a reply.\<close>

definition replied :: "CBCStream \<Rightarrow> bytes \<Rightarrow> controlConnection \<Rightarrow> controlConnection" where
  "replied st c cc = cc\<lparr>cc_controlEncrypt := Some st, cc_serverStartHMACPending := False,
     cc_out := cc_out cc @ [c]\<rparr>"

lemma replied_secure: "secure_conn st keys cc \<Longrightarrow> stream_ok st' \<Longrightarrow> secure_conn st' keys (replied st' c cc)"
  by (simp add: secure_conn_def replied_def)

lemma replied_owes [simp]: "owed_prefix (replied st c cc) = []"
  by (simp add: owed_prefix_def replied_def)

lemma send_reply_secure:
  assumes ok: "env_ok env" and s: "secure_conn st keys cc" and m: "whole_blocks (b @ zeros 16)"
  obtains mac c st' where "length mac = 16" "stream_ok st'"
    "sealed_reply st (HMACKey keys) (owed_prefix cc) c (b @ mac) st'"
    "send_reply env name (Inr (b @ zeros 16)) cc = (Inr (), replied st' c cc)"
proof -
  obtain mac c st' where r: "length mac = 16"
    "sealed_reply st (HMACKey keys) (owed_prefix cc) c (b @ mac) st'"
    "stream_ok st'" "sendControlMessage env (b @ zeros 16) (owed_prefix cc) cc =
      (Inr (), cc\<lparr>cc_controlEncrypt := Some st', cc_out := cc_out cc @ [c]\<rparr>)"
    using sendControlMessage_secure [OF ok s m, of "owed_prefix cc"] by auto
  have "send_reply env name (Inr (b @ zeros 16)) cc = (Inr (), replied st' c cc)"
    using s r(4) by (cases cc) (auto simp: send_reply_def secure_conn_def owed_prefix_def replied_def Let_def)
  then show ?thesis using that r by blast
qed

lemma AcceptSession_data:
  assumes "length sid = 16"
  shows "AcceptSession_Marshal (AcceptSession_zero\<lparr>as_Accept := code, as_Port := port, as_SID := sid\<rparr>) False =
      Inr ([code, 0] @ be16 port @ sid @ zeros 12 @ zeros 16)"
    and "length mac = 16 \<Longrightarrow> AcceptSession_Unmarshal AcceptSession_zero
      ([code, 0] @ be16 port @ sid @ zeros 12 @ mac) True =
      Inr (AcceptSession_zero\<lparr>as_Accept := code, as_Port := port, as_SID := sid, as_HMAC := mac\<rparr>)"
proof -
  show "AcceptSession_Marshal (AcceptSession_zero\<lparr>as_Accept := code, as_Port := port, as_SID := sid\<rparr>) False =
      Inr ([code, 0] @ be16 port @ sid @ zeros 12 @ zeros 16)"
    using assms by (subst AcceptSession_Marshal_eq) (simp_all add: AcceptSession_zero_def hmac_ok_def)
  let ?a = "AcceptSession_zero\<lparr>as_Accept := code, as_Port := port, as_SID := sid, as_HMAC := mac\<rparr>"
  assume mac: "length mac = 16"
  have "AcceptSession_ok True ?a"
    using assms mac by (simp add: AcceptSession_ok_def AcceptSession_zero_def hmac_ok_def)
  moreover have "AcceptSession_Marshal ?a True = Inr ([code, 0] @ be16 port @ sid @ zeros 12 @ mac)"
    using assms mac by (subst AcceptSession_Marshal_eq) (simp_all add: AcceptSession_zero_def hmac_ok_def)
  ultimately show "AcceptSession_Unmarshal AcceptSession_zero
      ([code, 0] @ be16 port @ sid @ zeros 12 @ mac) True = Inr ?a"
    using accept_codec.dec_enc [of True ?a _ "[]"] by simp
qed

section \<open>A connection to try things on\<close>

definition demo_keys_of :: TWAMPKeys where
  "demo_keys_of = \<lparr>AESKey = zeros 16, HMACKey = zeros 32, TestAESKey = [], TestHMACKey = [],
     ClientIV = zeros 16, ServerIV = zeros 16\<rparr>"

definition demo_stream :: CBCStream where
  "demo_stream = \<lparr>cs_block = zeros 16, cs_iv = zeros 16\<rparr>"

definition demo_secure :: "bytes \<Rightarrow> controlConnection" where
  "demo_secure b = (demo_conn b)\<lparr>cc_mode := 4, cc_controlMode := 4, cc_testMode := 4,
     cc_keyDerivation := Some demo_keys_of, cc_controlEncrypt := Some demo_stream,
     cc_controlDecrypt := Some demo_stream, cc_serverStartBytes := zeros 48, cc_serverStartHMACPending := True\<rparr>"

lemma demo_stream_ok: "stream_ok demo_stream"
  by (simp add: stream_ok_def demo_stream_def)

lemma demo_secure_conn: "secure_conn demo_stream demo_keys_of (demo_secure b)"
  by (simp add: secure_conn_def demo_secure_def demo_modes demo_stream_ok) (simp add: demo_keys_of_def)

lemma demo_secure_fields:
  "cc_controlDecrypt (demo_secure b) = Some demo_stream" "cc_keyDerivation (demo_secure b) = Some demo_keys_of"
  "length (HMACKey demo_keys_of) = 32" "cc_in (demo_secure b) = b" "cc_serverStartHMACPending (demo_secure b)"
  "cc_serverStartBytes (demo_secure b) = zeros 48" "cc_out (demo_secure b) = []"
  by (simp_all add: demo_secure_def demo_keys_of_def demo_conn_def new_connection_def)

section \<open>Properties\<close>

text \<open>C5: on a secure control connection the server takes a command from the stream exactly when
  the input begins with that command sealed by the peer: encrypted at the point of the stream
  the server has reached, of the length its first bytes announce, and with a valid HMAC in its
  last 16 bytes. It consumes these bytes and no others, and its stream then stands where the peer's
  stands.\<close>

theorem command_authentic:
  assumes "cc_controlDecrypt cc = Some st" and "stream_ok st"
    and "cc_keyDerivation cc = Some keys" and "length (HMACKey keys) = 32"
  shows "readEncryptedCommand cc = (Inr cmd, cc') \<longleftrightarrow>
    (\<exists>c rest st'. cc_in cc = c @ rest \<and> sealed_command st (HMACKey keys) cmd c st' \<and>
       cc' = cc\<lparr>cc_in := rest, cc_controlDecrypt := Some st'\<rparr>)"
  using read_is_sealed [OF assms] sealed_is_read [OF assms] by blast

text \<open>The witness: a sealed Start-Sessions command, followed by other input.\<close>

theorem command_authentic_witness:
  "\<exists>cmd c st'. cmd ! 0 = CmdStartSessions \<and> CBCStream_Encrypt demo_stream cmd = (Inr c, st') \<and>
     readEncryptedCommand (demo_secure (c @ [7])) =
       (Inr cmd, (demo_secure (c @ [7]))\<lparr>cc_in := [7], cc_controlDecrypt := Some st'\<rparr>)"
proof -
  obtain mac where mac: "CalculateHMAC (zeros 32) (2 # zeros 15) = Inr mac" "length mac = 16"
    by (simp add: CalculateHMAC_def)
  let ?cmd = "2 # zeros 15 @ mac"
  have w: "whole_blocks ?cmd" using mac by (simp add: whole_blocks_def)
  obtain c st' where c: "CBCStream_Encrypt demo_stream ?cmd = (Inr c, st')"
    by (rule stream_step [OF demo_stream_ok w])
  have "sealed_command demo_stream (HMACKey demo_keys_of) ?cmd c st'"
    using c mac by (simp add: sealed_command_def controlCommandLength_def demo_keys_of_def)
  then have "readEncryptedCommand (demo_secure (c @ [7])) =
       (Inr ?cmd, (demo_secure (c @ [7]))\<lparr>cc_in := [7], cc_controlDecrypt := Some st'\<rparr>)"
    using command_authentic [OF demo_secure_fields(1) demo_stream_ok demo_secure_fields(2,3),
        of "c @ [7]" ?cmd] demo_secure_fields(4) by blast
  with c show ?thesis by (intro exI [of _ ?cmd] exI [of _ c] exI [of _ st']) simp
qed

text \<open>What the client learns from the answer to a session request on a secure connection. The
  server writes one message; the client, whose stream stands where the server's stood, decrypts it
  to an Accept-Session message with the code, the port and the session identifier given, and with an
  HMAC over that message, preceded by the Server-Start message when this is the first reply. Then
  both streams stand at the same point again, and no Server-Start is owed any more.\<close>

theorem accept_session_recovered:
  assumes "env_ok env" and "secure_conn st keys cc" and "length sid = 16"
  shows "\<exists>c p st' cc' mac.
    sendAcceptSession env code port sid cc = (Inr (), cc') \<and> cc_out cc' = cc_out cc @ [c] \<and>
    CBCStream_Decrypt st c = (Inr p, st') \<and> secure_conn st' keys cc' \<and>
    AcceptSession_Unmarshal AcceptSession_zero p True =
      Inr (AcceptSession_zero\<lparr>as_Accept := code, as_Port := port, as_SID := sid, as_HMAC := mac\<rparr>) \<and>
    CalculateHMACWithPrefix (HMACKey keys)
      (if cc_serverStartHMACPending cc then cc_serverStartBytes cc else []) (take 32 p) = Inr mac \<and>
    \<not> (cc_serverStartHMACPending cc' \<and> cc_serverStartBytes cc' \<noteq> [])"
proof -
  let ?b = "[code, 0] @ be16 port @ sid @ zeros 12"
  have l: "length (?b @ zeros 16) = 48" "length ?b = 32" using assms(3) by simp_all
  have m: "AcceptSession_Marshal (AcceptSession_zero\<lparr>as_Accept := code, as_Port := port, as_SID := sid\<rparr>) False =
      Inr (?b @ zeros 16)"
    using AcceptSession_data(1) [OF assms(3)] by simp
  have "whole_blocks (?b @ zeros 16)" using assms(3) by (simp add: whole_blocks_def)
  then obtain mac c st' where r: "length mac = 16" "stream_ok st'"
    "sealed_reply st (HMACKey keys) (owed_prefix cc) c (?b @ mac) st'"
    "send_reply env ''Accept-Session'' (Inr (?b @ zeros 16)) cc = (Inr (), replied st' c cc)"
    by (rule send_reply_secure [OF assms(1,2)])
  have "sendAcceptSession env code port sid cc = (Inr (), replied st' c cc)"
    using r(4) m by (simp add: sendAcceptSession_def)
  moreover have "CBCStream_Decrypt st c = (Inr (?b @ mac), st')"
    "CalculateHMACWithPrefix (HMACKey keys) (owed_prefix cc) (take 32 (?b @ mac)) = Inr mac"
    using r(1,3) l(2) by (simp_all add: sealed_reply_def)
  moreover have "AcceptSession_Unmarshal AcceptSession_zero (?b @ mac) True =
      Inr (AcceptSession_zero\<lparr>as_Accept := code, as_Port := port, as_SID := sid, as_HMAC := mac\<rparr>)"
    using AcceptSession_data(2) [OF assms(3) r(1)] by simp
  moreover have "\<not> (cc_serverStartHMACPending (replied st' c cc) \<and> cc_serverStartBytes (replied st' c cc) \<noteq> [])"
    "cc_out (replied st' c cc) = cc_out cc @ [c]"
    by (simp_all add: replied_def)
  ultimately show ?thesis
    using replied_secure [OF assms(2) r(2)] unfolding owed_prefix_def
    by (intro exI [of _ c] exI [of _ "?b @ mac"] exI [of _ st'] exI [of _ "replied st' c cc"] exI [of _ mac] conjI)
qed

text \<open>The witness: the first reply after Server-Start.\<close>

theorem accept_session_recovered_witness:
  "\<exists>c p st' mac. cc_out (snd (sendAcceptSession demo_env AcceptOK 20000 (zeros 16) (demo_secure []))) = [c] \<and>
    CBCStream_Decrypt demo_stream c = (Inr p, st') \<and>
    AcceptSession_Unmarshal AcceptSession_zero p True =
      Inr (AcceptSession_zero\<lparr>as_Accept := AcceptOK, as_Port := 20000, as_SID := zeros 16, as_HMAC := mac\<rparr>) \<and>
    CalculateHMACWithPrefix (zeros 32) (zeros 48) (take 32 p) = Inr mac"
proof -
  have k: "HMACKey demo_keys_of = zeros 32" by (simp add: demo_keys_of_def)
  have "length (zeros 16) = 16" by simp
  from accept_session_recovered [OF demo_env_ok demo_secure_conn [of "[]"] this, of AcceptOK 20000]
  obtain c p st' cc' mac where
    r: "sendAcceptSession demo_env AcceptOK 20000 (zeros 16) (demo_secure []) = (Inr (), cc')"
    "cc_out cc' = [c]" "CBCStream_Decrypt demo_stream c = (Inr p, st')"
    "AcceptSession_Unmarshal AcceptSession_zero p True =
      Inr (AcceptSession_zero\<lparr>as_Accept := AcceptOK, as_Port := 20000, as_SID := zeros 16, as_HMAC := mac\<rparr>)"
    "CalculateHMACWithPrefix (zeros 32) (zeros 48) (take 32 p) = Inr mac"
    by (simp only: demo_secure_fields k if_True append_Nil) blast
  then show ?thesis
    by (intro exI [of _ c] exI [of _ p] exI [of _ st'] exI [of _ mac] conjI) simp_all
qed

end
