(* ===== verification/Server_Requests.thy ===== *)
theory Server_Requests
  imports Server_Channel
begin

text \<open>
  What a session request gets: the checks a session has passed, the session itself and the answer;
  and which receivers an unauthenticated client may name.
\<close>

section \<open>Granted sessions\<close>

text \<open>
  A request that is granted: it passed the checks, got a port that was unused, and its session is
  stored under the identifier and announced.
\<close>

definition granted :: "control_env \<Rightarrow> RequestTWSession \<Rightarrow> session_id \<Rightarrow> Server \<Rightarrow> controlConnection \<Rightarrow>
    unit res \<Rightarrow> Server \<Rightarrow> controlConnection \<Rightarrow> bool" where
  "granted env request sid s cc r s' cc' \<longleftrightarrow>
     \<not> request_refused env s cc request \<and>
     (\<exists>port pm x. allocatePort (ev_free env) (sv_portManager s) = Some (Inr port, pm) \<and>
        make_session (s\<lparr>sv_portManager := pm\<rparr>) cc request sid port = Inr x \<and>
        s' = fst (store_session sid x (s\<lparr>sv_portManager := pm\<rparr>) cc) \<and>
        sendAcceptSession env AcceptOK port sid
          (cc\<lparr>cc_sessions := (cc_sessions cc)(sid \<mapsto> length (sv_heap s))\<rparr>) = (r, cc'))"

lemma accept_session_granted:
  assumes "allocatePort (ev_free env) (sv_portManager s) = Some (Inr port, pm)"
    and "\<not> request_refused env s cc request"
    and "accept_session env request sid port (s\<lparr>sv_portManager := pm\<rparr>) cc = Some (r, s', cc')"
  shows "s' = s \<or> granted env request sid s cc r s' cc'"
proof (cases "make_session (s\<lparr>sv_portManager := pm\<rparr>) cc request sid port")
  case (Inl e)
  then show ?thesis using assms(3) alloc_release_same [OF assms(1)] by (auto simp: accept_session_def)
next
  case (Inr x)
  then have "s' = fst (store_session sid x (s\<lparr>sv_portManager := pm\<rparr>) cc)"
    "sendAcceptSession env AcceptOK port sid
      (cc\<lparr>cc_sessions := (cc_sessions cc)(sid \<mapsto> length (sv_heap s))\<rparr>) = (r, cc')"
    using assms(3) by (auto simp: accept_session_def store_session_def answer_def Let_def intro: prod_eqI)
  then show ?thesis unfolding granted_def using assms(1,2) Inr by blast
qed

text \<open>The session that a granted request makes.\<close>

lemma make_session_fields:
  assumes "make_session s cc request sid port = Inr x"
  shows "se_sid x = sid \<and> se_reflectorPort x = port \<and> se_mode x = cc_testMode cc \<and>
    se_senderPort x = rts_SenderPort request \<and> se_timeout x = TWAMPTimestamp_Duration (rts_Timeout request) \<and>
    se_dscp x = request_dscp (rts_TypePDescriptor request) \<and> \<not> se_isActive x \<and> se_hmacFailures x = 0 \<and>
    se_maxHMACFailures x = effectiveMaxHMACFailures (cf_MaxHMACFailures (sv_config s))"
  using assms by (auto simp: make_session_def Let_def split: option.splits if_splits sum.splits)

lemma granted_store:
  assumes "granted env request sid s cc r s' cc'"
  obtains port pm x where "allocatePort (ev_free env) (sv_portManager s) = Some (Inr port, pm)"
    "make_session (s\<lparr>sv_portManager := pm\<rparr>) cc request sid port = Inr x"
    "length (sv_heap s') = Suc (length (sv_heap s))" "session_at s' (length (sv_heap s)) = x"
    "sv_sessions s' = (sv_sessions s)(sid \<mapsto> length (sv_heap s))" "sv_portManager s' = pm"
proof -
  from assms obtain port pm x where
    g: "allocatePort (ev_free env) (sv_portManager s) = Some (Inr port, pm)"
      "make_session (s\<lparr>sv_portManager := pm\<rparr>) cc request sid port = Inr x"
      "s' = fst (store_session sid x (s\<lparr>sv_portManager := pm\<rparr>) cc)"
    by (auto simp: granted_def)
  then show ?thesis
    by (intro that [of port pm x]) (simp_all add: store_session_def session_at_def Let_def)
qed

section \<open>Commands that leave the sessions alone\<close>

lemma start_all_heap_length: "length (sv_heap (snd (start_all env ps s))) = length (sv_heap s)"
proof (induction ps arbitrary: s)
  case (Cons p ps)
  obtain r t where t: "startSession (ev_listen env) (ev_now env) p s = (r, t)" by fastforce
  then have "length (sv_heap t) = length (sv_heap s)" using startSession_length by (metis snd_conv)
  then show ?case using t Cons.IH [of t] by (cases r) auto
qed simp

lemma schedule_length: "length (sv_heap (fold (schedule_stop now) ps s)) = length (sv_heap s)"
  by (induction ps arbitrary: s) (simp_all add: schedule_stop_def)

lemma stop_listed_length: "length (sv_heap (fst (stop_listed now sids (s, cc)))) = length (sv_heap s)"
proof (induction sids arbitrary: s cc)
  case (Cons sid sids)
  then show ?case by (cases "cc_sessions cc sid") (simp_all add: schedule_stop_def)
qed simp

lemma command_round_cases:
  assumes "command_round env s cc = Some (r, s', cc')" and "length (sv_heap s') \<noteq> length (sv_heap s)"
  obtains cmd cc1 where "readCommand cc = (Inr cmd, cc1)"
    "cmd ! 0 = CmdRequestTWSession"
    "handleRequestTWSession env s (cc1\<lparr>cc_lastActivity := ev_now env\<rparr>) cmd = Some (r, s', cc')"
  | cmd cc1 where "readCommand cc = (Inr cmd, cc1)"
    "cmd ! 0 = CmdRequestTWSessionIndividual"
    "handleRequestTWSessionIndividual env s (cc1\<lparr>cc_lastActivity := ev_now env\<rparr>) cmd = Some (r, s', cc')"
proof (cases "readCommand cc")
  case (Pair x cc1)
  show ?thesis
  proof (cases x)
    case (Inl e)
    then show ?thesis using assms Pair by (simp add: command_round_def)
  next
    case (Inr cmd)
    let ?cc = "cc1\<lparr>cc_lastActivity := ev_now env\<rparr>"
    have "dispatch env s ?cc cmd = Some (r, s', cc')" using assms(1) Pair Inr by (simp add: command_round_def)
    moreover have "handleStartSessions env s ?cc cmd \<noteq> Some (r, s', cc')"
      using start_effect [of env s ?cc cmd r s' cc'] assms(2) start_all_heap_length by auto
    moreover have "handleStopSessions env s ?cc cmd \<noteq> Some (r, s', cc')"
      using stop_effect [of env s ?cc cmd r s' cc'] assms(2) schedule_length by auto
    moreover have "handleStopNSessions env s ?cc cmd \<noteq> Some (r, s', cc')"
      using stop_n_effect [of env s ?cc cmd r s' cc'] assms(2) stop_listed_length by (metis fst_conv)
    ultimately show ?thesis
      using that Pair Inr assms(2) by (auto simp: dispatch_def split: if_splits)
  qed
qed

section \<open>What a granted request has passed\<close>

text \<open>
  The checks of both handlers, and the new session \<open>x\<close> and its place in the server's tables.
\<close>

definition passed_checks :: "control_env \<Rightarrow> Server \<Rightarrow> controlConnection \<Rightarrow> RequestTWSession \<Rightarrow> session_id \<Rightarrow> bool" where
  "passed_checks env s cc request sid \<longleftrightarrow>
     rts_ConfSender request = 0 \<and> rts_ConfReceiver request = 0 \<and>
     rts_PaddingLength request \<le> maxSenderPadding (cc_testMode cc) \<and>
     (controlRequiresAuthentication (cc_controlMode cc) \<or> isUnauthReceiverAllowed (ev_interfaces env) s cc request) \<and>
     (SessionID_IsZero (rts_SID request) \<and> ev_random env 0 16 = Inr sid \<or>
      rts_Command request = CmdRequestTWSessionIndividual \<and> rts_SID request = sid \<and> sv_sessions s sid = None)"

definition new_session :: "RequestTWSession \<Rightarrow> session_id \<Rightarrow> u16 \<Rightarrow> Server \<Rightarrow> controlConnection \<Rightarrow> Server \<Rightarrow> bool" where
  "new_session request sid port s cc s' \<longleftrightarrow>
     (let p = length (sv_heap s); x = session_at s' p in
      length (sv_heap s') = Suc p \<and> sv_sessions s' = (sv_sessions s)(sid \<mapsto> p) \<and>
      usedPorts (sv_portManager s') = insert port (usedPorts (sv_portManager s)) \<and>
      se_sid x = sid \<and> se_reflectorPort x = port \<and> se_mode x = cc_testMode cc \<and>
      se_senderPort x = rts_SenderPort request \<and> se_timeout x = TWAMPTimestamp_Duration (rts_Timeout request) \<and>
      se_dscp x = request_dscp (rts_TypePDescriptor request) \<and> \<not> se_isActive x)"

lemma allocated_free: "allocatePort free pm = Some (Inr p, pm') \<Longrightarrow> free p"
  by (auto simp: allocatePort_def available_def dest!: find_port_available split: option.splits sum.splits)

lemma granted_new_session:
  assumes "granted env request sid s cc r s' cc'"
  obtains port where "port \<notin> usedPorts (sv_portManager s)" "ev_free env port" "new_session request sid port s cc s'"
    "sendAcceptSession env AcceptOK port sid
      (cc\<lparr>cc_sessions := (cc_sessions cc)(sid \<mapsto> length (sv_heap s))\<rparr>) = (r, cc')"
proof -
  from assms obtain port pm x where
    al: "allocatePort (ev_free env) (sv_portManager s) = Some (Inr port, pm)"
    and x: "make_session (s\<lparr>sv_portManager := pm\<rparr>) cc request sid port = Inr x"
    and s': "s' = fst (store_session sid x (s\<lparr>sv_portManager := pm\<rparr>) cc)"
    and a: "sendAcceptSession env AcceptOK port sid
      (cc\<lparr>cc_sessions := (cc_sessions cc)(sid \<mapsto> length (sv_heap s))\<rparr>) = (r, cc')"
    by (auto simp: granted_def)
  have "new_session request sid port s cc s'"
    unfolding new_session_def Let_def using make_session_fields [OF x] ports.alloc_new [OF al]
    by (simp add: s' store_session_def session_at_def Let_def)
  moreover have "ev_free env port" using allocated_free [OF al] .
  ultimately show ?thesis using that a ports.alloc_new [OF al] by blast
qed

lemma granted_checks:
  assumes "granted env request sid s cc r s' cc'"
    and "SessionID_IsZero (rts_SID request) \<and> ev_random env 0 16 = Inr sid \<or>
      rts_Command request = CmdRequestTWSessionIndividual \<and> rts_SID request = sid \<and> sv_sessions s sid = None"
  shows "passed_checks env s cc request sid"
  using assms by (auto simp: granted_def request_refused_def passed_checks_def not_less)

lemma same_access:
  "isUnauthReceiverAllowed i s (cc\<lparr>cc_lastActivity := t\<rparr>) request = isUnauthReceiverAllowed i s cc request"
  by (simp add: isUnauthReceiverAllowed_def)

lemma same_refused:
  "request_refused env s (cc\<lparr>cc_in := b, cc_lastActivity := t\<rparr>) request = request_refused env s cc request"
  by (simp add: request_refused_def isUnauthReceiverAllowed_def)

lemma individual_unmarshal:
  assumes "RequestTWSessionIndividual_Unmarshal m b h = Inr request"
  shows "RequestTWSession_Unmarshal m b h = Inr request \<and> rts_Command request = CmdRequestTWSessionIndividual"
  using assms by (auto simp: RequestTWSessionIndividual_Unmarshal_def split: sum.splits if_splits)

section \<open>A plain request, from the bytes to the reply\<close>

lemma readPlainCommand_front:
  assumes "cc_in cc = cmd @ rest" and "cmd ! 0 \<noteq> CmdStopNSessions"
    and "controlCommandLength (cmd ! 0) [] = Inr (length cmd)"
  shows "readPlainCommand cc = (Inr cmd, cc\<lparr>cc_in := rest\<rparr>)"
proof -
  have "32 \<le> length cmd" using assms(3) by (rule controlCommandLength_min)
  then obtain c cs where c: "cmd = c # cs" by (cases cmd) auto
  have "conn_ReadFull 1 cc = (Inr [c], cc\<lparr>cc_in := cs @ rest\<rparr>)"
    using assms(1) c by (simp add: conn_ReadFull_def)
  moreover have "conn_ReadFull (length cs) (cc\<lparr>cc_in := cs @ rest\<rparr>) = (Inr cs, cc\<lparr>cc_in := rest\<rparr>)"
    by (simp add: conn_ReadFull_def)
  ultimately show ?thesis using assms(2,3) c by (simp add: readPlainCommand_def)
qed

lemma request_bytes:
  assumes "RequestTWSession_ok h request" and "RequestTWSession_Marshal request h = Inr data"
  shows "length data = 112" and "data ! 0 = rts_Command request"
    and "RequestTWSession_Unmarshal RequestTWSession_zero data h = Inr request"
proof -
  show "length data = 112" using request_codec.enc_ok [OF assms(1)] assms(2) by auto
  show "data ! 0 = rts_Command request"
    using assms RequestTWSession_Marshal_eq [of request h] by (auto simp: RequestTWSession_ok_def)
  show "RequestTWSession_Unmarshal RequestTWSession_zero data h = Inr request"
    using request_codec.dec_enc [OF assms, of "[]"] by simp
qed

text \<open>The reply that grants a session in plain mode.\<close>

definition accept_bytes :: "u16 \<Rightarrow> session_id \<Rightarrow> bytes" where
  "accept_bytes port sid = [AcceptOK, 0] @ be16 port @ sid @ zeros 28"

lemma sendAcceptSession_plain:
  assumes "env_ok env" and "\<not> controlRequiresAuthentication (cc_controlMode cc)" and "length sid = 16"
  shows "sendAcceptSession env AcceptOK port sid cc = (Inr (), cc\<lparr>cc_out := cc_out cc @ [accept_bytes port sid]\<rparr>)"
proof -
  have z: "zeros 12 @ zeros 16 = zeros 28" by (simp add: zeros_def flip: replicate_add)
  have "sendControlMessage env (([AcceptOK, 0] @ be16 port @ sid @ zeros 12) @ zeros 16) [] cc =
      (Inr (), cc\<lparr>cc_out := cc_out cc @ [([AcceptOK, 0] @ be16 port @ sid @ zeros 12) @ zeros 16]\<rparr>)"
    using assms(1,2) by (rule sendControlMessage_plain)
  then show ?thesis
    using assms(2) by (simp add: sendAcceptSession_def AcceptSession_data(1) [OF assms(3)] send_reply_def
        accept_bytes_def z)
qed

lemma plain_request:
  assumes ok: "env_ok env" and plain: "\<not> controlRequiresAuthentication (cc_controlMode cc)" "cc_keyDerivation cc = None"
    and b: "RequestTWSession_ok False request" "RequestTWSession_Marshal request False = Inr data" "cc_in cc = data @ rest"
    and c: "rts_Command request = CmdRequestTWSession" "SessionID_IsZero (rts_SID request)"
    and g: "\<not> request_refused env s cc request"
    and al: "allocatePort (ev_free env) (sv_portManager s) = Some (Inr port, pm)"
    and sid: "ev_random env 0 16 = Inr sid"
  shows "\<exists>x. make_session (s\<lparr>sv_portManager := pm\<rparr>) cc request sid port = Inr x \<and>
    command_round env s cc = Some (Inr (), fst (store_session sid x (s\<lparr>sv_portManager := pm\<rparr>) cc),
      cc\<lparr>cc_in := rest, cc_lastActivity := ev_now env,
         cc_sessions := (cc_sessions cc)(sid \<mapsto> length (sv_heap s)),
         cc_out := cc_out cc @ [accept_bytes port sid]\<rparr>)"
proof -
  note D = request_bytes [OF b(1,2)]
  have rd: "readCommand cc = (Inr data, cc\<lparr>cc_in := rest\<rparr>)"
    using plain(1) b(3) D c by (simp add: readCommand_def readPlainCommand_front controlCommandLength_def)
  let ?cc = "cc\<lparr>cc_in := rest, cc_lastActivity := ev_now env\<rparr>"
  let ?x = "\<lparr>se_sid = sid, se_reflectorPort = port, se_conn = Nil_handle,
      se_senderAddr = None, se_senderPort = rts_SenderPort request,
      se_mode = cc_testMode cc, se_sessionKeys = None,
      se_timeout = TWAMPTimestamp_Duration (rts_Timeout request),
      se_dscp = request_dscp (rts_TypePDescriptor request),
      se_reflectedPackets = 0, se_startTime = 0, se_isActive = False,
      se_stopChan = Open_handle, se_reflectorDone = Open_handle,
      se_hmacFailures = 0, se_lastHMACFailureTime = None,
      se_maxHMACFailures = effectiveMaxHMACFailures (cf_MaxHMACFailures (sv_config s))\<rparr>"
  have x: "make_session (s\<lparr>sv_portManager := pm\<rparr>) cc request sid port = Inr ?x"
      "make_session (s\<lparr>sv_portManager := pm\<rparr>) ?cc request sid port = Inr ?x"
    by (simp_all add: make_session_def plain(2))
  have l: "length sid = 16" using env_random [OF ok, of 0 16] sid by auto
  have "\<not> request_refused env s ?cc request"
    using g by (simp add: same_refused)
  then have "handleRequestTWSession env s ?cc data = accept_session env request sid port (s\<lparr>sv_portManager := pm\<rparr>) ?cc"
    using plain(1) D(3) c(2) al sid by (simp add: handleRequestTWSession_def)
  also have "\<dots> = Some (Inr (), fst (store_session sid ?x (s\<lparr>sv_portManager := pm\<rparr>) cc),
      ?cc\<lparr>cc_sessions := (cc_sessions cc)(sid \<mapsto> length (sv_heap s)),
         cc_out := cc_out cc @ [accept_bytes port sid]\<rparr>)"
    using plain(1) by (simp add: accept_session_def x(2) store_session_def Let_def answer_def
        sendAcceptSession_plain [OF ok _ l])
  finally show ?thesis
    using x(1) D c(1) rd by (simp add: command_round_def dispatch_def)
qed

section \<open>A request to try things on\<close>

definition demo_request :: RequestTWSession where
  "demo_request = RequestTWSession_zero\<lparr>rts_Command := CmdRequestTWSession, rts_IPVN := 4,
     rts_ReceiverAddress := [10, 0, 0, 1] @ zeros 12\<rparr>"

definition demo_plain :: "bytes \<Rightarrow> controlConnection" where
  "demo_plain b = (demo_conn b)\<lparr>cc_mode := 1, cc_controlMode := 1, cc_testMode := 1\<rparr>"

lemma demo_request_ok: "RequestTWSession_ok False demo_request"
  by (simp add: RequestTWSession_ok_def demo_request_def RequestTWSession_zero_def zeroSID_def
      hmac_ok_def validateTypePDescriptor_def Let_def)

lemma demo_request_fields:
  "rts_Command demo_request = CmdRequestTWSession" "SessionID_IsZero (rts_SID demo_request)"
  "receiverIP demo_request = [10, 0, 0, 1]" "rts_ConfSender demo_request = 0" "rts_ConfReceiver demo_request = 0"
  "rts_PaddingLength demo_request = 0"
  by (simp_all add: demo_request_def RequestTWSession_zero_def SessionID_IsZero_def receiverIP_def
      normalizeIP_def IP_To4_def)

lemma demo_request_bytes: "\<exists>data. RequestTWSession_Marshal demo_request False = Inr data"
  using request_codec.enc_ok [OF demo_request_ok] by blast

lemma demo_access: "isUnauthReceiverAllowed i s cc demo_request \<longleftrightarrow> cc_RemoteAddr cc = [10, 0, 0, 1] \<or>
    isUnauthReceiverAllowed i s cc demo_request"
proof -
  have "IP_IsUnspecified [10, 0, 0, 1] = False"
    by (simp add: IP_IsUnspecified_def IP_Equal_def v4InV6Prefix_def zeros_def eval_nat_numeral)
  then show ?thesis
    by (auto simp: isUnauthReceiverAllowed_def demo_request_fields Let_def normalizeIP_def IP_To4_def IP_Equal_def)
qed

lemma demo_not_refused:
  "cc_RemoteAddr cc = [10, 0, 0, 1] \<Longrightarrow> \<not> request_refused env s cc demo_request"
  using demo_access [of "ev_interfaces env" s cc] by (simp add: request_refused_def demo_request_fields)

lemma demo_plain_fields:
  "cc_controlMode (demo_plain b) = 1" "cc_testMode (demo_plain b) = 1" "cc_keyDerivation (demo_plain b) = None"
  "cc_in (demo_plain b) = b" "cc_RemoteAddr (demo_plain b) = [10, 0, 0, 1]" "cc_out (demo_plain b) = []"
  "cc_sessions (demo_plain b) = Map.empty"
  by (simp_all add: demo_plain_def demo_conn_def new_connection_def)

lemma demo_alloc:
  "allocatePort (ev_free demo_env) (sv_portManager (demo_server modes 20000 30000)) =
    Some (Inr 20000, \<lparr>minPort = 20000, maxPort = 30000, usedPorts = {20000}\<rparr>)"
  by (simp add: allocatePort_def demo_server_def demo_env_def find_port_hit)

section \<open>Properties\<close>

text \<open>C2: no session without the checks. When a command makes a session, in any mode and for
  either kind of request, the command was a request that decodes; it asked for no server side
  configuration and for no more padding than the mode allows; an unauthenticated connection named
  a receiver it may name; the session's identifier is the server's own random choice, or, in an
  individual request, one that was free; its port was unused and could be listened on, and is
  now in use; exactly that session was added, with the mode of the connection and the values of
  the request, and not yet active; and the answer written announces its port and identifier.\<close>

theorem session_granted:
  assumes "command_round env s cc = Some (r, s', cc')" and "length (sv_heap s') \<noteq> length (sv_heap s)"
  shows "\<exists>cmd cc1 request sid port.
    readCommand cc = (Inr cmd, cc1) \<and>
    RequestTWSession_Unmarshal RequestTWSession_zero cmd (controlRequiresAuthentication (cc_controlMode cc)) = Inr request \<and>
    passed_checks env s cc1 request sid \<and> port \<notin> usedPorts (sv_portManager s) \<and> ev_free env port \<and>
    new_session request sid port s cc1 s' \<and>
    sendAcceptSession env AcceptOK port sid
      (cc1\<lparr>cc_lastActivity := ev_now env, cc_sessions := (cc_sessions cc)(sid \<mapsto> length (sv_heap s))\<rparr>) = (r, cc')"
  using assms
proof (cases rule: command_round_cases)
  case (1 cmd cc1)
  have f: "cc_controlMode cc1 = cc_controlMode cc" "cc_sessions cc1 = cc_sessions cc"
    using readCommand_frame [of cc] 1(1) by (simp_all add: same_conn_def)
  show ?thesis
    using 1(3)
  proof (cases rule: request_cases)
    case (accepts request port pm sid)
    then have g: "granted env request sid s (cc1\<lparr>cc_lastActivity := ev_now env\<rparr>) r s' cc'"
      using accept_session_granted assms(2) by blast
    have "passed_checks env s (cc1\<lparr>cc_lastActivity := ev_now env\<rparr>) request sid"
      using granted_checks [OF g] accepts(2,5) by blast
    then have "passed_checks env s cc1 request sid" by (simp add: passed_checks_def same_access)
    moreover from granted_new_session [OF g] obtain q where "q \<notin> usedPorts (sv_portManager s)" "ev_free env q"
        "new_session request sid q s cc1 s'" "sendAcceptSession env AcceptOK q sid
          (cc1\<lparr>cc_lastActivity := ev_now env, cc_sessions := (cc_sessions cc)(sid \<mapsto> length (sv_heap s))\<rparr>) = (r, cc')"
      by (auto simp: new_session_def f)
    ultimately show ?thesis using 1(1) accepts(1) f by auto
  qed (use assms(2) refuse_effect in blast)+
next
  case (2 cmd cc1)
  have f: "cc_controlMode cc1 = cc_controlMode cc" "cc_sessions cc1 = cc_sessions cc"
    using readCommand_frame [of cc] 2(1) by (simp_all add: same_conn_def)
  show ?thesis
    using 2(3)
  proof (cases rule: individual_cases)
    case (accepts request port pm)
    note u = individual_unmarshal [OF accepts(1)]
    let ?sid = "rts_SID request"
    have g: "granted env request ?sid s (cc1\<lparr>cc_lastActivity := ev_now env\<rparr>) r s' cc'"
      using accepts accept_session_granted assms(2) by blast
    have "passed_checks env s (cc1\<lparr>cc_lastActivity := ev_now env\<rparr>) request ?sid"
      using granted_checks [OF g] accepts(3) u by blast
    then have "passed_checks env s cc1 request ?sid" by (simp add: passed_checks_def same_access)
    moreover from granted_new_session [OF g] obtain q where "q \<notin> usedPorts (sv_portManager s)" "ev_free env q"
        "new_session request ?sid q s cc1 s'" "sendAcceptSession env AcceptOK q ?sid
          (cc1\<lparr>cc_lastActivity := ev_now env, cc_sessions := (cc_sessions cc)(?sid \<mapsto> length (sv_heap s))\<rparr>) = (r, cc')"
      by (auto simp: new_session_def f)
    ultimately show ?thesis using 2(1) u f by auto
  qed (use assms(2) refuse_effect in blast)+
qed

text \<open>The witness: the first request of an unauthenticated client for its own address.\<close>

theorem session_granted_witness:
  "\<exists>data r s' cc' cc1 request sid port.
     RequestTWSession_Marshal demo_request False = Inr data \<and>
     command_round demo_env (demo_server 1 20000 30000) (demo_plain data) = Some (r, s', cc') \<and>
     passed_checks demo_env (demo_server 1 20000 30000) cc1 request sid \<and>
     new_session request sid port (demo_server 1 20000 30000) cc1 s'"
proof -
  obtain data where b: "RequestTWSession_Marshal demo_request False = Inr data"
    using demo_request_bytes by blast
  have plain: "\<not> controlRequiresAuthentication (cc_controlMode (demo_plain data))"
    by (simp add: demo_plain_fields demo_modes)
  have i: "cc_in (demo_plain data) = data @ []" by (simp add: demo_plain_fields)
  have rnd: "ev_random demo_env 0 16 = Inr (zeros 16)" by (simp add: demo_env_def)
  obtain x cc' where c: "command_round demo_env (demo_server 1 20000 30000) (demo_plain data) =
      Some (Inr (), fst (store_session (zeros 16) x ((demo_server 1 20000 30000)
        \<lparr>sv_portManager := \<lparr>minPort = 20000, maxPort = 30000, usedPorts = {20000}\<rparr>\<rparr>) (demo_plain data)), cc')"
    using plain_request [OF demo_env_ok plain demo_plain_fields(3) demo_request_ok b i demo_request_fields(1,2)
        demo_not_refused [OF demo_plain_fields(5)] demo_alloc rnd] by blast
  moreover have "length (sv_heap (fst (store_session (zeros 16) x ((demo_server 1 20000 30000)
        \<lparr>sv_portManager := \<lparr>minPort = 20000, maxPort = 30000, usedPorts = {20000}\<rparr>\<rparr>) (demo_plain data)))) \<noteq>
      length (sv_heap (demo_server 1 20000 30000))"
    by (simp add: store_session_def Let_def)
  ultimately show ?thesis using session_granted [OF c] b by blast
qed

text \<open>C24: whom an unauthenticated client may name as receiver. The address meant is the one
  of the request, or the server's own address of the connection where the request leaves it
  unspecified, with IPv4-mapped addresses taken as IPv4. It is allowed exactly when it is a
  specified address and is the peer's, one of the host's own, or on one of the two allow lists.\<close>

theorem unauth_receiver_allowed:
  "isUnauthReceiverAllowed interfaces s cc request \<longleftrightarrow>
    (\<exists>target. receiverIP request \<noteq> [] \<and>
       target = (if IP_IsUnspecified (receiverIP request) then normalizeIP (cc_LocalAddr cc) else receiverIP request) \<and>
       target \<noteq> [] \<and> \<not> IP_IsUnspecified target \<and>
       (target = normalizeIP (cc_RemoteAddr cc) \<or>
        (\<exists>addrs. interfaces = Some addrs \<and> target \<in> normalizeIP ` set addrs) \<or>
        target \<in> set (sv_unauthAllowIPs s) \<or>
        (\<exists>n \<in> set (sv_unauthAllowCIDRs s). IPNet_Contains n target)))"
proof -
  define target where "target = (if IP_IsUnspecified (receiverIP request) then normalizeIP (cc_LocalAddr cc)
    else receiverIP request)"
  have r: "receiverIP request = normalizeIP (receiverIP request)"
    by (simp add: receiverIP_def) (simp add: normalizeIP_def)
  then have t: "normalizeIP target = target" by (simp add: target_def)
  have peer: "IP_Equal (normalizeIP a) target \<longleftrightarrow> target = normalizeIP a" for a
    using IP_Equal_normalized [of a target] t by auto
  have loc: "isLocalIP interfaces target \<longleftrightarrow> target \<noteq> [] \<and>
      (\<exists>addrs. interfaces = Some addrs \<and> target \<in> normalizeIP ` set addrs)"
    by (auto simp: isLocalIP_def t peer Let_def list_ex_iff split: option.split)
  have lst: "isAllowlisted s target \<longleftrightarrow> target \<noteq> [] \<and>
      (target \<in> set (sv_unauthAllowIPs s) \<or> (\<exists>n \<in> set (sv_unauthAllowCIDRs s). IPNet_Contains n target))"
    by (auto simp: isAllowlisted_def t Let_def list_ex_iff)
  have "isUnauthReceiverAllowed interfaces s cc request \<longleftrightarrow> receiverIP request \<noteq> [] \<and>
      target \<noteq> [] \<and> \<not> IP_IsUnspecified target \<and>
      (cc_RemoteAddr cc \<noteq> [] \<and> IP_Equal (normalizeIP (cc_RemoteAddr cc)) target \<or>
       isLocalIP interfaces target \<or> isAllowlisted s target)"
    by (auto simp: isUnauthReceiverAllowed_def target_def Let_def)
  moreover have "cc_RemoteAddr cc \<noteq> []" if "target \<noteq> []" "target = normalizeIP (cc_RemoteAddr cc)"
    using that by (auto simp: normalizeIP_def)
  ultimately show ?thesis
    unfolding peer loc lst target_def [symmetric] by blast
qed

end
