(* ===== verification/Server_Service.thy ===== *)
theory Server_Service
  imports Server_Requests
begin

text \<open>
  A session request over a secure connection, from the sealed bytes to the session: the
  counterpart of \<open>plain_request\<close>, and the messages a client seals.
\<close>

section \<open>Sealed messages\<close>

text \<open>A message that ends in 16 zero bytes, with the HMAC in their place.\<close>

lemma sealed_exists:
  assumes "stream_ok st" and "length key = 32" and "whole_blocks (b @ zeros 16)"
    and "\<And>mac. length mac = 16 \<Longrightarrow> controlCommandLength ((b @ mac) ! 0) (b @ mac) = Inr (length b + 16)"
  obtains mac c st' where "length mac = 16" "CalculateHMAC key b = Inr mac"
    "sealed_command st key (b @ mac) c st'" "stream_ok st'"
proof -
  obtain mac where mac: "CalculateHMAC key b = Inr mac" "length mac = 16"
    using assms(2) by (simp add: CalculateHMAC_def)
  have "whole_blocks (b @ mac)" using assms(3) mac by (auto simp: whole_blocks_def)
  then obtain c st' where "CBCStream_Encrypt st (b @ mac) = (Inr c, st')" "stream_ok st'"
    using stream_step [OF assms(1)] by metis
  then show ?thesis
    using that mac assms(4) by (simp add: sealed_command_def)
qed

lemma request_sealed:
  assumes "RequestTWSession_ok False r" and "RequestTWSession_Marshal r False = Inr data"
  obtains b where "data = b @ zeros 16" "length b = 96" "b ! 0 = rts_Command r"
    "\<And>mac. length mac = 16 \<Longrightarrow>
      RequestTWSession_Unmarshal RequestTWSession_zero (b @ mac) True = Inr (r\<lparr>rts_HMAC := mac\<rparr>)"
proof -
  let ?b = "[rts_Command r, rts_IPVN r AND 0x0F, rts_ConfSender r, rts_ConfReceiver r] @
      be32 (rts_NumSlots r) @ be32 (rts_NumPackets r) @ be16 (rts_SenderPort r) @
      be16 (rts_ReceiverPort r) @ rts_SenderAddress r @ rts_ReceiverAddress r @ rts_SID r @
      be32 (rts_PaddingLength r) @ TWAMPTimestamp_bytes (rts_StartTime r) @
      TWAMPTimestamp_bytes (rts_Timeout r) @ be32 (rts_TypePDescriptor r) @ zeros 8"
  have l: "length (rts_SenderAddress r) = 16" "length (rts_ReceiverAddress r) = 16" "length (rts_SID r) = 16"
    and z: "rts_HMAC r = zeros 16"
    using assms(1) by (simp_all add: RequestTWSession_ok_def hmac_ok_def)
  have d: "data = ?b @ zeros 16"
    using assms(2) RequestTWSession_Marshal_eq [OF l, of False] z by (simp add: hmac_ok_def)
  have "RequestTWSession_Unmarshal RequestTWSession_zero (?b @ mac) True = Inr (r\<lparr>rts_HMAC := mac\<rparr>)"
    if "length mac = 16" for mac
  proof -
    have ok: "RequestTWSession_ok True (r\<lparr>rts_HMAC := mac\<rparr>)"
      using assms(1) that by (simp add: RequestTWSession_ok_def hmac_ok_def)
    have "RequestTWSession_Marshal (r\<lparr>rts_HMAC := mac\<rparr>) True = Inr (?b @ mac)"
      using l that by (subst RequestTWSession_Marshal_eq) (simp_all add: hmac_ok_def)
    then show ?thesis using request_codec.dec_enc [OF ok, of "?b @ mac" "[]"] by simp
  qed
  moreover have "length ?b = 96" using l by (simp add: TWAMPTimestamp_bytes_def)
  ultimately show ?thesis using that [of ?b] d by simp
qed

section \<open>A request on a secure connection\<close>

text \<open>Two ends in step: the streams for both directions and the keys.\<close>

definition ready :: "CBCStream \<Rightarrow> CBCStream \<Rightarrow> TWAMPKeys \<Rightarrow> controlConnection \<Rightarrow> bool" where
  "ready st_in st_out keys cc \<longleftrightarrow> secure_conn st_out keys cc \<and> cc_controlDecrypt cc = Some st_in \<and>
     stream_ok st_in \<and> length (AESKey keys) = 16"

lemma ready_secure: "ready st_in st_out keys cc \<Longrightarrow> secure_conn st_out keys cc"
  by (simp add: ready_def)

lemma secure_make_session:
  assumes "ready st_in st_out keys cc" and "length sid = 16"
  shows "\<exists>x. make_session s cc request sid port = Inr x"
  using assms by (auto simp: make_session_def ready_def secure_conn_def DeriveTestSessionKeys_def Let_def)

lemma secure_request:
  assumes ok: "env_ok env" and cc: "ready st_in st_out keys cc"
    and cmd: "sealed_command st_in (HMACKey keys) cmd c st_in'" "stream_ok st_in'" "cc_in cc = c @ rest"
    and req: "RequestTWSession_Unmarshal RequestTWSession_zero cmd True = Inr request"
      "cmd ! 0 = CmdRequestTWSession" "SessionID_IsZero (rts_SID request)"
    and g: "\<not> request_refused env s cc request"
    and al: "allocatePort (ev_free env) (sv_portManager s) = Some (Inr port, pm)"
    and sid: "ev_random env 0 16 = Inr sid"
  shows "\<exists>x st_out' out mac. make_session (s\<lparr>sv_portManager := pm\<rparr>) cc request sid port = Inr x \<and>
    stream_ok st_out' \<and> length mac = 16 \<and> sealed_reply st_out (HMACKey keys) (owed_prefix cc) out
      ([AcceptOK, 0] @ be16 port @ sid @ zeros 12 @ mac) st_out' \<and>
    command_round env s cc = Some (Inr (), fst (store_session sid x (s\<lparr>sv_portManager := pm\<rparr>) cc),
      replied st_out' out (cc\<lparr>cc_in := rest, cc_controlDecrypt := Some st_in', cc_lastActivity := ev_now env,
        cc_sessions := (cc_sessions cc)(sid \<mapsto> length (sv_heap s))\<rparr>))"
proof -
  have auth: "controlRequiresAuthentication (cc_controlMode cc)"
    and k: "cc_controlDecrypt cc = Some st_in" "stream_ok st_in" "cc_keyDerivation cc = Some keys"
      "length (HMACKey keys) = 32"
    using cc by (simp_all add: ready_def secure_conn_def)
  let ?rd = "cc\<lparr>cc_in := rest, cc_controlDecrypt := Some st_in'\<rparr>"
  have "readEncryptedCommand cc = (Inr cmd, ?rd)" using k cmd(3,1) by (rule sealed_is_read)
  then have rd: "readCommand cc = (Inr cmd, ?rd)" using auth by (simp add: readCommand_def)
  let ?cc = "?rd\<lparr>cc_lastActivity := ev_now env\<rparr>"
  have l: "length sid = 16" using env_random [OF ok, of 0 16] sid by auto
  obtain x where x: "make_session (s\<lparr>sv_portManager := pm\<rparr>) cc request sid port = Inr x"
    using secure_make_session [OF cc l] by blast
  have mk: "make_session (s\<lparr>sv_portManager := pm\<rparr>) ?cc request sid port = Inr x"
    using make_session_cong [of cc ?cc "s\<lparr>sv_portManager := pm\<rparr>"] x by (simp add: same_conn_def)
  have nr: "\<not> request_refused env s ?cc request"
    using g auth by (simp add: request_refused_def)
  let ?st = "?cc\<lparr>cc_sessions := (cc_sessions cc)(sid \<mapsto> length (sv_heap s))\<rparr>"
  have sc: "secure_conn st_out keys ?st" using cc by (simp add: ready_def secure_conn_def)
  have owed: "owed_prefix ?st = owed_prefix cc" by (simp add: owed_prefix_def)
  have wb: "whole_blocks (([AcceptOK, 0] @ be16 port @ sid @ zeros 12) @ zeros 16)"
    using l by (simp add: whole_blocks_def)
  obtain mac out st_out' where r: "length mac = 16" "stream_ok st_out'"
    "sealed_reply st_out (HMACKey keys) (owed_prefix ?st) out (([AcceptOK, 0] @ be16 port @ sid @ zeros 12) @ mac) st_out'"
    "send_reply env ''Accept-Session'' (Inr (([AcceptOK, 0] @ be16 port @ sid @ zeros 12) @ zeros 16)) ?st =
      (Inr (), replied st_out' out ?st)"
    by (rule send_reply_secure [OF ok sc wb])
  have acc: "sendAcceptSession env AcceptOK port sid ?st = (Inr (), replied st_out' out ?st)"
    using r(4) by (simp add: sendAcceptSession_def AcceptSession_data(1) [OF l])
  have "handleRequestTWSession env s ?cc cmd = accept_session env request sid port (s\<lparr>sv_portManager := pm\<rparr>) ?cc"
    using auth req(1,3) nr al sid by (simp add: handleRequestTWSession_def)
  also have "\<dots> = Some (Inr (), fst (store_session sid x (s\<lparr>sv_portManager := pm\<rparr>) cc), replied st_out' out ?st)"
    using acc by (simp add: accept_session_def mk store_session_def Let_def answer_def)
  finally have "command_round env s cc =
      Some (Inr (), fst (store_session sid x (s\<lparr>sv_portManager := pm\<rparr>) cc), replied st_out' out ?st)"
    using req(2) rd by (simp add: command_round_def dispatch_def)
  then show ?thesis using x r(1-3) owed by auto
qed

end
