(* ===== verification/Server_Runs.thy ===== *)
theory Server_Runs
  imports Server_System Server_Service
begin

text \<open>
  What holds in every run of the server of \<open>Server_System\<close>: the invariants of the references, the
  key material and the ports, an abstract registry of port reservations that the server refines,
  and the ways in which a run leaks a port or crashes the process.
\<close>

lemma run_refs: "fresh_system sy0 \<Longrightarrow> run any_event sy0 sy \<Longrightarrow> system_refs sy"
  unfolding run_def by (rule refs.reached)

lemma run_keyed: "fresh_system sy0 \<Longrightarrow> run any_event sy0 sy \<Longrightarrow> keyed_system sy"
  unfolding run_def by (rule keyed.reached)

lemma run_ports: "fresh_system sy0 \<Longrightarrow> run calm sy0 sy \<Longrightarrow> ports_inv sy"
  unfolding run_def by (rule ports_safe.reached)

lemma run_step: "run good sy sy' \<Longrightarrow> good e sy' \<Longrightarrow> sys_step e sy' sy'' \<Longrightarrow> run good sy sy''"
  unfolding run_def good_step_def by (rule rtranclp.rtrancl_into_rtrancl) blast+

lemma run_none [simp]: "run good sy sy"
  by (simp add: run_def)

section \<open>The registry of reservations\<close>

text \<open>
  The abstract view of the server: which identifier holds which port. It gains one reservation of
  an identifier and a port that are both new, or loses some.
\<close>

definition reservations :: "Server \<Rightarrow> (session_id \<times> u16) set" where
  "reservations s = {(sid, se_reflectorPort (session_at s p)) |sid p. sv_sessions s sid = Some p}"

inductive registry_step :: "(session_id \<times> u16) set \<Rightarrow> (session_id \<times> u16) set \<Rightarrow> bool" where
  reserve: "sid \<notin> fst ` R \<Longrightarrow> port \<notin> snd ` R \<Longrightarrow> registry_step R (insert (sid, port) R)"
| release: "R' \<subseteq> R \<Longrightarrow> registry_step R R'"

definition shrinks :: "Server \<Rightarrow> Server \<Rightarrow> bool" where
  "shrinks s s' \<longleftrightarrow> grows s s' \<and> sv_sessions s' \<subseteq>\<^sub>m sv_sessions s"

lemma shrinks_reservations:
  assumes "shrinks s s'" and "\<And>sid p. sv_sessions s sid = Some p \<Longrightarrow> p < length (sv_heap s)"
  shows "reservations s' \<subseteq> reservations s"
proof
  fix r assume "r \<in> reservations s'"
  then obtain sid p where r: "r = (sid, se_reflectorPort (session_at s' p))" "sv_sessions s' sid = Some p"
    by (auto simp: reservations_def)
  then have t: "sv_sessions s sid = Some p"
    using assms(1) by (metis shrinks_def map_le_def domI)
  then have "se_reflectorPort (session_at s' p) = se_reflectorPort (session_at s p)"
    using assms by (simp add: shrinks_def grows_def)
  then show "r \<in> reservations s" using r(1) t by (auto simp: reservations_def)
qed

lemma shrinks_refl [simp]: "shrinks s s"
  by (simp add: shrinks_def)

lemma shrinks_trans: "shrinks s t \<Longrightarrow> shrinks t u \<Longrightarrow> shrinks s u"
  unfolding shrinks_def by (blast intro: grows_trans map_le_trans)

lemma startSession_shrinks: "shrinks s (snd (startSession listen now p s))"
  by (simp add: shrinks_def startSession_grows) (simp add: startSession_def Let_def)

lemma start_all_shrinks: "shrinks s (snd (start_all env ps s))"
proof (induction ps arbitrary: s)
  case (Cons p ps)
  obtain r t where t: "startSession (ev_listen env) (ev_now env) p s = (r, t)" by fastforce
  then have "shrinks s t" using startSession_shrinks by (metis snd_conv)
  then show ?case using t Cons.IH [of t] by (cases r) (auto intro: shrinks_trans)
qed simp

lemma stopSession_shrinks: "shrinks s (stopSession p s)"
  unfolding shrinks_def
proof
  show "sv_sessions (stopSession p s) \<subseteq>\<^sub>m sv_sessions s"
    by (cases "se_isActive (session_at s p)") (simp_all add: stopSession_inactive stopSession_active map_le_def)
qed (rule stopSession_grows)

lemma fold_stop_shrinks: "shrinks s (fold stopSession ps s)"
  by (induction ps arbitrary: s) (auto intro: shrinks_trans stopSession_shrinks)

lemma schedule_stop_shrinks: "shrinks s (schedule_stop now p s)"
  by (simp add: shrinks_def) (simp add: schedule_stop_def)

lemma fold_schedule_shrinks: "shrinks s (fold (schedule_stop now) ps s)"
  by (induction ps arbitrary: s) (auto intro: shrinks_trans schedule_stop_shrinks)

lemma stop_listed_shrinks: "shrinks s (fst (stop_listed now sids (s, cc)))"
proof (induction sids arbitrary: s cc)
  case (Cons sid sids)
  then show ?case
    by (cases "cc_sessions cc sid") (auto intro: shrinks_trans [OF schedule_stop_shrinks])
qed simp

lemma fire_timer_shrinks: "shrinks s (fire_timer i s)"
  using stopSession_shrinks [of "s\<lparr>sv_timers := t\<rparr>" for t]
  by (simp add: fire_timer_def Let_def shrinks_def)

lemma reflectPackets_round_shrinks: "shrinks s (snd (reflectPackets_round rnd send now r p s))"
proof -
  have "sv_sessions (snd (reflectPackets_round rnd send now r p s)) \<subseteq>\<^sub>m sv_sessions s"
  proof (cases r)
    case (Read_Packet a)
    obtain out x where it: "reflect_iteration rnd send (ar_datagram a) (ar_addr a) (ar_ttl a) (ar_rx a)
        (ar_tx a) (ar_now a) (session_at s p) = (out, x)" by fastforce
    show ?thesis
      using Read_Packet it stopSession_shrinks [of "put_session p x s" p]
      by (cases out) (simp_all add: reflectPackets_round_def Let_def shrinks_def)
  qed (use stopSession_shrinks [of s p] in \<open>simp_all add: reflectPackets_round_def Let_def shrinks_def\<close>)
  then show ?thesis by (simp add: shrinks_def reflectPackets_round_grows)
qed

lemma reflector_exit_shrinks: "shrinks s (snd (reflector_exit p s))"
  by (simp add: shrinks_def reflector_exit_grows)
    (cases "se_reflectorDone (session_at s p)"; simp add: reflector_exit_def Let_def)

lemma round_exit_shrinks:
  assumes "reflectPackets_round rnd send now r p s = (y, t)" and "reflector_exit p t = (x, u)"
  shows "shrinks s u"
  using reflectPackets_round_shrinks [of s rnd send now r p] reflector_exit_shrinks [of t p] assms
  by (auto intro: shrinks_trans)

text \<open>What a command does to the reservations.\<close>

lemma reservations_add:
  assumes add: "adds_session s cc sid s' cc'" and ok: "sessions_ok s" and new: "sv_sessions s sid = None"
  shows "\<exists>port. port \<notin> snd ` reservations s \<and> sid \<notin> fst ` reservations s \<and>
    reservations s' = insert (sid, port) (reservations s)"
proof -
  from add obtain free port pm request x where
    al: "allocatePort free (sv_portManager s) = Some (Inr port, pm)"
    and x: "make_session (s\<lparr>sv_portManager := pm\<rparr>) cc request sid port = Inr x"
    and s': "s' = fst (store_session sid x (s\<lparr>sv_portManager := pm\<rparr>) cc)"
    by (auto simp: adds_session_def)
  note D = sessions_okD [OF ok]
  have port: "se_reflectorPort x = port"
    using x by (auto simp: make_session_def Let_def split: option.splits if_splits sum.splits)
  have used: "snd ` reservations s \<subseteq> usedPorts (sv_portManager s)"
  proof
    fix q assume "q \<in> snd ` reservations s"
    then obtain i p where "q = se_reflectorPort (session_at s p)" "sv_sessions s i = Some p"
      by (auto simp: reservations_def)
    then have "holding s p = Some q" using D(1,2) by (simp add: holding_def)
    then show "q \<in> usedPorts (sv_portManager s)" using D(4) by (auto intro: ranI)
  qed
  have at: "session_at s' p = session_at s p" if "p < length (sv_heap s)" for p
    using that store_session_at(1) [of p "s\<lparr>sv_portManager := pm\<rparr>" sid x cc] by (simp add: s')
  have at': "session_at s' (length (sv_heap s)) = x"
    using store_session_at(1) [of "length (sv_heap s)" "s\<lparr>sv_portManager := pm\<rparr>" sid x cc] by (simp add: s')
  have tab: "sv_sessions s' = (sv_sessions s)(sid \<mapsto> length (sv_heap s))"
    by (simp add: s' store_session_def Let_def)
  have "reservations s' = insert (sid, port) (reservations s)"
  proof (intro set_eqI iffI)
    fix r assume "r \<in> reservations s'"
    then show "r \<in> insert (sid, port) (reservations s)"
      using at at' port D(1) by (auto simp: reservations_def tab split: if_splits)
  next
    fix r assume "r \<in> insert (sid, port) (reservations s)"
    then consider "r = (sid, port)" | i p where "r = (i, se_reflectorPort (session_at s p))"
        "sv_sessions s i = Some p" "i \<noteq> sid"
      using new by (fastforce simp: reservations_def)
    then show "r \<in> reservations s'"
    proof cases
      case 1
      then show ?thesis using at' port by (auto simp: reservations_def tab)
    next
      case 2
      then show ?thesis unfolding reservations_def tab using at D(1) [OF 2(2)] by auto
    qed
  qed
  moreover have "port \<notin> snd ` reservations s"
    using ports.alloc_new [OF al] used by auto
  moreover have "sid \<notin> fst ` reservations s" using new by (auto simp: reservations_def)
  ultimately show ?thesis by blast
qed

lemma command_registry:
  assumes "command_effect env s cc s' cc'" and "sessions_ok s"
    and "case ev_random env 0 16 of Inl e \<Rightarrow> True | Inr sid \<Rightarrow> sv_sessions s sid = None"
  shows "registry_step (reservations s) (reservations s')"
proof -
  have less: "registry_step (reservations s) (reservations t)" if "shrinks s t" for t
    using shrinks_reservations [OF that] sessions_okD(1) [OF assms(2)] by (blast intro: release)
  show ?thesis
    using assms(1)
  proof cases
    case (adds sid)
    then have "sv_sessions s sid = None" using assms(3) by auto
    from reservations_add [OF adds(1) assms(2) this] show ?thesis by (auto intro: reserve)
  next
    case starts
    then show ?thesis using less [OF start_all_shrinks] by simp
  next
    case stops
    then show ?thesis using less [OF fold_schedule_shrinks] by simp
  next
    case (stops_n cc0 sids)
    have "s' = fst (stop_listed (ev_now env) sids (s, cc0))" using stops_n(2) by (metis fst_conv)
    moreover have "shrinks s (fst (stop_listed (ev_now env) sids (s, cc0)))" by (rule stop_listed_shrinks)
    ultimately show ?thesis using less by simp
  qed (simp add: release)
qed

lemma shrink_registry: "ports_inv sy \<Longrightarrow> shrinks (sy_server sy) s \<Longrightarrow>
    registry_step (reservations (sy_server sy)) (reservations s)"
  by (intro release shrinks_reservations) (auto simp: ports_inv_def dest: sessions_okD(1))

lemma sys_step_registry:
  assumes "sys_step e sy sy'" and "ports_inv sy" and "calm e sy"
  shows "registry_step\<^sup>*\<^sup>* (reservations (sy_server sy)) (reservations (sy_server sy'))"
  using assms
proof (induction rule: sys_step.induct)
  case (command sy c cc env s cc' order)
  then show ?case
    using command_registry [OF command_round_effect] by (simp add: ports_inv_def calm_def r_into_rtranclp)
next
  case (command_failed sy c cc env e s cc' order)
  let ?sy = "sy\<lparr>sy_server := s, sy_conns := (sy_conns sy)(c \<mapsto> cc')\<rparr>"
  have "registry_step (reservations (sy_server sy)) (reservations s)"
    using command_registry [OF command_round_effect] command_failed by (simp add: ports_inv_def calm_def)
  moreover have "ports_inv ?sy" using command_failed ports_safe.commands by blast
  then have "registry_step (reservations s) (reservations (connection_cleanup order cc' s))"
    using shrink_registry [of ?sy "connection_cleanup order cc' s"] fold_stop_shrinks
    by (simp add: connection_cleanup_def)
  ultimately show ?case by (simp add: drop_connection_def)
next
  case (command_panic sy c cc env m s cc' order)
  then show ?case
    using command_registry [OF command_round_effect] by (simp add: ports_inv_def calm_def r_into_rtranclp)
next
  case (disconnect sy c cc order)
  then show ?case
    using shrink_registry fold_stop_shrinks
    by (simp add: drop_connection_def connection_cleanup_def r_into_rtranclp)
next
  case (continue sy p rnd send now r out s)
  then show ?case
    using shrink_registry reflectPackets_round_shrinks [of "sy_server sy" rnd send now r p]
    by (simp add: r_into_rtranclp)
next
  case (return sy p rnd send now r s s')
  have "shrinks (sy_server sy) s'"
    using round_exit_shrinks return(3,4) by blast
  then show ?case using shrink_registry return by (simp add: r_into_rtranclp)
next
  case (return_panic sy p rnd send now r s e s')
  have "shrinks (sy_server sy) s'"
    using round_exit_shrinks return_panic(3,4) by blast
  then show ?case using shrink_registry return_panic by (simp add: r_into_rtranclp)
next
  case (panic sy p rnd send now r m s)
  then show ?case
    using shrink_registry reflectPackets_round_shrinks [of "sy_server sy" rnd send now r p]
    by (simp add: r_into_rtranclp)
next
  case (timer sy i)
  then show ?case using shrink_registry fire_timer_shrinks by (simp add: r_into_rtranclp)
next
  case (shutdown sy order)
  then show ?case
    using shrink_registry fold_stop_shrinks by (simp add: Server_Stop_def r_into_rtranclp)
qed simp_all

section \<open>Sessions that are never started\<close>

text \<open>
  A session \<open>p\<close> that is in the table with its identifier and port and was never started; and the
  states in which no connection refers to it any more.
\<close>

definition never_started :: "nat \<Rightarrow> session_id \<Rightarrow> u16 \<Rightarrow> Server \<Rightarrow> bool" where
  "never_started p sid port s \<longleftrightarrow>
     p < length (sv_heap s) \<and> sv_sessions s sid = Some p \<and> se_sid (session_at s p) = sid \<and>
     se_reflectorPort (session_at s p) = port \<and> live (session_at s p) \<and>
     \<not> se_isActive (session_at s p) \<and> p \<notin> set (sv_running s)"

definition abandoned :: "nat \<Rightarrow> session_id \<Rightarrow> u16 \<Rightarrow> system \<Rightarrow> bool" where
  "abandoned p sid port sy \<longleftrightarrow> ports_inv sy \<and> never_started p sid port (sy_server sy) \<and>
     (\<forall>c cc. sy_conns sy c = Some cc \<longrightarrow> p \<notin> ran (cc_sessions cc))"

lemma never_started_frame:
  "never_started p sid port s \<Longrightarrow> length (sv_heap s) \<le> length (sv_heap t) \<Longrightarrow>
    session_at t p = session_at s p \<Longrightarrow> sv_sessions t sid = sv_sessions s sid \<Longrightarrow>
    (p \<in> set (sv_running t) \<Longrightarrow> p \<in> set (sv_running s)) \<Longrightarrow> never_started p sid port t"
  by (auto simp: never_started_def)

lemma stopSession_never:
  assumes "never_started p sid port s" and "sessions_ok s" and "q < length (sv_heap s)"
  shows "never_started p sid port (stopSession q s)"
proof (cases "se_isActive (session_at s q)")
  case True
  note S = stopSession_active [OF True]
  have "q \<noteq> p" using True assms(1) by (auto simp: never_started_def)
  moreover have "se_sid (session_at s q) \<noteq> sid"
    using assms True sessions_okD(5,6) [OF assms(2), of q] \<open>q \<noteq> p\<close> by (auto simp: never_started_def)
  ultimately show ?thesis
    using assms S by (intro never_started_frame [OF assms(1)]) auto
qed (use assms in \<open>simp add: stopSession_inactive\<close>)

lemma fold_stop_never:
  "never_started p sid port s \<Longrightarrow> sessions_ok s \<Longrightarrow> \<forall>q \<in> set ps. q < length (sv_heap s) \<Longrightarrow>
    never_started p sid port (fold stopSession ps s)"
  by (induction ps arbitrary: s) (simp_all add: stopSession_never stopSession_ok)

lemma startSession_never:
  "never_started p sid port s \<Longrightarrow> q \<noteq> p \<Longrightarrow> never_started p sid port (snd (startSession listen now q s))"
  by (cases "q < length (sv_heap s)") (auto simp: startSession_def Let_def never_started_def)

lemma start_all_never:
  "never_started p sid port s \<Longrightarrow> p \<notin> set ps \<Longrightarrow> never_started p sid port (snd (start_all env ps s))"
proof (induction ps arbitrary: s)
  case (Cons q ps)
  obtain r t where t: "startSession (ev_listen env) (ev_now env) q s = (r, t)" by fastforce
  then have "never_started p sid port t"
    using Cons.prems startSession_never [of p sid port s q "ev_listen env" "ev_now env"] by simp
  then show ?case using t Cons by (cases r) auto
qed simp

lemma schedule_never [simp]: "never_started p sid port (schedule_stop now q s) = never_started p sid port s"
  by (simp add: never_started_def schedule_stop_def)

lemma fold_schedule_never [simp]:
  "never_started p sid port (fold (schedule_stop now) ps s) = never_started p sid port s"
  by (induction ps arbitrary: s) simp_all

lemma stop_listed_never:
  "never_started p sid port (fst (stop_listed now sids (s, cc))) = never_started p sid port s"
proof (induction sids arbitrary: s cc)
  case (Cons i sids)
  then show ?case by (cases "cc_sessions cc i") simp_all
qed simp

lemma command_never:
  assumes "command_effect env s cc s' cc'" and "never_started p sid port s" and "p \<notin> ran (cc_sessions cc)"
    and "case ev_random env 0 16 of Inl e \<Rightarrow> True | Inr sid \<Rightarrow> sv_sessions s sid = None"
  shows "never_started p sid port s'"
  using assms(1)
proof cases
  case (adds i)
  then have new: "sv_sessions s i = None" using assms(4) by auto
  from adds obtain pm x where s': "s' = fst (store_session i x (s\<lparr>sv_portManager := pm\<rparr>) cc)"
    by (auto simp: adds_session_def)
  show ?thesis
    using assms(2) new store_session_at(1) [of p "s\<lparr>sv_portManager := pm\<rparr>" i x cc]
    by (intro never_started_frame [OF assms(2)]) (auto simp: s' never_started_def store_session_def Let_def)
next
  case starts
  have "p \<notin> set (pointers (cc_sessions cc) (ev_order env))"
    using assms(3) by (auto simp: set_pointers intro: ranI)
  then show ?thesis unfolding starts(1) by (rule start_all_never [OF assms(2)])
next
  case (stops_n cc0 sids)
  have "s' = fst (stop_listed (ev_now env) sids (s, cc0))" using stops_n(2) by (metis fst_conv)
  then show ?thesis using assms(2) stop_listed_never by simp
qed (use assms(2) in simp_all)

lemma round_never:
  assumes "never_started p sid port s" and "sessions_ok s" and "q \<in> set (sv_running s)" and "q < length (sv_heap s)"
  shows "never_started p sid port (snd (reflectPackets_round rnd send now r q s))"
proof -
  have q: "q \<noteq> p" using assms(1,3) by (auto simp: never_started_def)
  show ?thesis
  proof (cases r)
    case (Read_Packet a)
    obtain out x where it: "reflect_iteration rnd send (ar_datagram a) (ar_addr a) (ar_ttl a) (ar_rx a)
        (ar_tx a) (ar_now a) (session_at s q) = (out, x)" by fastforce
    have "never_started p sid port (put_session q x s)"
      using assms(1,4) q by (intro never_started_frame [OF assms(1)]) auto
    moreover have "sessions_ok (put_session q x s)"
      using assms(2) reflect_iteration_frame [OF it] by (rule sessions_ok_same)
    ultimately show ?thesis
      using assms Read_Packet it stopSession_never [of p sid port "put_session q x s" q]
      by (cases out) (simp_all add: reflectPackets_round_def Let_def)
  qed (use assms stopSession_never in \<open>auto simp: reflectPackets_round_def Let_def\<close>)
qed

lemma exit_never:
  "never_started p sid port s \<Longrightarrow> never_started p sid port (snd (reflector_exit q s))"
  by (cases "q < length (sv_heap s)"; cases "se_reflectorDone (session_at s q)")
    (auto simp: reflector_exit_def Let_def never_started_def live_def dest: notin_set_remove1)

lemma timer_never:
  assumes "never_started p sid port s" and "sessions_ok s" and "snd (sv_timers s ! i) < length (sv_heap s)"
  shows "never_started p sid port (fire_timer i s)"
  using assms stopSession_never [of p sid port "s\<lparr>sv_timers := t\<rparr>" for t]
  by (simp add: fire_timer_def Let_def) (simp add: never_started_def)

interpretation lost: system_preserved "abandoned p sid port" calm for p sid port
proof unfold_locales
  show "abandoned p sid port (sy\<lparr>sy_conns := (sy_conns sy)(c \<mapsto> cc)\<rparr>)"
    if "abandoned p sid port sy" "sy_conns sy c = None"
      "open_connection env env' (sy_server sy) (new_connection now l r b) = (Inr (), cc)"
    for sy c env env' now l r b cc
    using that ports_safe.connects [of sy c env env' now l r b cc] open_connection_effect [OF that(3)]
    by (auto simp: abandoned_def)
  show "abandoned p sid port (sy\<lparr>sy_conns := (sy_conns sy)(c \<mapsto> cc\<lparr>cc_in := cc_in cc @ b\<rparr>)\<rparr>)"
    if "abandoned p sid port sy" "sy_conns sy c = Some cc" for sy c cc b
    using that ports_safe.inputs [of sy c cc b] by (auto simp: abandoned_def)
  show "abandoned p sid port (sy\<lparr>sy_server := s, sy_conns := (sy_conns sy)(c \<mapsto> cc')\<rparr>)"
    if a: "abandoned p sid port sy" "calm (Command c env order) sy" "sy_conns sy c = Some cc"
      "command_round env (sy_server sy) cc = Some (x, s, cc')" for sy c env order cc x s cc'
  proof -
    have e: "command_effect env (sy_server sy) cc s cc'" using a(4) by (rule command_round_effect)
    have r: "refs_ok (sy_server sy)" "conn_refs (sy_server sy) cc"
      using a system_refsD(1,2) by (auto simp: abandoned_def ports_inv_def)
    have "p \<notin> ran (cc_sessions cc')"
      using command_effect_refs [OF e r] a(1,3) by (auto simp: abandoned_def never_started_def)
    moreover have "never_started p sid port s"
      using command_never [OF e] a(1-3) by (simp add: abandoned_def calm_def)
    moreover have "ports_inv (sy\<lparr>sy_server := s, sy_conns := (sy_conns sy)(c \<mapsto> cc')\<rparr>)"
      using a ports_safe.commands by (simp add: abandoned_def)
    ultimately show ?thesis using a(1) by (auto simp: abandoned_def)
  qed
  show "abandoned p sid port (drop_connection c order cc s sy)"
    if a: "abandoned p sid port (sy\<lparr>sy_server := s, sy_conns := (sy_conns sy)(c \<mapsto> cc)\<rparr>)"
    for sy s c cc order
  proof -
    let ?u = "sy\<lparr>sy_server := s, sy_conns := (sy_conns sy)(c \<mapsto> cc)\<rparr>"
    have "conn_refs s cc"
      using a system_refsD(2) [of ?u c cc] by (simp add: abandoned_def ports_inv_def)
    then have "never_started p sid port (connection_cleanup order cc s)"
      unfolding connection_cleanup_def using a pointers_refs
      by (intro fold_stop_never) (auto simp: abandoned_def ports_inv_def)
    moreover have "ports_inv (drop_connection c order cc s sy)"
      using a ports_safe.drops by (simp add: abandoned_def)
    ultimately show ?thesis using a by (auto simp: abandoned_def drop_connection_def split: if_splits)
  qed
  show "abandoned p sid port (sy\<lparr>sy_server := s\<rparr>)"
    if a: "abandoned p sid port sy" "q \<in> set (sv_running (sy_server sy))"
      "reflectPackets_round rnd send now rr q (sy_server sy) = (y, s)" for sy q rnd send now rr y s
  proof -
    have "q < length (sv_heap (sy_server sy))"
      using a system_refsD(1) [of sy] by (auto simp: abandoned_def ports_inv_def refs_ok_def)
    then have "never_started p sid port s"
      using a round_never [of p sid port "sy_server sy" q rnd send now rr]
      by (auto simp: abandoned_def ports_inv_def)
    then show ?thesis using a ports_safe.rounds [OF _ a(2,3)] by (auto simp: abandoned_def)
  qed
  show "abandoned p sid port (sy\<lparr>sy_server := s'\<rparr>)"
    if "abandoned p sid port (sy\<lparr>sy_server := s\<rparr>)" "q \<in> set (sv_running s)" "reflector_exit q s = (x, s')"
    for sy s q x s'
    using that ports_safe.exits [OF _ that(2,3)] exit_never [of p sid port s q] by (auto simp: abandoned_def)
  show "abandoned p sid port (sy\<lparr>sy_server := fire_timer i (sy_server sy)\<rparr>)"
    if a: "abandoned p sid port sy" "i < length (sv_timers (sy_server sy))" for sy i
  proof -
    have "snd (sv_timers (sy_server sy) ! i) < length (sv_heap (sy_server sy))"
      using a system_refsD(1) [of sy] by (auto simp: abandoned_def ports_inv_def refs_ok_def)
    then show ?thesis
      using a ports_safe.timers [of sy i] timer_never by (auto simp: abandoned_def ports_inv_def)
  qed
  show "abandoned p sid port (sy\<lparr>sy_server := Server_Stop order (sy_server sy)\<rparr>)"
    if a: "abandoned p sid port sy" for sy order
  proof -
    have ok: "sessions_ok (sy_server sy)" using a by (simp add: abandoned_def ports_inv_def)
    then have "\<forall>q \<in> set (pointers (sv_sessions (sy_server sy)) order). q < length (sv_heap (sy_server sy))"
      using sessions_okD(1) [OF ok] by (auto simp: set_pointers)
    then have "never_started p sid port (Server_Stop order (sy_server sy))"
      unfolding Server_Stop_def using a ok by (intro fold_stop_never) (auto simp: abandoned_def)
    then show ?thesis using a ports_safe.shutdowns [of sy order] by (auto simp: abandoned_def)
  qed
qed (use ports_safe.crashes in \<open>auto simp: abandoned_def\<close>)

section \<open>Tame events\<close>

text \<open>The network may fail, but it does not panic.\<close>

definition writes :: "control_env \<Rightarrow> bool" where
  "writes env \<longleftrightarrow> (\<forall>b. \<not> is_panic (ev_write env b))"

text \<open>
  A tame event is calm, comes from a network and a random source that may fail but do not panic, and
  brings no datagram of more than 1984 bytes (64 less than the packet buffer: the most a reply in
  reflect-octets mode grows).
\<close>

definition tame :: "event \<Rightarrow> system \<Rightarrow> bool" where
  "tame e sy \<longleftrightarrow> calm e sy \<and>
     (case e of
        Command c env order \<Rightarrow> writes env
      | Round p rnd send now r \<Rightarrow> rand_ok rnd \<and>
          (case r of Read_Packet a \<Rightarrow> length (ar_datagram a) \<le> 1984 | _ \<Rightarrow> True)
      | _ \<Rightarrow> True)"

lemma run_mono: "run good sy sy' \<Longrightarrow> (\<And>e sy. good e sy \<Longrightarrow> good' e sy) \<Longrightarrow> run good' sy sy'"
  unfolding run_def by (erule rtranclp_mono [THEN predicate2D, rotated]) (unfold good_step_def, blast)

lemma run_any: "run good sy sy' \<Longrightarrow> run any_event sy sy'"
  by (erule run_mono) (simp add: any_event_def)

lemma run_calm: "run tame sy sy' \<Longrightarrow> run calm sy sy'"
  by (erule run_mono) (simp add: tame_def)

section \<open>A run to try things on\<close>

text \<open>
  A client connects, sets up plain control, requests a session and starts it. The bytes it sends
  are the setup response, the request and as many Start-Sessions messages as wanted.
\<close>

definition demo_start :: system where
  "demo_start = \<lparr>sy_server = demo_server 1 20000 30000, sy_conns = Map.empty, sy_crashed = False\<rparr>"

lemma demo_start_fresh: "fresh_system demo_start"
proof -
  have "NewServer (\<lambda>_. None) (\<lambda>_. []) ((demo_config 1)\<lparr>cf_SERVWAIT := 0, cf_REFWAIT := 0\<rparr>) (20000, 30000) [] [] =
      Inr (demo_server 1 20000 30000)"
    by (simp add: NewServer_def demo_config_def demo_server_def newPortManager_def Let_def)
  then show ?thesis unfolding fresh_system_def demo_start_def system.simps by blast
qed

lemma plain_open:
  assumes "SetupResponse_Marshal (demo_response 1) = Inr buf"
  shows "\<exists>cc. open_connection demo_env demo_env (demo_server 1 20000 30000)
      (new_connection 0 [10, 0, 0, 2] [10, 0, 0, 1] (buf @ b)) = (Inr (), cc) \<and>
    cc_in cc = b \<and> cc_controlMode cc = 1 \<and> cc_keyDerivation cc = None \<and> cc_sessions cc = Map.empty \<and>
    cc_RemoteAddr cc = [10, 0, 0, 1]"
proof -
  let ?new = "new_connection 0 [10, 0, 0, 2] [10, 0, 0, 1] (buf @ b)" and ?s = "demo_server 1 20000 30000"
  obtain g data where g: "sendServerGreeting demo_env ?s ?new =
      (Inr (), ?new\<lparr>cc_greeting := Some g, cc_out := cc_out ?new @ [data]\<rparr>)"
    using sendServerGreeting_ok [OF demo_env_ok] by metis
  let ?cc = "?new\<lparr>cc_greeting := Some g, cc_out := cc_out ?new @ [data]\<rparr>"
  have i: "cc_in ?cc = buf @ b" by (simp add: new_connection_def)
  have r: "ResolveMixedModes (sr_Mode (demo_response 1)) = Inr (1, 1)"
    by (simp add: demo_response_def demo_modes)
  have m: "sr_Mode (demo_response 1) AND cf_SupportedModes (sv_config ?s) \<noteq> 0"
    by (simp add: demo_response_def demo_server_def demo_config_def)
  let ?cc' = "?cc\<lparr>cc_in := b, cc_mode := sr_Mode (demo_response 1), cc_controlMode := 1, cc_testMode := 1\<rparr>"
  have "length (zeros 16) = 16" by simp
  from send_ServerStart_ok [OF demo_env_ok this, of ?cc'] obtain d where
    d: "send_ServerStart demo_env (zeros 16) ?cc' = (Inr (), ?cc'\<lparr>cc_serverStartBytes := d,
      cc_serverStartHMACPending := controlRequiresAuthentication (cc_controlMode ?cc'),
      cc_out := cc_out ?cc' @ [d]\<rparr>)" by blast
  have iv: "ev_random demo_env 0 16 = Inr (zeros 16)" by (simp add: demo_env_def)
  have "handleClientSetup demo_env ?s ?cc = send_ServerStart demo_env (zeros 16) ?cc'"
    using handleClientSetup_mode [OF demo_response_ok assms i r, of demo_env ?s] m demo_modes(6) iv by simp
  then show ?thesis
    unfolding open_connection_def g d by (simp add: new_connection_def)
qed

text \<open>A Start-Sessions command in plain mode.\<close>

lemma plain_start:
  assumes ok: "env_ok env" and plain: "\<not> controlRequiresAuthentication (cc_controlMode cc)"
    and i: "cc_in cc = (CmdStartSessions # zeros 31) @ rest"
    and st: "start_all env (pointers (cc_sessions cc) (ev_order env)) s = (Inr (), s')"
  shows "\<exists>ack. command_round env s cc = Some (Inr (), s',
    cc\<lparr>cc_in := rest, cc_lastActivity := ev_now env, cc_out := cc_out cc @ [ack]\<rparr>)"
proof -
  let ?m = "StartSessions_zero\<lparr>sts_Command := CmdStartSessions\<rparr>" and ?d = "CmdStartSessions # zeros 31"
  have z: "zeros 15 @ zeros 16 = zeros 31" by (simp add: zeros_def flip: replicate_add)
  have "StartSessions_ok False ?m" by (simp add: StartSessions_ok_def StartSessions_zero_def hmac_ok_def)
  moreover have "StartSessions_Marshal ?m False = Inr ?d"
    by (subst StartSessions_Marshal_eq) (simp_all add: StartSessions_zero_def hmac_ok_def z)
  ultimately have u: "StartSessions_Unmarshal StartSessions_zero ?d False = Inr ?m"
    using start_sessions_codec.dec_enc [of False ?m ?d "[]"] by simp
  have rd: "readCommand cc = (Inr ?d, cc\<lparr>cc_in := rest\<rparr>)"
    using plain readPlainCommand_front [OF i] by (simp add: readCommand_def controlCommandLength_def)
  let ?cc = "cc\<lparr>cc_in := rest, cc_lastActivity := ev_now env\<rparr>"
  have "StartAck_Marshal (StartAck_zero\<lparr>sa_Accept := AcceptOK\<rparr>) False = Inr ((AcceptOK # zeros 15) @ zeros 16)"
    by (subst StartAck_Marshal_eq) (simp_all add: StartAck_zero_def hmac_ok_def)
  then have "sendStartAck env AcceptOK ?cc =
      (Inr (), ?cc\<lparr>cc_out := cc_out cc @ [(AcceptOK # zeros 15) @ zeros 16]\<rparr>)"
    using plain sendControlMessage_plain [OF ok, of ?cc "AcceptOK # zeros 15" "[]"]
    by (simp add: sendStartAck_def send_reply_def)
  then have "handleStartSessions env s ?cc ?d = Some (Inr (), s', ?cc\<lparr>cc_out := cc_out cc @ [(AcceptOK # zeros 15) @ zeros 16]\<rparr>)"
    using plain u st by (simp add: handleStartSessions_def answer_def)
  then show ?thesis
    using rd by (intro exI [of _ "(AcceptOK # zeros 15) @ zeros 16"]) (simp add: command_round_def dispatch_def)
qed

text \<open>The run up to the request.\<close>

definition demo_requested :: "bytes \<Rightarrow> system \<Rightarrow> controlConnection \<Rightarrow> TestSession \<Rightarrow> bool" where
  "demo_requested b sy cc x \<longleftrightarrow>
     \<not> sy_crashed sy \<and> sy_conns sy = [0 \<mapsto> cc] \<and> cc_in cc = b \<and> cc_controlMode cc = 1 \<and>
     cc_sessions cc = [zeros 16 \<mapsto> 0] \<and>
     sv_heap (sy_server sy) = [x] \<and> sv_sessions (sy_server sy) = [zeros 16 \<mapsto> 0] \<and>
     sv_running (sy_server sy) = [] \<and> usedPorts (sv_portManager (sy_server sy)) = {20000} \<and>
     cf_REFWAIT (sv_config (sy_server sy)) = DefaultREFWAIT \<and>
     se_sid x = zeros 16 \<and> se_reflectorPort x = 20000 \<and> se_conn x = Nil_handle \<and>
     \<not> se_isActive x \<and> se_stopChan x = Open_handle \<and> se_reflectorDone x = Open_handle"

lemma demo_tame_run: "\<exists>sy cc x. run tame demo_start sy \<and> demo_requested b sy cc x"
proof -
  obtain buf where buf: "SetupResponse_Marshal (demo_response 1) = Inr buf" using demo_response_bytes by blast
  obtain data where data: "RequestTWSession_Marshal demo_request False = Inr data"
    using demo_request_bytes by blast
  let ?s = "demo_server 1 20000 30000" and ?l = "[10, 0, 0, 2]" and ?r = "[10, 0, 0, 1]"
  obtain cc where op: "open_connection demo_env demo_env ?s (new_connection 0 ?l ?r (buf @ data @ b)) = (Inr (), cc)"
    and cc: "cc_in cc = data @ b" "cc_controlMode cc = 1" "cc_keyDerivation cc = None"
      "cc_sessions cc = Map.empty" "cc_RemoteAddr cc = ?r"
    using plain_open [OF buf, of "data @ b"] by blast
  let ?sy1 = "demo_start\<lparr>sy_conns := [0 \<mapsto> cc]\<rparr>"
  have c1: "sys_step (Connect 0 0 ?l ?r demo_env demo_env (buf @ data @ b)) demo_start ?sy1"
    using connected [of demo_start 0 demo_env demo_env 0 ?l ?r "buf @ data @ b" cc] op
    by (simp add: demo_start_def)
  have plain: "\<not> controlRequiresAuthentication (cc_controlMode cc)" by (simp add: cc demo_modes)
  have rnd: "ev_random demo_env 0 16 = Inr (zeros 16)" by (simp add: demo_env_def)
  let ?pm = "\<lparr>minPort = 20000, maxPort = 30000, usedPorts = {20000}\<rparr>"
  let ?cc = "cc\<lparr>cc_in := b, cc_lastActivity := ev_now demo_env,
         cc_sessions := [zeros 16 \<mapsto> 0], cc_out := cc_out cc @ [accept_bytes 20000 (zeros 16)]\<rparr>"
  obtain x where x: "make_session (?s\<lparr>sv_portManager := ?pm\<rparr>) cc demo_request (zeros 16) 20000 = Inr x"
    and cr: "command_round demo_env ?s cc =
      Some (Inr (), fst (store_session (zeros 16) x (?s\<lparr>sv_portManager := ?pm\<rparr>) cc), ?cc)"
    using plain_request [OF demo_env_ok plain cc(3) demo_request_ok data cc(1) demo_request_fields(1,2)
        demo_not_refused [OF cc(5)] demo_alloc rnd] cc(4) by (auto simp: demo_server_def)
  let ?s2 = "fst (store_session (zeros 16) x (?s\<lparr>sv_portManager := ?pm\<rparr>) cc)"
  let ?sy2 = "?sy1\<lparr>sy_server := ?s2, sy_conns := (sy_conns ?sy1)(0 \<mapsto> ?cc)\<rparr>"
  have "order_ok (cc_sessions cc) (ev_order demo_env)" by (simp add: order_ok_def cc demo_env_def)
  then have c2: "sys_step (Command 0 demo_env []) ?sy1 ?sy2"
    using command [of ?sy1 0 cc demo_env ?s2 ?cc "[]"] cr by (simp add: demo_start_def)
  have "calm (Command 0 demo_env []) ?sy1"
    by (simp add: calm_def rnd demo_start_def cc) (simp add: demo_server_def)
  then have tame: "tame (Command 0 demo_env []) ?sy1" by (simp add: tame_def writes_def demo_env_def)
  have "run tame demo_start ?sy1" by (rule run_step [OF run_none _ c1]) (simp add: tame_def calm_def)
  then have "run tame demo_start ?sy2" using tame c2 by (rule run_step)
  moreover have "se_sid x = zeros 16 \<and> se_reflectorPort x = 20000 \<and> se_conn x = Nil_handle \<and>
      \<not> se_isActive x \<and> se_stopChan x = Open_handle \<and> se_reflectorDone x = Open_handle"
    using x cc(3) by (auto simp: make_session_def)
  then have "demo_requested b ?sy2 ?cc x"
    using cc(2) by (simp add: demo_requested_def store_session_def Let_def demo_start_def)
      (simp add: demo_server_def demo_config_def)
  ultimately show ?thesis by blast
qed

lemma demo_request_run: "\<exists>sy cc x. run calm demo_start sy \<and> demo_requested b sy cc x"
  using demo_tame_run run_calm by blast

end
