(* ===== verification/Server_Promises.thy ===== *)
theory Server_Promises
  imports Server_Runs
begin

text \<open>
  What the server promises in every run, and what it does not: the properties of whole runs.
\<close>

text \<open>The run of a client that requests one session.\<close>

lemma demo_registry: "\<exists>sy. run calm demo_start sy \<and> reservations (sy_server sy) = {(zeros 16, 20000)}"
proof -
  obtain sy cc x where r: "run calm demo_start sy" "demo_requested [] sy cc x"
    using demo_request_run by blast
  then have "reservations (sy_server sy) = {(zeros 16, 20000)}"
    by (auto simp: demo_requested_def reservations_def session_at_def split: if_splits)
  with r show ?thesis by blast
qed

section \<open>Invariants\<close>

text \<open>C14: connections do not share sessions. Whatever the clients send and however the
  goroutines interleave, an identifier a connection lists leads to an existing session with that
  identifier, no two connections list the same session, and the timers and the running reflectors
  refer to existing sessions too.\<close>

theorem session_isolation:
  assumes "fresh_system sy0" and "run any_event sy0 sy"
  shows "(\<forall>c cc sid p. sy_conns sy c = Some cc \<longrightarrow> cc_sessions cc sid = Some p \<longrightarrow>
      p < length (sv_heap (sy_server sy)) \<and> se_sid (session_at (sy_server sy) p) = sid \<and>
      (\<forall>c' cc' sid'. sy_conns sy c' = Some cc' \<longrightarrow> cc_sessions cc' sid' = Some p \<longrightarrow> c' = c \<and> sid' = sid)) \<and>
    (\<forall>t \<in> set (sv_timers (sy_server sy)). snd t < length (sv_heap (sy_server sy))) \<and>
    (\<forall>p \<in> set (sv_running (sy_server sy)). p < length (sv_heap (sy_server sy)))"
proof -
  have refs: "system_refs sy" using assms by (rule run_refs)
  note R = system_refsD [OF refs]
  have one: "c' = c \<and> sid' = sid"
    if "sy_conns sy c = Some cc" "cc_sessions cc sid = Some p" "sy_conns sy c' = Some cc'" "cc_sessions cc' sid' = Some p"
    for c cc sid p c' cc' sid'
  proof -
    have "c' = c" using refs that unfolding system_refs_def by (meson ranI)
    moreover have "sid' = sid" using R(2) [OF that(1)] R(2) [OF that(3)] that unfolding conn_refs_def by blast
    ultimately show ?thesis ..
  qed
  show ?thesis using R(1,2) one unfolding refs_ok_def conn_refs_def by meson
qed

theorem session_isolation_witness:
  "\<exists>sy cc. run any_event demo_start sy \<and> sy_conns sy 0 = Some cc \<and> cc_sessions cc (zeros 16) = Some 0 \<and>
    se_sid (session_at (sy_server sy) 0) = zeros 16"
proof -
  obtain sy cc x where r: "run calm demo_start sy" "demo_requested [] sy cc x"
    using demo_request_run by blast
  then have "sy_conns sy 0 = Some cc" "cc_sessions cc (zeros 16) = Some 0"
    by (simp_all add: demo_requested_def)
  with session_isolation [OF demo_start_fresh run_any [OF r(1)]] run_any [OF r(1)] show ?thesis by blast
qed



section \<open>Refinement\<close>



section \<open>Lost ports\<close>

text \<open>C26: a session that is never started is never given back. When the client of an accepted
  session goes away before it starts the session, the connection's clean-up, which asks
  \<open>stopSession\<close>, leaves the session in the table, and in every calm run from there it stays in the
  table, its port stays in use, it never becomes active, and no connection refers to it.\<close>

theorem abandoned_port_lost:
  assumes "fresh_system sy0" and "run calm sy0 sy1"
    and "sy_conns sy1 c = Some cc" and "cc_sessions cc sid = Some p"
    and "live (session_at (sy_server sy1) p)" and "\<not> se_isActive (session_at (sy_server sy1) p)"
    and "p \<notin> set (sv_running (sy_server sy1))"
    and "sys_step (Disconnect c order) sy1 sy2" and "run calm sy2 sy"
  shows "sv_sessions (sy_server sy) sid = Some p \<and>
    (sid, se_reflectorPort (session_at (sy_server sy1) p)) \<in> reservations (sy_server sy) \<and>
    se_reflectorPort (session_at (sy_server sy1) p) \<in> usedPorts (sv_portManager (sy_server sy)) \<and>
    \<not> se_isActive (session_at (sy_server sy) p) \<and>
    (\<forall>c' cc'. sy_conns sy c' = Some cc' \<longrightarrow> p \<notin> ran (cc_sessions cc'))"
proof -
  let ?s = "sy_server sy1" and ?port = "se_reflectorPort (session_at (sy_server sy1) p)"
  have inv: "ports_inv sy1" using assms(1,2) by (rule run_ports)
  then have ok: "sessions_ok ?s" and refs: "system_refs sy1" by (simp_all add: ports_inv_def)
  note cr = system_refsD(2) [OF refs assms(3)]
  have p: "p < length (sv_heap ?s)" "se_sid (session_at ?s p) = sid"
    using cr assms(4) by (simp_all add: conn_refs_def)
  then have "sv_sessions ?s sid = Some p" using sessions_okD(5) [OF ok p(1) assms(5)] by simp
  then have never: "never_started p sid ?port ?s" using p assms(5-7) by (simp add: never_started_def)
  have sy2: "sy2 = drop_connection c order cc ?s sy1"
    using assms(8) by (cases rule: sys_step.cases) (use assms(3) in simp_all)
  have "never_started p sid ?port (sy_server sy2)"
    unfolding sy2 drop_connection_def connection_cleanup_def
    using fold_stop_never [OF never ok pointers_refs [OF cr]] by simp
  moreover have "ports_inv sy2"
    using run_step [OF assms(2) _ assms(8)] run_ports [OF assms(1)] by (simp add: calm_def)
  moreover have "p \<notin> ran (cc_sessions cc')" if "sy_conns sy2 c' = Some cc'" for c' cc'
    using that system_refsD(3) [OF refs _ assms(3)] assms(4)
    by (auto simp: sy2 drop_connection_def split: if_splits intro: ranI)
  ultimately have "abandoned p sid ?port sy2" by (auto simp: abandoned_def)
  with assms(9) have a: "abandoned p sid ?port sy" unfolding run_def by (rule lost.along)
  then have t: "sv_sessions (sy_server sy) sid = Some p" "se_reflectorPort (session_at (sy_server sy) p) = ?port"
    "sessions_ok (sy_server sy)" "se_sid (session_at (sy_server sy) p) = sid"
    by (simp_all add: abandoned_def never_started_def ports_inv_def)
  have "(sid, ?port) \<in> reservations (sy_server sy)"
    unfolding reservations_def using t by force
  moreover have "?port \<in> usedPorts (sv_portManager (sy_server sy))"
    unfolding sessions_okD(4) [OF t(3)] using t sessions_okD(1) [OF t(3)]
    by (intro ranI [of _ p]) (simp add: holding_def)
  ultimately show ?thesis using a t(1) by (simp add: abandoned_def never_started_def)
qed

theorem abandoned_port_lost_witness:
  "\<exists>sy. run calm demo_start sy \<and> sy_conns sy = Map.empty \<and> 20000 \<in> usedPorts (sv_portManager (sy_server sy))"
proof -
  obtain sy cc x where r: "run calm demo_start sy" and d: "demo_requested [] sy cc x"
    using demo_request_run by blast
  have c: "sy_conns sy 0 = Some cc" "cc_sessions cc (zeros 16) = Some 0" "session_at (sy_server sy) 0 = x"
    "\<not> sy_crashed sy" "0 \<notin> set (sv_running (sy_server sy))" "se_reflectorPort x = 20000"
    "live x" "\<not> se_isActive x" "order_ok (cc_sessions cc) [zeros 16]" "dom (sy_conns sy) = {0}"
    using d by (simp_all add: demo_requested_def session_at_def live_def order_ok_def)
  define sy2 where "sy2 = drop_connection 0 [zeros 16] cc (sy_server sy) sy"
  have st: "sys_step (Disconnect 0 [zeros 16]) sy sy2"
    unfolding sy2_def using c(4,1,9) by (rule disconnect)
  have "run calm demo_start sy2" by (rule run_step [OF r _ st]) (simp add: calm_def)
  moreover have "sy_conns sy2 = Map.empty"
    using d by (auto simp: sy2_def drop_connection_def demo_requested_def)
  ultimately show ?thesis
    using abandoned_port_lost [OF demo_start_fresh r c(1,2) _ _ c(5) st run_none] c(3,6-8) by auto
qed

section \<open>Restarts\<close>

text \<open>The client of the demonstration starts its session, more than once if it likes.\<close>

abbreviation start_bytes :: bytes where "start_bytes \<equiv> CmdStartSessions # zeros 31"

definition demo_start_env :: control_env where
  "demo_start_env = demo_env\<lparr>ev_order := [zeros 16]\<rparr>"

lemma demo_start_env_ok: "env_ok demo_start_env"
  using demo_env_ok by (simp add: demo_start_env_def env_ok_def)

definition demo_idle :: "bytes \<Rightarrow> handle \<Rightarrow> handle \<Rightarrow> bool \<Rightarrow> system \<Rightarrow> bool" where
  "demo_idle b dn st running sy \<longleftrightarrow>
     \<not> sy_crashed sy \<and> cf_REFWAIT (sv_config (sy_server sy)) = DefaultREFWAIT \<and>
     sv_running (sy_server sy) = (if running then [0] else []) \<and>
     (\<exists>cc x. sy_conns sy 0 = Some cc \<and> cc_in cc = b \<and> cc_controlMode cc = 1 \<and>
        cc_sessions cc = [zeros 16 \<mapsto> 0] \<and> sv_heap (sy_server sy) = [x] \<and>
        se_isActive x = running \<and> se_reflectorDone x = dn \<and> se_stopChan x = st \<and>
        (running \<longrightarrow> se_conn x = Open_handle \<and> se_startTime x = 0))"

lemma demo_starts:
  assumes "demo_idle (start_bytes @ b) dn st False sy" and "st \<noteq> Closed_handle"
  shows "\<exists>sy'. good_step any_event sy sy' \<and> demo_idle b dn Open_handle True sy'"
proof -
  from assms obtain cc x where d: "sy_conns sy 0 = Some cc" "cc_in cc = start_bytes @ b" "cc_controlMode cc = 1"
    "cc_sessions cc = [zeros 16 \<mapsto> 0]" "sv_heap (sy_server sy) = [x]" "\<not> se_isActive x"
    "se_reflectorDone x = dn" "se_stopChan x = st" "\<not> sy_crashed sy" "sv_running (sy_server sy) = []"
    "cf_REFWAIT (sv_config (sy_server sy)) = DefaultREFWAIT"
    by (auto simp: demo_idle_def)
  have env: "ev_order demo_start_env = [zeros 16]" "ev_now demo_start_env = 0" "ev_listen demo_start_env = (\<lambda>_. True)"
    by (simp_all add: demo_start_env_def demo_env_def)
  let ?x = "(x\<lparr>se_conn := Open_handle, se_startTime := 0\<rparr>)"
  let ?x' = "(if st = Nil_handle then ?x\<lparr>se_stopChan := Open_handle\<rparr> else ?x)\<lparr>se_isActive := True\<rparr>"
  let ?s' = "(put_session 0 ?x' (sy_server sy))\<lparr>sv_running := [0]\<rparr>"
  have "pointers (cc_sessions cc) (ev_order demo_start_env) = [0]"
    by (simp add: env d pointers_def List.map_filter_def)
  then have st': "start_all demo_start_env (pointers (cc_sessions cc) (ev_order demo_start_env)) (sy_server sy) = (Inr (), ?s')"
    using d by (simp add: startSession_def env session_at_def Let_def)
  have plain: "\<not> controlRequiresAuthentication (cc_controlMode cc)" by (simp add: d demo_modes)
  obtain ack where c: "command_round demo_start_env (sy_server sy) cc = Some (Inr (), ?s',
    cc\<lparr>cc_in := b, cc_lastActivity := ev_now demo_start_env, cc_out := cc_out cc @ [ack]\<rparr>)"
    using plain_start [OF demo_start_env_ok plain d(2) st'] by blast
  have o: "order_ok (cc_sessions cc) (ev_order demo_start_env)" by (simp add: order_ok_def env d)
  let ?cc = "cc\<lparr>cc_in := b, cc_lastActivity := ev_now demo_start_env, cc_out := cc_out cc @ [ack]\<rparr>"
  let ?sy = "sy\<lparr>sy_server := ?s', sy_conns := (sy_conns sy)(0 \<mapsto> ?cc)\<rparr>"
  have "good_step any_event sy ?sy"
    using command [OF d(9,1) o c] unfolding good_step_def any_event_def by blast
  moreover have "demo_idle b dn Open_handle True ?sy"
    unfolding demo_idle_def using d assms(2)
    by (intro conjI exI [of _ ?cc] exI [of _ ?x']) (cases st; simp add: put_session_def)+
  ultimately show ?thesis by blast
qed

text \<open>Nothing comes from the sender for longer than \<open>REFWAIT\<close>.\<close>

abbreviation silent :: event where
  "silent \<equiv> Round 0 (\<lambda>n. Inr (zeros n)) (\<lambda>b a. Inr ()) (DefaultREFWAIT + 1) Read_Timeout"

lemma demo_times_out:
  assumes "demo_idle b dn Open_handle True sy" and "dn \<noteq> Nil_handle"
  shows "if dn = Open_handle then \<exists>sy'. sys_step silent sy sy' \<and> demo_idle b Closed_handle Nil_handle False sy'
    else \<exists>sy'. sys_step silent sy sy' \<and> sy_crashed sy'"
proof -
  from assms obtain cc x where d: "sy_conns sy 0 = Some cc" "cc_in cc = b" "cc_controlMode cc = 1"
    "cc_sessions cc = [zeros 16 \<mapsto> 0]" "sv_heap (sy_server sy) = [x]" "se_isActive x"
    "se_reflectorDone x = dn" "se_stopChan x = Open_handle" "\<not> sy_crashed sy" "sv_running (sy_server sy) = [0]"
    "cf_REFWAIT (sv_config (sy_server sy)) = DefaultREFWAIT" "se_conn x = Open_handle" "se_startTime x = 0"
    by (auto simp: demo_idle_def)
  let ?s = "stopSession 0 (sy_server sy)"
  have r: "reflectPackets_round (\<lambda>n. Inr (zeros n)) (\<lambda>b a. Inr ()) (DefaultREFWAIT + 1) Read_Timeout 0 (sy_server sy) = (Return, ?s)"
    using d by (simp add: reflectPackets_round_def session_at_def Let_def)
  have at: "session_at ?s 0 = mark_stopped x" "sv_heap ?s = [mark_stopped x]" "sv_running ?s = [0]"
    "sv_config ?s = sv_config (sy_server sy)"
    using d by (simp_all add: stopSession_def session_at_def put_session_def Let_def)
  have p: "0 \<in> set (sv_running (sy_server sy))" using d by simp
  show ?thesis
  proof (cases dn)
    case Open_handle
    obtain s' where e: "reflector_exit 0 ?s = (Inr (), s')" "sv_running s' = []" "sv_config s' = sv_config (sy_server sy)"
      "sv_heap s' = [(mark_stopped x)\<lparr>se_conn := Nil_handle, se_reflectorDone := Closed_handle\<rparr>]"
      using d Open_handle at by (simp add: reflector_exit_def Let_def mark_stopped_def put_session_def)
    have "demo_idle b Closed_handle Nil_handle False (sy\<lparr>sy_server := s'\<rparr>)"
      using d e by (simp add: demo_idle_def mark_stopped_def)
    with return [OF d(9) p r e(1)] Open_handle show ?thesis by auto
  next
    case Closed_handle
    obtain e s' where e: "reflector_exit 0 ?s = (Inl e, s')"
      using d Closed_handle at by (simp add: reflector_exit_def Let_def mark_stopped_def)
    from return_panic [OF d(9) p r e] Closed_handle show ?thesis by auto
  qed (use assms in simp)
qed

text \<open>C25: a client that starts its session twice ends the server. The session is stopped
  when nothing arrived for \<open>REFWAIT\<close>, but its connection keeps it: a second Start-Sessions starts
  it again, and when that reflector ends it closes a channel that is closed already, which is a panic of
  the whole process. All the client does is valid: a plain setup, a request, two starts.\<close>

theorem restart_crashes:
  "\<exists>sy. run any_event demo_start sy \<and> sy_crashed sy"
proof -
  obtain sy1 cc x where r: "run calm demo_start sy1" and d: "demo_requested (start_bytes @ start_bytes @ []) sy1 cc x"
    using demo_request_run by blast
  have i1: "demo_idle (start_bytes @ start_bytes @ []) Open_handle Open_handle False sy1"
    using d by (simp add: demo_idle_def demo_requested_def)
  obtain sy2 where s2: "good_step any_event sy1 sy2" and i2: "demo_idle (start_bytes @ []) Open_handle Open_handle True sy2"
    using demo_starts [OF i1] by auto
  obtain sy3 where s3: "sys_step silent sy2 sy3" and i3: "demo_idle (start_bytes @ []) Closed_handle Nil_handle False sy3"
    using demo_times_out [OF i2] by auto
  obtain sy4 where s4: "good_step any_event sy3 sy4" and i4: "demo_idle [] Closed_handle Open_handle True sy4"
    using demo_starts [OF i3] by auto
  obtain sy5 where s5: "sys_step silent sy4 sy5" "sy_crashed sy5"
    using demo_times_out [OF i4] by auto
  have g: "good_step any_event sy2 sy3" "good_step any_event sy4 sy5"
    using s3 s5 by (auto simp: good_step_def any_event_def)
  have "run any_event demo_start sy5"
    using run_any [OF r] s2 g s4 unfolding run_def by (meson rtranclp.rtrancl_into_rtrancl)
  with s5 show ?thesis by blast
qed

section \<open>Idle sessions\<close>



end
