(* ===== verification/Server_Safety.thy ===== *)
theory Server_Safety
  imports Server_Promises
begin

text \<open>
  When the server process goes down: the panics of the handlers and of the reflectors, and the runs
  that have none.
\<close>

section \<open>Commands do not panic\<close>

named_theorems no_panic

lemma conn_ReadFull_panic [no_panic]: "\<not> is_panic (fst (conn_ReadFull n cc))"
  by (simp add: conn_ReadFull_def)

lemma controlCommandLength_panic [no_panic]: "\<not> is_panic (controlCommandLength c h)"
  by (simp add: controlCommandLength_def Let_def)

lemma check_command_hmac_panic [no_panic]:
  "cc_keyDerivation cc \<noteq> None \<Longrightarrow> \<not> is_panic (check_command_hmac cc cmd)"
  by (cases "cc_keyDerivation cc")
    (simp_all add: check_command_hmac_def VerifyHMAC_def CalculateHMAC_def Let_def split: sum.split)

text \<open>Operations in sequence.\<close>

lemma no_panic_bind:
  assumes "\<not> is_panic (fst r)" and "\<And>x cc'. r = (Inr x, cc') \<Longrightarrow> \<not> is_panic (fst (g x cc'))"
  shows "\<not> is_panic (fst (case r of (Inl e, cc') \<Rightarrow> (Inl e, cc') | (Inr x, cc') \<Rightarrow> g x cc'))"
  using assms by (auto split: prod.split sum.split)

lemma no_panic_sum:
  assumes "\<not> is_panic r" and "\<And>x. r = Inr x \<Longrightarrow> \<not> is_panic (fst (g x))"
  shows "\<not> is_panic (fst (case r of Inl e \<Rightarrow> (Inl e, cc) | Inr x \<Rightarrow> g x))"
  using assms by (auto split: sum.split)

lemma no_panic_if:
  assumes "c \<Longrightarrow> \<not> is_panic (fst a)" and "\<not> c \<Longrightarrow> \<not> is_panic (fst b)"
  shows "\<not> is_panic (fst (if c then a else b))"
  using assms by simp

lemmas no_panic_intros = no_panic_bind no_panic_sum no_panic_if

lemma readPlainCommand_panic [no_panic]: "\<not> is_panic (fst (readPlainCommand cc))"
  unfolding readPlainCommand_def Let_def by (intro no_panic_intros no_panic; simp)

lemma stream_Decrypt_panic:
  assumes "cc_controlDecrypt cc \<noteq> None"
  shows "\<not> is_panic (fst (stream_Decrypt b cc)) \<and> cc_controlDecrypt (snd (stream_Decrypt b cc)) \<noteq> None"
  using assms by (cases "cc_controlDecrypt cc")
    (simp_all add: stream_Decrypt_def CBCStream_Decrypt_def Let_def split: prod.split)

lemma readEncryptedCommand_panic [no_panic]:
  assumes "cc_keyDerivation cc \<noteq> None"
  shows "\<not> is_panic (fst (readEncryptedCommand cc))"
proof (cases "cc_controlDecrypt cc")
  case (Some st)
  obtain a cc1 where r1: "conn_ReadFull 16 cc = (a, cc1)" by fastforce
  have d1: "cc_controlDecrypt cc1 \<noteq> None" and k1: "cc_keyDerivation cc1 = cc_keyDerivation cc"
    using r1 Some by (auto simp: conn_ReadFull_def split: if_splits)
  obtain b cc2 where r2: "stream_Decrypt (projr a) cc1 = (b, cc2)" by fastforce
  have d2: "cc_controlDecrypt cc2 \<noteq> None" "\<not> is_panic b" and k2: "cc_keyDerivation cc2 = cc_keyDerivation cc"
    using stream_Decrypt_panic [OF d1, of "projr a"] stream_Decrypt_frame [of cc1 "projr a"] k1 r2
    by (simp_all add: same_conn_def)
  have rest: "\<not> is_panic (fst (case stream_Decrypt c cc3 of (Inl e, cc) \<Rightarrow> (Inl e, cc)
      | (Inr restPlain, cc) \<Rightarrow> (check_command_hmac cc (f @ restPlain), cc)))"
    if "conn_ReadFull n cc2 = (Inr c, cc3)" for n c cc3 f
  proof -
    have "cc_controlDecrypt cc3 \<noteq> None" "cc_keyDerivation cc3 = cc_keyDerivation cc"
      using that d2 k2 by (auto simp: conn_ReadFull_def split: if_splits)
    then show ?thesis
      using stream_Decrypt_panic [of cc3 c] stream_Decrypt_frame [of cc3 c] assms
      by (intro no_panic_bind; simp add: no_panic same_conn_def)
  qed
  show ?thesis
  proof (cases a)
    case (Inl e)
    then show ?thesis using r1 conn_ReadFull_panic [of 16 cc] Some by (simp add: readEncryptedCommand_def)
  next
    case (Inr c)
    then have r2': "stream_Decrypt c cc1 = (b, cc2)" using r2 by simp
    show ?thesis
    proof (cases b)
      case (Inl e)
      then show ?thesis using r1 r2' d2 Some Inr by (simp add: readEncryptedCommand_def)
    next
      case b: (Inr p)
      show ?thesis
        using assms k2 Some unfolding readEncryptedCommand_def Let_def
        by (simp add: r1 Inr r2' b) (intro conjI impI no_panic_intros no_panic rest; simp add: no_panic)
    qed
  qed
qed (simp add: readEncryptedCommand_def)

lemma readCommand_panic:
  "keyed_conn cc \<Longrightarrow> \<not> is_panic (fst (readCommand cc))"
  by (simp add: readCommand_def no_panic keyed_conn_def)

lemma conn_Write_panic: "writes env \<Longrightarrow> \<not> is_panic (fst (conn_Write env b cc))"
  unfolding writes_def conn_Write_def by (cases "ev_write env b") (auto dest: spec [of _ b])

lemma sendControlMessage_panic:
  assumes "writes env" and "keyed_conn cc"
  shows "\<not> is_panic (fst (sendControlMessage env m pre cc))"
proof (cases "controlRequiresAuthentication (cc_controlMode cc)")
  case True
  then obtain keys where "cc_keyDerivation cc = Some keys" using assms(2) by (auto simp: keyed_conn_def)
  moreover have "\<not> is_panic (CalculateHMACWithPrefix k p b)" for k p b
    by (simp add: CalculateHMACWithPrefix_def)
  ultimately show ?thesis
    using True assms(1) by (auto simp: sendControlMessage_def CBCStream_Encrypt_def Let_def conn_Write_panic
        split: option.split sum.split)
qed (use assms conn_Write_panic in \<open>auto simp: sendControlMessage_def\<close>)

lemma send_reply_panic:
  assumes "writes env" and "keyed_conn cc"
  shows "\<not> is_panic (fst (send_reply env n m cc))"
proof (cases m)
  case (Inr data)
  let ?pre = "if controlRequiresAuthentication (cc_controlMode cc) \<and> cc_serverStartHMACPending cc
    then cc_serverStartBytes cc else []"
  obtain r cc' where "sendControlMessage env data ?pre cc = (r, cc')" by fastforce
  then show ?thesis
    using sendControlMessage_panic [OF assms, of data ?pre] Inr by (cases r) (simp_all add: send_reply_def Let_def)
qed (simp add: send_reply_def)

lemma answer_panic:
  assumes "writes env" and "keyed_conn cc"
  shows "answer s (sendAcceptSession env c port sid cc) = Some (r, s', cc') \<Longrightarrow> \<not> is_panic r"
    and "answer s (sendStartAck env c cc) = Some (r, s', cc') \<Longrightarrow> \<not> is_panic r"
    and "refuse env c s cc = Some (r, s', cc') \<Longrightarrow> \<not> is_panic r"
  using send_reply_panic [OF assms]
  by (auto simp: answer_def refuse_def sendAcceptSession_def sendStartAck_def)

lemma accept_session_panic:
  assumes "writes env" and "keyed_conn cc" and "accept_session env request sid port s cc = Some (r, s', cc')"
  shows "\<not> is_panic r"
proof (cases "make_session s cc request sid port")
  case (Inl e)
  then have "\<forall>m. e \<noteq> Panic m" by (auto simp: make_session_def Let_def split: option.splits if_splits sum.splits)
  then show ?thesis using assms(3) Inl by (auto simp: accept_session_def)
next
  case (Inr x)
  let ?t = "store_session sid x s cc"
  have "keyed_conn (snd ?t)" using assms(2) by (simp add: store_session_def keyed_conn_def Let_def)
  moreover have "answer (fst ?t) (sendAcceptSession env AcceptOK port sid (snd ?t)) = Some (r, s', cc')"
    using assms(3) Inr by (simp add: accept_session_def split: prod.splits)
  ultimately show ?thesis using answer_panic(1) assms(1) by blast
qed

lemma handleRequestTWSession_panic:
  assumes w: "writes env" "keyed_conn cc" and h: "handleRequestTWSession env s cc cmd = Some (r, s', cc')"
  shows "\<not> is_panic r"
proof (cases "RequestTWSession_Unmarshal RequestTWSession_zero cmd (controlRequiresAuthentication (cc_controlMode cc))")
  case (Inr request)
  show ?thesis
  proof (cases "\<not> SessionID_IsZero (rts_SID request) \<or> request_refused env s cc request")
    case True
    then show ?thesis
      using h Inr answer_panic(3) [OF w] by (auto simp: handleRequestTWSession_def split: if_splits)
  next
    case False
    have c: "(case allocatePort (ev_free env) (sv_portManager s) of
        None \<Rightarrow> None
      | Some (Inl e, pm) \<Rightarrow> refuse env AcceptTempResLimited (s\<lparr>sv_portManager := pm\<rparr>) cc
      | Some (Inr port, pm) \<Rightarrow>
          (case ev_random env 0 16 of
             Inl e \<Rightarrow> Some (Inl (Wrap ''failed to generate SID'' [e]),
               s\<lparr>sv_portManager := pm, sv_portManager := releasePort pm port\<rparr>, cc)
           | Inr sid \<Rightarrow> accept_session env request sid port (s\<lparr>sv_portManager := pm\<rparr>) cc)) =
        Some (r, s', cc')"
      using False h unfolding handleRequestTWSession_def Let_def by (simp add: Inr)
    from c show ?thesis
    proof (rule port_cases)
      fix port pm
      assume "(case ev_random env 0 16 of
             Inl e \<Rightarrow> Some (Inl (Wrap ''failed to generate SID'' [e]),
               s\<lparr>sv_portManager := pm, sv_portManager := releasePort pm port\<rparr>, cc)
           | Inr sid \<Rightarrow> accept_session env request sid port (s\<lparr>sv_portManager := pm\<rparr>) cc) =
           Some (r, s', cc')"
      then show ?thesis using accept_session_panic [OF w] by (cases "ev_random env 0 16") auto
    qed (rule answer_panic(3) [OF w])
  qed
qed (use h in \<open>auto simp: handleRequestTWSession_def\<close>)

lemma handleRequestTWSessionIndividual_panic:
  assumes w: "writes env" "keyed_conn cc" and h: "handleRequestTWSessionIndividual env s cc cmd = Some (r, s', cc')"
  shows "\<not> is_panic r"
proof (cases "RequestTWSessionIndividual_Unmarshal RequestTWSession_zero cmd
    (controlRequiresAuthentication (cc_controlMode cc))")
  case (Inr request)
  show ?thesis
  proof (cases "request_refused env s cc request")
    case True
    then show ?thesis
      using h Inr answer_panic(3) [OF w] by (auto simp: handleRequestTWSessionIndividual_def split: if_splits)
  next
    case False
    have c: "(case allocatePort (ev_free env) (sv_portManager s) of
        None \<Rightarrow> None
      | Some (Inl e, pm) \<Rightarrow> refuse env AcceptTempResLimited (s\<lparr>sv_portManager := pm\<rparr>) cc
      | Some (Inr port, pm) \<Rightarrow>
          (if sv_sessions (s\<lparr>sv_portManager := pm\<rparr>) (rts_SID request) \<noteq> None
           then refuse env AcceptFailure (s\<lparr>sv_portManager := pm, sv_portManager := releasePort pm port\<rparr>) cc
           else accept_session env request (rts_SID request) port (s\<lparr>sv_portManager := pm\<rparr>) cc)) =
        Some (r, s', cc')"
      using False h unfolding handleRequestTWSessionIndividual_def Let_def by (simp add: Inr)
    from c show ?thesis
    proof (rule port_cases)
      fix port pm
      assume "(if sv_sessions (s\<lparr>sv_portManager := pm\<rparr>) (rts_SID request) \<noteq> None
           then refuse env AcceptFailure (s\<lparr>sv_portManager := pm, sv_portManager := releasePort pm port\<rparr>) cc
           else accept_session env request (rts_SID request) port (s\<lparr>sv_portManager := pm\<rparr>) cc) = Some (r, s', cc')"
      then show ?thesis
        using accept_session_panic [OF w] answer_panic(3) [OF w] by (auto split: if_splits)
    qed (rule answer_panic(3) [OF w])
  qed
qed (use h in \<open>auto simp: handleRequestTWSessionIndividual_def\<close>)

lemma command_round_panic:
  assumes w: "writes env" and k: "keyed_conn cc" and c: "command_round env s cc = Some (r, s', cc')"
  shows "\<not> is_panic r"
proof -
  obtain x cc1 where rd: "readCommand cc = (x, cc1)" by fastforce
  show ?thesis
  proof (cases x)
    case (Inl e)
    then show ?thesis using c rd readCommand_panic [OF k] by (auto simp: command_round_def)
  next
    case (Inr cmd)
    let ?cc = "cc1\<lparr>cc_lastActivity := ev_now env\<rparr>"
    have k': "keyed_conn ?cc"
      using keyed_conn_cong [of cc ?cc] readCommand_frame [of cc] rd k by (simp add: same_conn_def)
    have d: "dispatch env s ?cc cmd = Some (r, s', cc')" using c rd Inr by (simp add: command_round_def)
    have "\<not> is_panic r" if "handleStartSessions env s ?cc cmd = Some (r, s', cc')"
    proof -
      obtain y t where "start_all env (pointers (cc_sessions ?cc) (ev_order env)) s = (y, t)" by fastforce
      with that show ?thesis
        using answer_panic(2) [OF w k'] unfolding handleStartSessions_def
        by (cases y) (auto split: sum.splits)
    qed
    moreover have "\<not> is_panic r" if "handleStopSessions env s ?cc cmd = Some (r, s', cc')"
      using that by (auto simp: handleStopSessions_def Let_def split: sum.splits if_splits)
    moreover have "\<not> is_panic r" if "handleStopNSessions env s ?cc cmd = Some (r, s', cc')"
      using that by (auto simp: handleStopNSessions_def Let_def split: sum.splits if_splits prod.splits)
    ultimately show ?thesis
      using d handleRequestTWSession_panic [OF w k'] handleRequestTWSessionIndividual_panic [OF w k']
      unfolding dispatch_def by (auto split: if_splits)
  qed
qed

section \<open>Reflectors do not panic on small datagrams\<close>

lemma open_packet_panic: "\<not> is_panic (open_packet m keys b)"
  by (auto simp: open_packet_def Let_def split: sum.split)

lemma parse_packet_panic: "\<not> is_panic (parse_packet s b)"
proof (cases "secure_test_mode (se_mode s)")
  case True
  then show ?thesis
    using open_packet_panic [of "se_mode s" "the (se_sessionKeys s)" b]
    by (cases "se_sessionKeys s"; cases "open_packet (se_mode s) (the (se_sessionKeys s)) b")
      (simp_all add: parse_packet_def Let_def split: sum.split)
qed (simp add: parse_packet_def Let_def split: sum.split)

lemma parse_padding:
  assumes "parse_packet s b = Inr si" and "secure_test_mode (se_mode s)"
  shows "48 \<le> length b \<and> length (si_Padding si) = (if bit (se_mode s) 5 then length b - 48 else 0)"
proof -
  obtain q where q: "length q = length b"
    "(if se_mode s AND ModeReflectOctets \<noteq> 0 then
              (case SenderTestPacketAuthReflectOctets_Unmarshal
                      SenderTestPacketAuthReflectOctets_zero q of
                 Inl e \<Rightarrow> Inl (Wrap ''%w (test packet reflect octets): %v'' [ErrUnmarshalFailed])
               | Inr p \<Rightarrow> Inr \<lparr>si_SeqNo = sao_SeqNumber p, si_Timestamp = sao_Timestamp p,
                             si_ErrorEstimate = sao_ErrorEstimate p,
                             si_Padding = padding_data (sao_PaddingData p)\<rparr>)
            else
              (case SenderTestPacketAuth_Unmarshal SenderTestPacketAuth_zero q of
                 Inl e \<Rightarrow> Inl (Wrap ''%w (authenticated test packet): %v'' [ErrUnmarshalFailed])
               | Inr p \<Rightarrow> Inr \<lparr>si_SeqNo = ta_SeqNumber p, si_Timestamp = ta_Timestamp p,
                             si_ErrorEstimate = ta_ErrorEstimate p, si_Padding = []\<rparr>)) = Inr si"
  proof (cases "se_sessionKeys s")
    case None
    then show thesis using that [of b] assms by (simp add: parse_packet_def Let_def)
  next
    case (Some keys)
    then obtain q where "open_packet (se_mode s) keys b = Inr q"
      using assms by (auto simp: parse_packet_def Let_def split: sum.splits)
    then show thesis using that [of q] assms Some open_packet_length by (simp add: parse_packet_def Let_def)
  qed
  then show ?thesis
    by (auto simp: SenderTestPacketAuth_Unmarshal_def SenderTestPacketAuthReflectOctets_Unmarshal_def
        SenderTestPacketAuthReflectOctets_zero_def padding_data_def Let_def split: if_splits sum.splits)
qed

lemma parse_padding_plain:
  assumes "parse_packet s b = Inr si" and "\<not> secure_test_mode (se_mode s)"
  shows "length (si_Padding si) \<le> length b"
  using assms by (auto simp: parse_packet_def Let_def SenderTestPacketReflectOctets_Unmarshal_def
      SenderTestPacketReflectOctets_zero_def padding_data_def split: if_splits sum.splits)

lemma seal_reply_panic: "\<not> is_panic (seal_reply m keys raw)"
  by (cases keys) (simp_all add: seal_reply_def Let_def split: sum.split)

lemma expand_padding_length:
  "length (expand_padding sy base n pad) \<le> max (length pad) (n - base)"
  by (simp add: expand_padding_def)

lemma make_reply_panic:
  assumes "rand_ok rnd" and "length b \<le> 1984"
  shows "\<not> is_panic (make_reply rnd s b ttl rx tx)"
proof (cases "parse_packet s b")
  case (Inl e)
  then show ?thesis using parse_packet_panic [of s b] by (simp add: make_reply_def)
next
  case (Inr si)
  show ?thesis
  proof (cases "secure_test_mode (se_mode s)")
    case True
    note P = parse_padding [OF Inr True]
    have "length b \<le> 112 + length (si_Padding si) \<or> \<not> bit (se_mode s) 5" "length (si_Padding si) \<le> 1936"
      using P assms(2) by auto
    then obtain r where "reply_auth rnd s si (length b) ttl rx tx =
        seal_reply (se_mode s) (se_sessionKeys s) (reply_header s si ttl rx tx @ zeros 16 @ r)"
      using reply_auth_raw [OF assms(1), of "length b" si s ttl rx tx] assms(2) by auto
    then show ?thesis using Inr True seal_reply_panic by (simp add: make_reply_def)
  next
    case False
    have n: "length (expand_padding (se_mode s AND ModeSymmetricalSize \<noteq> 0) 41 (length b) (si_Padding si)) \<le> 2007"
      using expand_padding_length [of "se_mode s AND ModeSymmetricalSize \<noteq> 0" 41 "length b" "si_Padding si"]
        parse_padding_plain [OF Inr False] assms(2) by linarith
    show ?thesis
    proof (cases "se_mode s AND ModeReflectOctets \<noteq> 0")
      case True
      then show ?thesis
        using Inr False n by (simp add: make_reply_def reply_plain_def ReflectorTestPacketReflectOctets_Marshal_eq)
    next
      case octets: False
      then show ?thesis
        using Inr False assms(2)
        by (simp add: make_reply_def reply_plain_def plain_padding ReflectorTestPacket_Marshal_eq)
    qed
  qed
qed

lemma reflect_iteration_panic:
  assumes "rand_ok rnd" and "length d \<le> 1984"
  shows "fst (reflect_iteration rnd send d addr ttl rx tx now s) \<notin> range Crashed"
proof -
  let ?t = "case ttl of Some t \<Rightarrow> t | None \<Rightarrow> 255"
  have b: "take 2048 d = d" using assms(2) by simp
  have p: "\<not> is_panic (processAndReflect rnd send (note_sender addr s) d addr ?t rx tx)"
    using make_reply_panic [OF assms, of "note_sender addr s" ?t rx tx]
    by (auto simp: processAndReflect_def split: sum.split)
  then show ?thesis
    by (cases "processAndReflect rnd send (note_sender addr s) d addr ?t rx tx")
      (auto simp: reflect_iteration_def b Let_def split: goerr.split)
qed

section \<open>Reflectors end once\<close>

text \<open>
  No session has two reflectors, a running one has yet to close its session's channel, and so has the one
  of a session that was never started.
\<close>

definition reflectors_ok :: "Server \<Rightarrow> bool" where
  "reflectors_ok s \<longleftrightarrow> distinct (sv_running s) \<and>
     (\<forall>p \<in> set (sv_running s). se_reflectorDone (session_at s p) = Open_handle) \<and>
     (\<forall>p < length (sv_heap s). live (session_at s p) \<longrightarrow> \<not> se_isActive (session_at s p) \<longrightarrow>
        p \<notin> set (sv_running s) \<and> se_reflectorDone (session_at s p) = Open_handle)"

text \<open>Operations that start no reflector and end none.\<close>

definition keeps_reflectors :: "Server \<Rightarrow> Server \<Rightarrow> bool" where
  "keeps_reflectors s t \<longleftrightarrow> sv_running t = sv_running s \<and> length (sv_heap t) = length (sv_heap s) \<and>
     (\<forall>p. se_reflectorDone (session_at t p) = se_reflectorDone (session_at s p) \<and>
        (live (session_at t p) \<longrightarrow> \<not> se_isActive (session_at t p) \<longrightarrow>
           live (session_at s p) \<and> \<not> se_isActive (session_at s p)))"

lemma keeps_reflectors_ok: "keeps_reflectors s t \<Longrightarrow> reflectors_ok s \<Longrightarrow> reflectors_ok t"
  by (auto simp: keeps_reflectors_def reflectors_ok_def)

lemma keeps_refl [simp]: "keeps_reflectors s s"
  by (simp add: keeps_reflectors_def)

lemma keeps_trans: "keeps_reflectors s t \<Longrightarrow> keeps_reflectors t u \<Longrightarrow> keeps_reflectors s u"
  by (simp add: keeps_reflectors_def)

lemma keeps_put:
  assumes "se_reflectorDone x = se_reflectorDone (session_at s p)"
    and "live x \<Longrightarrow> \<not> se_isActive x \<Longrightarrow> live (session_at s p) \<and> \<not> se_isActive (session_at s p)"
  shows "keeps_reflectors s (put_session p x s)"
  using assms by (cases "p < length (sv_heap s)") (auto simp: keeps_reflectors_def)

lemma keeps_stop: "keeps_reflectors s (stopSession p s)"
proof (cases "se_isActive (session_at s p)")
  case True
  have "keeps_reflectors s (put_session p (mark_stopped (session_at s p)) s)"
    by (rule keeps_put) (simp_all add: mark_stopped_def live_def)
  then show ?thesis using True by (simp add: stopSession_def Let_def keeps_reflectors_def)
qed (simp add: stopSession_inactive)

lemma keeps_fold_stop: "keeps_reflectors s (fold stopSession ps s)"
  by (induction ps arbitrary: s) (auto intro: keeps_trans keeps_stop)

lemma keeps_timers: "keeps_reflectors s (s\<lparr>sv_timers := t\<rparr>)"
  by (simp add: keeps_reflectors_def)

lemma keeps_schedule: "keeps_reflectors s (schedule_stop now p s)"
  by (simp add: schedule_stop_def keeps_timers)

lemma keeps_fold_schedule: "keeps_reflectors s (fold (schedule_stop now) ps s)"
  by (induction ps arbitrary: s) (auto intro: keeps_trans keeps_schedule)

lemma keeps_stop_listed: "keeps_reflectors s (fst (stop_listed now sids (s, cc)))"
proof (induction sids arbitrary: s cc)
  case (Cons sid sids)
  then show ?case by (cases "cc_sessions cc sid") (auto intro: keeps_trans [OF keeps_schedule])
qed simp

lemma keeps_timer: "keeps_reflectors s (fire_timer i s)"
  unfolding fire_timer_def Let_def by (rule keeps_trans [OF keeps_timers keeps_stop])

lemma keeps_round:
  assumes "reflectPackets_round rnd send now r p s = (y, t)"
  shows "keeps_reflectors s t"
proof (cases r)
  case (Read_Packet a)
  obtain out x where it: "reflect_iteration rnd send (ar_datagram a) (ar_addr a) (ar_ttl a) (ar_rx a)
      (ar_tx a) (ar_now a) (session_at s p) = (out, x)" by fastforce
  have "se_reflectorDone x = se_reflectorDone (session_at s p)"
    using reflect_iteration_cases [OF it]
    by (auto simp: note_sender_def record_success_def record_hmac_failure_def Let_def split: option.split)
  moreover have "same_session x (session_at s p)" using it by (rule reflect_iteration_frame)
  ultimately have "keeps_reflectors s (put_session p x s)"
    by (intro keeps_put) (simp_all add: same_session_def live_def)
  then show ?thesis
    using assms Read_Packet it by (cases out)
      (auto simp: reflectPackets_round_def Let_def split: if_splits intro: keeps_trans keeps_stop)
qed (use assms keeps_stop in \<open>auto simp: reflectPackets_round_def Let_def split: if_splits\<close>)

text \<open>The others: a start of a session that was not stopped, an exit, and a new session.\<close>

lemma startSession_reflectors:
  assumes "reflectors_ok s" and "live (session_at s p)" and "p < length (sv_heap s)"
  shows "reflectors_ok (snd (startSession listen now p s))"
  using assms by (auto simp: startSession_def Let_def reflectors_ok_def live_def)

lemma start_all_reflectors:
  "reflectors_ok s \<Longrightarrow> \<forall>p \<in> set ps. live (session_at s p) \<and> p < length (sv_heap s) \<Longrightarrow>
    reflectors_ok (snd (start_all env ps s))"
proof (induction ps arbitrary: s)
  case (Cons p ps)
  obtain r t where t: "startSession (ev_listen env) (ev_now env) p s = (r, t)" by fastforce
  then have e: "t = snd (startSession (ev_listen env) (ev_now env) p s)" by simp
  have "reflectors_ok t" unfolding e using Cons.prems by (intro startSession_reflectors) simp_all
  moreover have "\<forall>q \<in> set ps. live (session_at t q) \<and> q < length (sv_heap t)"
    unfolding e using Cons.prems(2) by (simp add: startSession_live)
  ultimately show ?case using t Cons.IH [of t] by (cases r) auto
qed simp

lemma exit_reflectors:
  assumes "reflectors_ok s" and "p \<in> set (sv_running s)"
  shows "fst (reflector_exit p s) = Inr () \<and> reflectors_ok (snd (reflector_exit p s))"
proof -
  have d: "se_reflectorDone (session_at s p) = Open_handle" "distinct (sv_running s)"
    using assms by (auto simp: reflectors_ok_def)
  let ?t = "snd (reflector_exit p s)"
  have r: "sv_running ?t = remove1 p (sv_running s)" "length (sv_heap ?t) = length (sv_heap s)"
    using d by (simp_all add: reflector_exit_def Let_def)
  have at: "q \<noteq> p \<Longrightarrow> session_at ?t q = session_at s q" for q
    using d by (cases "p < length (sv_heap s)") (simp_all add: reflector_exit_def Let_def)
  have "p < length (sv_heap s) \<Longrightarrow> live (session_at ?t p) = live (session_at s p) \<and>
      se_isActive (session_at ?t p) = se_isActive (session_at s p)"
    using d by (simp add: reflector_exit_def Let_def live_def)
  then have "reflectors_ok ?t"
    using assms d at unfolding reflectors_ok_def r by (auto, metis+)
  then show ?thesis using d by (simp add: reflector_exit_def Let_def)
qed

lemma store_reflectors:
  assumes ok: "reflectors_ok s" and x: "live x" "se_reflectorDone x = Open_handle"
    and r: "refs_ok s"
  shows "reflectors_ok (fst (store_session sid x s cc))"
proof -
  let ?t = "fst (store_session sid x s cc)" and ?n = "length (sv_heap s)"
  have at: "session_at ?t q = (if q = ?n then x else session_at s q)" if "q \<le> ?n" for q
    using that store_session_at(1) [of q s sid x cc] by auto
  have f: "sv_running ?t = sv_running s" "length (sv_heap ?t) = Suc ?n"
    by (simp_all add: store_session_def Let_def)
  have run: "q < ?n" if "q \<in> set (sv_running s)" for q using r that by (auto simp: refs_ok_def)
  then show ?thesis
    using ok x at unfolding reflectors_ok_def f less_Suc_eq_le
    by (auto simp: le_less dest: run)
qed

section \<open>Runs without a crash\<close>

definition quiet_system :: "system \<Rightarrow> bool" where
  "quiet_system sy \<longleftrightarrow> ports_inv sy \<and> keyed_system sy \<and> reflectors_ok (sy_server sy)"

lemma command_reflectors:
  assumes e: "command_effect env s cc s' cc'" and ok: "reflectors_ok s" and r: "refs_ok s" "conn_refs s cc"
    and live: "is_start cc \<longrightarrow> (\<forall>p \<in> ran (cc_sessions cc). live (session_at s p))"
  shows "reflectors_ok s'"
  using e
proof cases
  case (adds sid)
  then obtain pm port request x where x: "make_session (s\<lparr>sv_portManager := pm\<rparr>) cc request sid port = Inr x"
    and s': "s' = fst (store_session sid x (s\<lparr>sv_portManager := pm\<rparr>) cc)"
    by (auto simp: adds_session_def)
  have "live x" "se_reflectorDone x = Open_handle"
    using x by (auto simp: make_session_def Let_def live_def split: option.splits if_splits sum.splits)
  moreover have "reflectors_ok (s\<lparr>sv_portManager := pm\<rparr>)"
    using ok keeps_reflectors_ok [of s "s\<lparr>sv_portManager := pm\<rparr>"] by (simp add: keeps_reflectors_def)
  ultimately show ?thesis unfolding s' using r(1) by (intro store_reflectors) simp_all
next
  case starts
  have "live (session_at s p)" if "cc_sessions cc sid = Some p" for sid p
    using live starts(2) that by (auto intro: ranI)
  then have "\<forall>p \<in> set (pointers (cc_sessions cc) (ev_order env)). live (session_at s p) \<and> p < length (sv_heap s)"
    using pointers_refs [OF r(2)] by (auto simp: set_pointers)
  then show ?thesis unfolding starts(1) using ok start_all_reflectors by blast
next
  case stops
  then show ?thesis using ok keeps_reflectors_ok [OF keeps_fold_schedule] by simp
next
  case (stops_n cc0 sids)
  have "s' = fst (stop_listed (ev_now env) sids (s, cc0))" using stops_n(2) by (metis fst_conv)
  then show ?thesis using ok keeps_reflectors_ok [OF keeps_stop_listed] by simp
qed (use ok in simp)

lemma quiet_parts:
  "quiet_system sy \<Longrightarrow> ports_inv sy" "quiet_system sy \<Longrightarrow> keyed_system sy"
  "quiet_system sy \<Longrightarrow> reflectors_ok (sy_server sy)"
  by (simp_all add: quiet_system_def)

interpretation quiet: system_invariant quiet_system tame
proof unfold_locales
  show "quiet_system sy" if "fresh_system sy" for sy
    using that ports_safe.fresh keyed.fresh fresh_server [OF that] by (simp add: quiet_system_def reflectors_ok_def)
  show "quiet_system (sy\<lparr>sy_conns := (sy_conns sy)(c \<mapsto> cc)\<rparr>)"
    if "quiet_system sy" "sy_conns sy c = None"
      "open_connection env env' (sy_server sy) (new_connection now l r b) = (Inr (), cc)"
    for sy c env env' now l r b cc
    using ports_safe.connects [OF quiet_parts(1) [OF that(1)] that(2,3)]
      keyed.connects [OF quiet_parts(2) [OF that(1)] that(2,3)] that(1) by (simp add: quiet_system_def)
  show "quiet_system (sy\<lparr>sy_conns := (sy_conns sy)(c \<mapsto> cc\<lparr>cc_in := cc_in cc @ b\<rparr>)\<rparr>)"
    if "quiet_system sy" "sy_conns sy c = Some cc" for sy c cc b
    using ports_safe.inputs [OF quiet_parts(1) [OF that(1)] that(2)]
      keyed.inputs [OF quiet_parts(2) [OF that(1)] that(2)] that(1) by (simp add: quiet_system_def)
  show "quiet_system (sy\<lparr>sy_server := s, sy_conns := (sy_conns sy)(c \<mapsto> cc')\<rparr>)"
    if q: "quiet_system sy" "tame (Command c env order) sy" "sy_conns sy c = Some cc"
      "command_round env (sy_server sy) cc = Some (x, s, cc')" for sy c env order cc x s cc'
  proof -
    have calm: "calm (Command c env order) sy" using q(2) by (simp add: tame_def)
    have refs: "refs_ok (sy_server sy)" "conn_refs (sy_server sy) cc"
      using quiet_parts(1) [OF q(1)] system_refsD(1,2) q(3) by (auto simp: ports_inv_def)
    have "reflectors_ok s"
      using command_reflectors [OF command_round_effect [OF q(4)] quiet_parts(3) [OF q(1)] refs] calm q(3)
      by (simp add: calm_def)
    then show ?thesis
      using ports_safe.commands [OF quiet_parts(1) [OF q(1)] calm q(3,4)]
        keyed.commands [OF quiet_parts(2) [OF q(1)] _ q(3,4)] by (simp add: quiet_system_def any_event_def)
  qed
  show "quiet_system (drop_connection c order cc s sy)"
    if q: "quiet_system (sy\<lparr>sy_server := s, sy_conns := (sy_conns sy)(c \<mapsto> cc)\<rparr>)" for sy s c cc order
  proof -
    have "reflectors_ok (connection_cleanup order cc s)"
      using quiet_parts(3) [OF q] keeps_reflectors_ok [OF keeps_fold_stop] by (simp add: connection_cleanup_def)
    then show ?thesis
      using ports_safe.drops [OF quiet_parts(1) [OF q]] keyed.drops [OF quiet_parts(2) [OF q]]
      by (simp add: quiet_system_def drop_connection_def)
  qed
  show "quiet_system (sy\<lparr>sy_crashed := True\<rparr>)" if "quiet_system sy" for sy
    using ports_safe.crashes [OF quiet_parts(1) [OF that]] keyed.crashes [OF quiet_parts(2) [OF that]] that
    by (simp add: quiet_system_def)
  show "quiet_system (sy\<lparr>sy_server := s\<rparr>)"
    if q: "quiet_system sy" "p \<in> set (sv_running (sy_server sy))"
      "reflectPackets_round rnd send now rr p (sy_server sy) = (y, s)" for sy p rnd send now rr y s
    using ports_safe.rounds [OF quiet_parts(1) [OF q(1)] q(2,3)] keyed.rounds [OF quiet_parts(2) [OF q(1)] q(2,3)]
      keeps_reflectors_ok [OF keeps_round [OF q(3)] quiet_parts(3) [OF q(1)]] by (simp add: quiet_system_def)
  show "quiet_system (sy\<lparr>sy_server := s'\<rparr>)"
    if q: "quiet_system (sy\<lparr>sy_server := s\<rparr>)" "p \<in> set (sv_running s)" "reflector_exit p s = (x, s')"
    for sy s p x s'
    using ports_safe.exits [OF quiet_parts(1) [OF q(1)] q(2,3)] keyed.exits [OF quiet_parts(2) [OF q(1)] q(2,3)]
      exit_reflectors [of s p] quiet_parts(3) [OF q(1)] q(2,3) by (simp add: quiet_system_def)
  show "quiet_system (sy\<lparr>sy_server := fire_timer i (sy_server sy)\<rparr>)"
    if q: "quiet_system sy" "i < length (sv_timers (sy_server sy))" for sy i
    using ports_safe.timers [OF quiet_parts(1) [OF q(1)] q(2)] keyed.timers [OF quiet_parts(2) [OF q(1)] q(2)]
      keeps_reflectors_ok [OF keeps_timer quiet_parts(3) [OF q(1)]] by (simp add: quiet_system_def)
  show "quiet_system (sy\<lparr>sy_server := Server_Stop order (sy_server sy)\<rparr>)" if q: "quiet_system sy" for sy order
    using ports_safe.shutdowns [OF quiet_parts(1) [OF q]] keyed.shutdowns [OF quiet_parts(2) [OF q]]
      keeps_reflectors_ok [OF keeps_fold_stop quiet_parts(3) [OF q]]
    by (simp add: quiet_system_def Server_Stop_def)
qed

lemma tame_step_safe:
  assumes "sys_step e sy sy'" and "quiet_system sy" and "tame e sy" and "\<not> sy_crashed sy"
  shows "\<not> sy_crashed sy'"
  using assms
proof (induction rule: sys_step.induct)
  case (command_panic sy c cc env m s cc' order)
  then have "keyed_conn cc" "writes env" by (simp_all add: quiet_system_def keyed_system_def tame_def)
  then show ?case using command_round_panic command_panic(4) by fastforce
next
  case (return_panic sy p rnd send now r s e s')
  have "reflectors_ok s"
    using keeps_reflectors_ok [OF keeps_round [OF return_panic(3)]] return_panic by (simp add: quiet_system_def)
  moreover have "p \<in> set (sv_running s)" using return_panic(2) round_running [OF return_panic(3)] by simp
  ultimately show ?case using exit_reflectors [of s p] return_panic(4) by simp
next
  case (panic sy p rnd send now r m s)
  show ?case
  proof (cases r)
    case (Read_Packet a)
    then have "fst (reflect_iteration rnd send (ar_datagram a) (ar_addr a) (ar_ttl a) (ar_rx a) (ar_tx a) (ar_now a)
        (session_at (sy_server sy) p)) \<notin> range Crashed"
      using panic by (intro reflect_iteration_panic) (simp_all add: tame_def)
    then show ?thesis
      using panic(3) Read_Packet
      by (auto simp: reflectPackets_round_def Let_def split: if_splits prod.splits outcome.splits)
  qed (use panic(3) in \<open>auto simp: reflectPackets_round_def Let_def split: if_splits\<close>)
qed (simp_all add: drop_connection_def)



section \<open>Keys\<close>


text \<open>The witness: a client connects with encrypted control.\<close>

definition demo_secure_start :: system where
  "demo_secure_start = \<lparr>sy_server = demo_server 4 20000 30000, sy_conns = Map.empty, sy_crashed = False\<rparr>"

lemma demo_secure_fresh: "fresh_system demo_secure_start"
proof -
  have "NewServer (\<lambda>_. None) (\<lambda>_. []) ((demo_config 4)\<lparr>cf_SERVWAIT := 0, cf_REFWAIT := 0\<rparr>) (20000, 30000) [] [] =
      Inr (demo_server 4 20000 30000)"
    by (simp add: NewServer_def demo_config_def demo_server_def newPortManager_def Let_def)
  then show ?thesis unfolding fresh_system_def demo_secure_start_def system.simps by blast
qed

lemma secure_open:
  assumes "SetupResponse_Marshal (demo_response 4) = Inr buf"
  shows "\<exists>cc. open_connection demo_env demo_env (demo_server 4 20000 30000)
      (new_connection 0 [10, 0, 0, 2] [10, 0, 0, 1] buf) = (Inr (), cc) \<and>
    cc_controlMode cc = 4 \<and> cc_testMode cc = 4"
proof -
  let ?s = "demo_server 4 20000 30000" and ?new = "new_connection 0 [10, 0, 0, 2] [10, 0, 0, 1] buf"
  obtain a b data where r: "ev_random demo_env 0 16 = Inr a" "length a = 16" "ev_random demo_env 1 16 = Inr b"
      "length b = 16" "ServerGreeting_Marshal (ServerGreeting_of ?s a b) = Inr data"
    and g: "\<And>cc. sendServerGreeting demo_env ?s cc =
      (Inr (), cc\<lparr>cc_greeting := Some (ServerGreeting_of ?s a b), cc_out := cc_out cc @ [data]\<rparr>)"
    using sendServerGreeting_ok [OF demo_env_ok] by metis
  let ?g = "ServerGreeting_of ?s a b"
  let ?cc = "?new\<lparr>cc_greeting := Some ?g, cc_out := cc_out ?new @ [data]\<rparr>"
  have "sg_Challenge ?g = sg_Challenge demo_greeting"
    using r(1) by (simp add: ServerGreeting_of_def demo_greeting_def ServerGreeting_zero_def demo_env_def)
  then have gr: "setup_granted ?s ?g (demo_response 4)"
    using demo_granted [of 4 20000 30000 4] by (simp add: setup_granted_def)
  have m: "sr_Mode (demo_response 4) AND cf_SupportedModes (sv_config ?s) \<noteq> 0"
    by (simp add: demo_response_def demo_server_def demo_config_def)
  have c: "cc_greeting ?cc = Some ?g" "cc_in ?cc = buf @ []" by (simp_all add: new_connection_def)
  have rm: "ResolveMixedModes (sr_Mode (demo_response 4)) = Inr (4, 4)" by (simp add: demo_response_def demo_modes)
  have k: "length (secret_keys demo_env ?s ?g (demo_response 4)) = 48" by (simp add: demo_keys)
  from setup_secure_ok [OF demo_env_ok c(1) ServerGreeting_of_ok [OF r(2,4)] demo_response_ok assms c(2) rm
      demo_modes(5) k m gr]
  show ?thesis unfolding open_connection_def g by (auto simp: secured_def)
qed


end
