(* ===== verification/Client_Session.thy ===== *)
theory Client_Session
  imports Reflector "HOL-Library.Multiset"
begin

text \<open>
  The session sender of \<open>client/test_session.go\<close>: making, starting and stopping a test session, the
  test packets it sends, what it takes from the replies, and the results. Clock readings, the
  random source, the state of the clock and the outcomes of the socket calls are
  arguments; durations are \<open>int64\<close> nanoseconds with their wrap-around. The locks make every operation
  here one step; a stop also waits for the receiver, which is not modelled.
\<close>

section \<open>State\<close>

text \<open>
  A reading of \<open>time.Now\<close>: wall clock and monotonic clock. \<open>Sub\<close> of two readings takes the monotonic
  one; it takes the wall clock when a time was read from a packet. Both saturate.
\<close>

record clock =
  wall :: go_time
  mono :: int

definition saturate64 :: "int \<Rightarrow> int" where
  "saturate64 d = max (- (2 ^ 63)) (min (2 ^ 63 - 1) d)"

definition clock_Sub :: "clock \<Rightarrow> clock \<Rightarrow> int" where
  "clock_Sub t u = saturate64 (mono t - mono u)"

definition wall_Sub :: "go_time \<Rightarrow> go_time \<Rightarrow> int" where
  "wall_Sub t u = saturate64
     ((unix_secs t - unix_secs u) * time_Second + (int (nanosecond t) - int (nanosecond u)))"

text \<open>\<open>None\<close> stands for the zero \<open>time.Time\<close>.\<close>

record PacketResult =
  pr_SenderSeqNo :: u32
  pr_ReflectorSeqNo :: u32
  pr_SentTime :: clock
  pr_ReceivedTime :: "clock option"
  pr_ReflectorRxTime :: "go_time option"
  pr_ReflectorTxTime :: "go_time option"
  pr_SenderTimestamp :: TWAMPTimestamp
  pr_SenderErrorEstimate :: ErrorEstimate
  pr_ReflectorErrorEstimate :: ErrorEstimate
  pr_SenderTTL :: u8
  pr_RTT :: int
  pr_ReflectorLatency :: int

record TestSessionConfig =
  tc_SenderPort :: u16
  tc_ReceiverPort :: u16
  tc_ReceiverAddress :: string
  tc_PaddingLength :: u32
  tc_Timeout :: int
  tc_DSCP :: u8

record TestSessionResult =
  tr_PacketsSent :: u32
  tr_PacketsReceived :: u32
  tr_PacketsLost :: u32
  tr_MinRTT :: int
  tr_MaxRTT :: int
  tr_AvgRTT :: int
  tr_RTTVariation :: int
  tr_MinReflectorLatency :: int
  tr_MaxReflectorLatency :: int
  tr_AvgReflectorLatency :: int
  tr_AvgForwardDelay :: int
  tr_AvgReverseDelay :: int
  tr_DelayAsymmetry :: "(int \<times> int) option"

text \<open>
  The \<open>TestSession\<close> of the client. \<open>conn\<close> and \<open>stopChan\<close> may be nil. \<open>DelayAsymmetry\<close> above is the
  quotient of two integers in floating point, kept as the two, and 0 where there is none.
\<close>

record SenderSession =
  sn_config :: TestSessionConfig
  sn_sid :: session_id
  sn_conn :: handle
  sn_seqNo :: u32
  sn_sessionKeys :: "TWAMPKeys option"
  sn_mode :: mode
  sn_results :: "u32 \<rightharpoonup> PacketResult"
  sn_totalSent :: u32
  sn_totalReceived :: u32
  sn_minRTT :: int
  sn_maxRTT :: int
  sn_sumRTT :: int
  sn_stopChan :: handle
  sn_isAuthenticated :: bool
  sn_isEncrypted :: bool
  sn_isStopping :: bool

definition NewTestSession ::
    "TestSessionConfig \<Rightarrow> session_id \<Rightarrow> mode \<Rightarrow> TWAMPKeys option \<Rightarrow> SenderSession res" where
  "NewTestSession config sid m controlKeys =
     (let baseSecurity = m AND securityMask;
          isAuthenticated = (baseSecurity AND (ModeAuthenticated OR ModeEncrypted) \<noteq> 0);
          ts = \<lparr>sn_config = config, sn_sid = sid, sn_conn = Nil_handle, sn_seqNo = 0,
            sn_sessionKeys = None, sn_mode = m, sn_results = Map.empty, sn_totalSent = 0,
            sn_totalReceived = 0, sn_minRTT = 2 ^ 63 - 1, sn_maxRTT = 0, sn_sumRTT = 0,
            sn_stopChan = Open_handle, sn_isAuthenticated = isAuthenticated,
            sn_isEncrypted = (baseSecurity AND ModeEncrypted \<noteq> 0), sn_isStopping = False\<rparr>
      in case controlKeys of
           None \<Rightarrow> Inr ts
         | Some keys \<Rightarrow>
            if \<not> isAuthenticated then Inr ts
            else (case DeriveTestSessionKeys (AESKey keys) (HMACKey keys) sid of
               Inl e \<Rightarrow> Inl e
             | Inr (testAESKey, testHMACKey) \<Rightarrow>
                 Inr (ts\<lparr>sn_sessionKeys := Some \<lparr>AESKey = [], HMACKey = [], TestAESKey = testAESKey,
                   TestHMACKey = testHMACKey, ClientIV = ClientIV keys, ServerIV = ServerIV keys\<rparr>\<rparr>)))"

section \<open>Start and stop\<close>

text \<open>\<open>listen\<close> tells whether the port can be opened; the DSCP option has no effect on the model.\<close>

definition Session_Start :: "(u16 \<Rightarrow> bool) \<Rightarrow> SenderSession \<Rightarrow> unit res \<times> SenderSession" where
  "Session_Start listen ts =
     (let ts = ts\<lparr>sn_isStopping := False\<rparr>;
          ts = (if sn_stopChan ts = Nil_handle then ts\<lparr>sn_stopChan := Open_handle\<rparr> else ts)
      in if \<not> listen (tc_SenderPort (sn_config ts)) then (Inl (IOError ''listen''), ts)
         else (Inr (), ts\<lparr>sn_conn := Open_handle\<rparr>))"

text \<open>\<open>closed\<close> is what closing the socket returns.\<close>

definition Session_Stop :: "unit res \<Rightarrow> SenderSession \<Rightarrow> unit res \<times> SenderSession" where
  "Session_Stop closed ts =
     (if sn_isStopping ts then (Inr (), ts)
      else
        (let conn = sn_conn ts;
             ts = ts\<lparr>sn_isStopping := True, sn_stopChan := Nil_handle, sn_conn := Nil_handle\<rparr>
         in (if conn \<noteq> Nil_handle then closed else Inr (), ts)))"

definition Session_IsActive :: "SenderSession \<Rightarrow> bool" where
  "Session_IsActive ts \<longleftrightarrow> sn_conn ts \<noteq> Nil_handle \<and> \<not> sn_isStopping ts"

definition GetSID :: "SenderSession \<Rightarrow> session_id" where
  "GetSID ts = sn_sid ts"

section \<open>Sending\<close>

definition senderErrorEstimate :: "bool \<Rightarrow> ErrorEstimate" where
  "senderErrorEstimate syncBit = \<lparr>Multiplier = 1, Scale = 8, SyncBit = syncBit\<rparr>"

definition marshal_test_packet ::
    "random_source \<Rightarrow> SenderSession \<Rightarrow> u32 \<Rightarrow> TWAMPTimestamp \<Rightarrow> ErrorEstimate \<Rightarrow> bytes res" where
  "marshal_test_packet rnd ts seqNo timestamp errorEstimate =
     (let reflectOctets = (sn_mode ts AND ModeReflectOctets \<noteq> 0);
          paddingSize = uint (tc_PaddingLength (sn_config ts))
      in if sn_isAuthenticated ts then
           (if reflectOctets then
              SenderTestPacketAuthReflectOctets_Marshal rnd
                \<lparr>sao_SeqNumber = seqNo, sao_MBZ = zeros 12, sao_Timestamp = timestamp,
                 sao_ErrorEstimate = errorEstimate, sao_MBZ2 = zeros 6, sao_HMAC = zeros 16,
                 sao_PaddingSize = paddingSize, sao_PaddingData = None\<rparr>
            else
              SenderTestPacketAuth_Marshal rnd
                \<lparr>ta_SeqNumber = seqNo, ta_MBZ = zeros 12, ta_Timestamp = timestamp,
                 ta_ErrorEstimate = errorEstimate, ta_MBZ2 = zeros 6, ta_HMAC = zeros 16,
                 ta_PaddingSize = paddingSize\<rparr>)
         else if reflectOctets then
           SenderTestPacketReflectOctets_Marshal rnd
             \<lparr>so_SeqNumber = seqNo, so_Timestamp = timestamp, so_ErrorEstimate = errorEstimate,
              so_PaddingSize = paddingSize, so_PaddingData = None\<rparr>
         else
           SenderTestPacket_Marshal
             \<lparr>tp_SeqNumber = seqNo, tp_Timestamp = timestamp, tp_ErrorEstimate = errorEstimate,
              tp_PaddingSize = paddingSize\<rparr>)"

text \<open>HMAC and encryption, for an authenticated or encrypted session that has its keys.\<close>

definition seal_test_packet :: "SenderSession \<Rightarrow> bytes \<Rightarrow> bytes res" where
  "seal_test_packet ts packet =
     (case (if sn_isAuthenticated ts then sn_sessionKeys ts else None) of
        None \<Rightarrow> Inr packet
      | Some keys \<Rightarrow>
         (let hmacCoverage = HMACCoverage (sn_isEncrypted ts) False in
          if length packet < MinSenderAuthPacketSize
          then Inl (Errorf ''packet too small for HMAC: need %d bytes, got %d'')
          else
            (case CalculateHMAC (TestHMACKey keys) (seg 0 hmacCoverage packet) of
               Inl e \<Rightarrow> Inl e
             | Inr hmac \<Rightarrow>
                 EncryptTWAMPTestPacket (TestAESKey keys) (ClientIV keys)
                   (copy_at packet SenderHMACOffset (SenderHMACOffset + 16) hmac) (\<not> sn_isEncrypted ts))))"

text \<open>
  One packet: the sequence number is used up and the packet counted before anything can fail.
  \<open>resolve\<close> and \<open>write\<close> are \<open>ResolveUDPAddr\<close> and the socket. The result is the datagram
  written.
\<close>

definition SendTestPacket ::
    "clock \<Rightarrow> bool \<Rightarrow> random_source \<Rightarrow> (string \<Rightarrow> u16 \<Rightarrow> net_addr res) \<Rightarrow>
     (bytes \<Rightarrow> net_addr \<Rightarrow> unit res) \<Rightarrow> SenderSession \<Rightarrow> bytes res \<times> SenderSession" where
  "SendTestPacket now syncBit rnd resolve write ts =
     (let seqNo = sn_seqNo ts;
          ts = ts\<lparr>sn_seqNo := sn_seqNo ts + 1, sn_totalSent := sn_totalSent ts + 1\<rparr>;
          timestamp = FromTime (wall now)
      in case marshal_test_packet rnd ts seqNo timestamp (senderErrorEstimate syncBit) of
           Inl e \<Rightarrow> (Inl e, ts)
         | Inr raw \<Rightarrow>
        (case seal_test_packet ts raw of
           Inl e \<Rightarrow> (Inl e, ts)
         | Inr packet \<Rightarrow>
        (let ts = ts\<lparr>sn_results := (sn_results ts)(seqNo \<mapsto>
               \<lparr>pr_SenderSeqNo = seqNo, pr_ReflectorSeqNo = 0, pr_SentTime = now,
                pr_ReceivedTime = None, pr_ReflectorRxTime = None, pr_ReflectorTxTime = None,
                pr_SenderTimestamp = timestamp, pr_SenderErrorEstimate = ErrorEstimate_zero,
                pr_ReflectorErrorEstimate = ErrorEstimate_zero, pr_SenderTTL = 0, pr_RTT = 0,
                pr_ReflectorLatency = 0\<rparr>)\<rparr>
         in case resolve (tc_ReceiverAddress (sn_config ts)) (tc_ReceiverPort (sn_config ts)) of
              Inl e \<Rightarrow> (Inl e, ts)
            | Inr destAddr \<Rightarrow>
               if sn_conn ts = Nil_handle then (Inl (IOError ''invalid argument''), ts)
               else
                 (case write packet destAddr of
                    Inl e \<Rightarrow> (Inl e, ts)
                  | Inr _ \<Rightarrow> (Inr packet, ts)))))"

section \<open>Receiving\<close>

text \<open>Decryption and the check of the HMAC come before any field is read.\<close>

definition open_reply :: "SenderSession \<Rightarrow> bytes \<Rightarrow> bytes res" where
  "open_reply ts packet =
     (case sn_sessionKeys ts of
        None \<Rightarrow> Inr packet
      | Some keys \<Rightarrow>
         (case DecryptTWAMPReflectorTestPacket (TestAESKey keys) (ServerIV keys) packet
                 (\<not> sn_isEncrypted ts) of
            Inl e \<Rightarrow> Inl e
          | Inr packet \<Rightarrow>
             if length packet < MinReflectorAuthPacketSize
             then Inl (Errorf ''packet too small for authenticated reflector packet: got %d bytes, need at least %d'')
             else
               (case VerifyHMAC (TestHMACKey keys) (seg 0 (HMACCoverage (sn_isEncrypted ts) True) packet)
                       (seg ReflectorHMACOffset (ReflectorHMACOffset + 16) packet) of
                  Inl e \<Rightarrow> Inl e
                | Inr valid \<Rightarrow> if \<not> valid then Inl ErrHMACVerificationFailed else Inr packet)))"

text \<open>What a reply says.\<close>

record reply_info =
  ri_SenderSeqNo :: u32
  ri_ReflectorSeqNo :: u32
  ri_SenderTimestamp :: TWAMPTimestamp
  ri_RxTimestamp :: TWAMPTimestamp
  ri_TxTimestamp :: TWAMPTimestamp
  ri_SenderErrEst :: ErrorEstimate
  ri_ReflectorErrEst :: ErrorEstimate
  ri_SenderTTL :: u8

definition parse_reply :: "SenderSession \<Rightarrow> bytes \<Rightarrow> reply_info res" where
  "parse_reply ts packet =
     (if sn_isAuthenticated ts then
        (case open_reply ts packet of
           Inl e \<Rightarrow> Inl e
         | Inr packet \<Rightarrow>
            (case ReflectorTestPacketAuth_Unmarshal ReflectorTestPacketAuth_zero packet of
               Inl e \<Rightarrow> Inl e
             | Inr p \<Rightarrow> Inr \<lparr>ri_SenderSeqNo = ra_SenderSeqNumber p, ri_ReflectorSeqNo = ra_SeqNumber p,
                 ri_SenderTimestamp = ra_SenderTimestamp p, ri_RxTimestamp = ra_ReceiveTimestamp p,
                 ri_TxTimestamp = ra_Timestamp p, ri_SenderErrEst = ra_SenderErrorEstimate p,
                 ri_ReflectorErrEst = ra_ErrorEstimate p, ri_SenderTTL = ra_SenderTTL p\<rparr>))
      else
        (case ReflectorTestPacket_Unmarshal ReflectorTestPacket_zero packet of
           Inl e \<Rightarrow> Inl e
         | Inr p \<Rightarrow> Inr \<lparr>ri_SenderSeqNo = rp_SenderSeqNumber p, ri_ReflectorSeqNo = rp_SeqNumber p,
             ri_SenderTimestamp = rp_SenderTimestamp p, ri_RxTimestamp = rp_ReceiveTimestamp p,
             ri_TxTimestamp = rp_Timestamp p, ri_SenderErrEst = rp_SenderErrorEstimate p,
             ri_ReflectorErrEst = rp_ErrorEstimate p, ri_SenderTTL = rp_SenderTTL p\<rparr>))"

text \<open>The statistics that every reply updates.\<close>

definition record_rtt :: "int \<Rightarrow> SenderSession \<Rightarrow> SenderSession" where
  "record_rtt rtt ts =
     ts\<lparr>sn_totalReceived := sn_totalReceived ts + 1,
        sn_sumRTT := wrap64 (sn_sumRTT ts + rtt),
        sn_minRTT := (if rtt < sn_minRTT ts then rtt else sn_minRTT ts),
        sn_maxRTT := (if sn_maxRTT ts < rtt then rtt else sn_maxRTT ts)\<rparr>"

text \<open>\<open>refRx\<close> and \<open>refTx\<close> are the clock readings that \<open>ToTime\<close> takes as references.\<close>

definition processReceivedPacket ::
    "go_time \<Rightarrow> go_time \<Rightarrow> bytes \<Rightarrow> clock \<Rightarrow> SenderSession \<Rightarrow> unit res \<times> SenderSession" where
  "processReceivedPacket refRx refTx packet recvTime ts =
     (case parse_reply ts packet of
        Inl e \<Rightarrow> (Inl e, ts)
      | Inr ri \<Rightarrow>
         (case sn_results ts (ri_SenderSeqNo ri) of
            None \<Rightarrow> (Inl ErrUnknownSequenceNumber, ts)
          | Some originalResult \<Rightarrow>
             (let rtt = clock_Sub recvTime (pr_SentTime originalResult);
                  result =
                    \<lparr>pr_SenderSeqNo = pr_SenderSeqNo originalResult,
                     pr_ReflectorSeqNo = ri_ReflectorSeqNo ri,
                     pr_SentTime = pr_SentTime originalResult,
                     pr_ReceivedTime = Some recvTime,
                     pr_ReflectorRxTime = Some (ToTimeWithReference (ri_RxTimestamp ri) refRx),
                     pr_ReflectorTxTime = Some (ToTimeWithReference (ri_TxTimestamp ri) refTx),
                     pr_SenderTimestamp = ri_SenderTimestamp ri,
                     pr_SenderErrorEstimate = ri_SenderErrEst ri,
                     pr_ReflectorErrorEstimate = ri_ReflectorErrEst ri,
                     pr_SenderTTL = ri_SenderTTL ri,
                     pr_RTT = rtt,
                     pr_ReflectorLatency = DurationBetween (ri_RxTimestamp ri) (ri_TxTimestamp ri)\<rparr>
              in (Inr (), record_rtt rtt
                    (ts\<lparr>sn_results := (sn_results ts)(ri_SenderSeqNo ri \<mapsto> result)\<rparr>)))))"

text \<open>
  The receiver started by \<open>StartReceiving\<close>: one round of its loop, which ends when the socket or the
  stop channel is gone. Errors of the socket and of the packet are skipped.
\<close>

datatype received = Rx_Error | Rx_Packet bytes clock go_time go_time

definition receive_round :: "received \<Rightarrow> SenderSession \<Rightarrow> bool \<times> SenderSession" where
  "receive_round r ts =
     (if sn_conn ts = Nil_handle \<or> sn_stopChan ts = Nil_handle then (False, ts)
      else
        (case r of
           Rx_Error \<Rightarrow> (True, ts)
         | Rx_Packet datagram recvTime refRx refTx \<Rightarrow>
             (True, snd (processReceivedPacket refRx refTx (take MaxTWAMPPacketSize datagram) recvTime ts))))"

fun receive_loop :: "received list \<Rightarrow> SenderSession \<Rightarrow> SenderSession" where
  "receive_loop [] ts = ts"
| "receive_loop (r # rs) ts =
     (case receive_round r ts of (continue, ts) \<Rightarrow> if continue then receive_loop rs ts else ts)"

definition StartReceiving :: "received list \<Rightarrow> SenderSession \<Rightarrow> SenderSession" where
  "StartReceiving rs ts =
     (if sn_isStopping ts \<or> sn_conn ts = Nil_handle then ts else receive_loop rs ts)"

section \<open>Results\<close>

text \<open>
  \<open>math.Sqrt\<close> of a non-negative \<open>int64\<close>, converted back: the integer is rounded to a double, and
  the root is rounded once more before its fraction is cut off. The root of \<open>p * 2 ^ 120\<close> has at least 60
  bits, enough to decide the rounding to 53, with one more bit for what is left over.
\<close>

fun isqrt_bits :: "nat \<Rightarrow> nat \<Rightarrow> nat \<Rightarrow> nat" where
  "isqrt_bits v 0 r = r"
| "isqrt_bits v (Suc k) r =
     (let c = r + 2 ^ k in isqrt_bits v k (if c * c \<le> v then c else r))"

definition isqrt :: "nat \<Rightarrow> nat" where
  "isqrt v = isqrt_bits v (bitlen v) 0"

definition f64_sqrt :: "nat \<Rightarrow> nat" where
  "f64_sqrt v =
     (let q = f64_round v * 2 ^ 120; r = isqrt q
      in f64_round (2 * r + (if r * r = q then 0 else 1)) div 2 ^ 61)"

text \<open>The sums over the packets that were answered; durations wrap around as \<open>int64\<close> do.\<close>

record result_sums =
  su_count :: int
  su_sumReflectorLatency :: int
  su_minReflectorLatency :: int
  su_maxReflectorLatency :: int
  su_sumSquaredRTTDiff :: int
  su_sumForwardDelay :: int
  su_sumReverseDelay :: int

definition sums_zero :: result_sums where
  "sums_zero = \<lparr>su_count = 0, su_sumReflectorLatency = 0, su_minReflectorLatency = 2 ^ 63 - 1,
     su_maxReflectorLatency = 0, su_sumSquaredRTTDiff = 0, su_sumForwardDelay = 0,
     su_sumReverseDelay = 0\<rparr>"

definition add_delays :: "PacketResult \<Rightarrow> clock \<Rightarrow> go_time \<Rightarrow> go_time \<Rightarrow> result_sums \<Rightarrow> result_sums" where
  "add_delays pr received rx tx su =
     (if SyncBit (pr_SenderErrorEstimate pr) \<and> SyncBit (pr_ReflectorErrorEstimate pr)
      then su\<lparr>su_sumForwardDelay := wrap64 (su_sumForwardDelay su + wall_Sub rx (wall (pr_SentTime pr))),
              su_sumReverseDelay := wrap64 (su_sumReverseDelay su + wall_Sub (wall received) tx)\<rparr>
      else su)"

definition zero_time :: go_time where
  "zero_time = \<lparr>unix_secs = - 62135596800, nanosecond = 0\<rparr>"

definition time_or_zero :: "go_time option \<Rightarrow> go_time" where
  "time_or_zero t = (case t of None \<Rightarrow> zero_time | Some t \<Rightarrow> t)"

definition add_result :: "int \<Rightarrow> PacketResult \<Rightarrow> result_sums \<Rightarrow> result_sums" where
  "add_result avgRTT pr su =
     (case pr_ReceivedTime pr of
        None \<Rightarrow> su
      | Some received \<Rightarrow>
         (let latency = pr_ReflectorLatency pr;
              diffFromAvg = wrap64 (pr_RTT pr - avgRTT);
              su = su\<lparr>su_count := su_count su + 1,
                su_sumReflectorLatency := wrap64 (su_sumReflectorLatency su + latency),
                su_minReflectorLatency := (if latency < su_minReflectorLatency su then latency
                                           else su_minReflectorLatency su),
                su_maxReflectorLatency := (if su_maxReflectorLatency su < latency then latency
                                           else su_maxReflectorLatency su),
                su_sumSquaredRTTDiff :=
                  wrap64 (su_sumSquaredRTTDiff su + wrap64 (diffFromAvg * diffFromAvg))\<rparr>
          in add_delays pr received (time_or_zero (pr_ReflectorRxTime pr))
               (time_or_zero (pr_ReflectorTxTime pr)) su))"

text \<open>
  \<open>sync.Map.Range\<close> visits the entries in an order of its own: \<open>order\<close>, a list of the keys. The
  conversion of a NaN (the root of a negative number) to an integer is up to the platform:
  \<open>nan\<close>.
\<close>

definition results_in :: "u32 list \<Rightarrow> SenderSession \<Rightarrow> PacketResult list" where
  "results_in order ts = List.map_filter (sn_results ts) order"

definition GetAllPacketResults :: "u32 list \<Rightarrow> SenderSession \<Rightarrow> PacketResult list" where
  "GetAllPacketResults order ts = results_in order ts"

definition average_rtt :: "SenderSession \<Rightarrow> int" where
  "average_rtt ts =
     (if 0 < sn_totalReceived ts then quot (sn_sumRTT ts) (uint (sn_totalReceived ts)) else 0)"

definition basic_results :: "SenderSession \<Rightarrow> TestSessionResult" where
  "basic_results ts =
     \<lparr>tr_PacketsSent = sn_totalSent ts, tr_PacketsReceived = sn_totalReceived ts,
      tr_PacketsLost = sn_totalSent ts - sn_totalReceived ts,
      tr_MinRTT = sn_minRTT ts, tr_MaxRTT = sn_maxRTT ts, tr_AvgRTT = average_rtt ts,
      tr_RTTVariation = 0, tr_MinReflectorLatency = 0, tr_MaxReflectorLatency = 0,
      tr_AvgReflectorLatency = 0, tr_AvgForwardDelay = 0, tr_AvgReverseDelay = 0,
      tr_DelayAsymmetry = None\<rparr>"

definition GetResults :: "int \<Rightarrow> u32 list \<Rightarrow> SenderSession \<Rightarrow> TestSessionResult" where
  "GetResults nan order ts =
     (let result = basic_results ts in
      if sn_totalReceived ts = 0 then result
      else
        (let su = fold (add_result (tr_AvgRTT result)) (results_in order ts) sums_zero;
             count = su_count su
         in if count = 0 then result
            else
              (let result = result\<lparr>tr_MinReflectorLatency := su_minReflectorLatency su,
                     tr_MaxReflectorLatency := su_maxReflectorLatency su,
                     tr_AvgReflectorLatency := quot (su_sumReflectorLatency su) count\<rparr>;
                   variance = quot (su_sumSquaredRTTDiff su) (count - 1);
                   result = (if 1 < count
                             then result\<lparr>tr_RTTVariation :=
                               (if variance < 0 then nan else int (f64_sqrt (nat variance)))\<rparr>
                             else result);
                   result = result\<lparr>tr_AvgForwardDelay := quot (su_sumForwardDelay su) count,
                     tr_AvgReverseDelay := quot (su_sumReverseDelay su) count\<rparr>
               in if 0 < tr_AvgReverseDelay result
                  then result\<lparr>tr_DelayAsymmetry :=
                    Some (tr_AvgForwardDelay result, tr_AvgReverseDelay result)\<rparr>
                  else result)))"

section \<open>Lemmas\<close>

lemma wrap64_mod: "wrap64 x mod 2 ^ 64 = x mod 2 ^ 64"
  by (simp add: wrap64_def mod_diff_left_eq)

lemma wrap64_cong: "x mod 2 ^ 64 = y mod 2 ^ 64 \<Longrightarrow> wrap64 x = wrap64 y"
  unfolding wrap64_def by (metis mod_add_cong)

lemma wrap64_add [simp]: "wrap64 (wrap64 a + b) = wrap64 (a + b)"
  by (rule wrap64_cong) (metis mod_add_left_eq wrap64_mod)

lemma wrap64_add' [simp]: "wrap64 (b + wrap64 a) = wrap64 (b + a)"
  using wrap64_add [of a b] by (simp add: add.commute)

text \<open>The sums do not depend on the order of the packets.\<close>

definition plus_if :: "bool \<Rightarrow> int \<Rightarrow> int \<Rightarrow> int" where
  "plus_if c d x = (if c then wrap64 (x + d) else x)"

lemma plus_if_commute: "plus_if c d (plus_if c' d' x) = plus_if c' d' (plus_if c d x)"
  by (simp add: plus_if_def ac_simps)

definition synced :: "PacketResult \<Rightarrow> bool" where
  "synced pr \<longleftrightarrow> SyncBit (pr_SenderErrorEstimate pr) \<and> SyncBit (pr_ReflectorErrorEstimate pr)"

lemma add_result_received:
  assumes "pr_ReceivedTime pr = Some t"
  shows "add_result a pr su =
    \<lparr>su_count = su_count su + 1,
     su_sumReflectorLatency = plus_if True (pr_ReflectorLatency pr) (su_sumReflectorLatency su),
     su_minReflectorLatency = min (pr_ReflectorLatency pr) (su_minReflectorLatency su),
     su_maxReflectorLatency = max (pr_ReflectorLatency pr) (su_maxReflectorLatency su),
     su_sumSquaredRTTDiff = plus_if True (wrap64 (wrap64 (pr_RTT pr - a) * wrap64 (pr_RTT pr - a)))
       (su_sumSquaredRTTDiff su),
     su_sumForwardDelay = plus_if (synced pr)
       (wall_Sub (time_or_zero (pr_ReflectorRxTime pr)) (wall (pr_SentTime pr))) (su_sumForwardDelay su),
     su_sumReverseDelay = plus_if (synced pr)
       (wall_Sub (wall t) (time_or_zero (pr_ReflectorTxTime pr))) (su_sumReverseDelay su)\<rparr>"
  using assms by (cases su) (simp add: add_result_def add_delays_def plus_if_def synced_def Let_def min_def max_def)

lemma add_result_commute: "add_result a x (add_result a y su) = add_result a y (add_result a x su)"
proof (cases "pr_ReceivedTime x"; cases "pr_ReceivedTime y")
  fix t u assume "pr_ReceivedTime x = Some t" "pr_ReceivedTime y = Some u"
  then show ?thesis
    by (simp add: add_result_received min.left_commute max.left_commute) (simp add: plus_if_commute)
qed (simp_all add: add_result_def)

lemma results_in_perm:
  assumes "distinct order" and "distinct order'" and "set order = set order'"
  shows "mset (results_in order ts) = mset (results_in order' ts)"
proof -
  have m: "mset order = mset order'" using assms by (simp add: set_eq_iff_mset_eq_distinct)
  have "mset (results_in xs ts) = image_mset (\<lambda>k. the (sn_results ts k)) (filter_mset (\<lambda>k. sn_results ts k \<noteq> None) (mset xs))" for xs
    by (induction xs) (auto simp: results_in_def List.map_filter_def)
  then show ?thesis using m by simp
qed

section \<open>Runs of a session\<close>

text \<open>
  What happens to a session between its start and its results: packets are sent, datagrams arrive, in any
  number and order. The list collects the round-trip times of the datagrams that were taken as
  replies.
\<close>

inductive session_run :: "SenderSession \<Rightarrow> int list \<Rightarrow> SenderSession \<Rightarrow> bool" for ts0 where
  begins: "session_run ts0 [] ts0"
| sends: "session_run ts0 rtts ts \<Longrightarrow>
    session_run ts0 rtts (snd (SendTestPacket now syncBit rnd resolve write ts))"
| takes: "session_run ts0 rtts ts \<Longrightarrow> processReceivedPacket refRx refTx packet t ts = (Inr (), ts') \<Longrightarrow>
    parse_reply ts packet = Inr ri \<Longrightarrow> sn_results ts (ri_SenderSeqNo ri) = Some pr \<Longrightarrow>
    session_run ts0 (rtts @ [clock_Sub t (pr_SentTime pr)]) ts'"
| skips: "session_run ts0 rtts ts \<Longrightarrow> processReceivedPacket refRx refTx packet t ts = (Inl e, ts') \<Longrightarrow>
    session_run ts0 rtts ts'"

definition stats_of :: "int list \<Rightarrow> SenderSession \<Rightarrow> bool" where
  "stats_of rtts ts \<longleftrightarrow> sn_totalReceived ts = of_nat (length rtts) \<and>
     wrap64 (sn_sumRTT ts) = wrap64 (sum_list rtts) \<and> - (2 ^ 63) \<le> sn_sumRTT ts \<and> sn_sumRTT ts < 2 ^ 63 \<and>
     sn_minRTT ts = fold min rtts (2 ^ 63 - 1) \<and> sn_maxRTT ts = fold max rtts 0"

lemma Send_stats:
  assumes "SendTestPacket now syncBit rnd resolve write ts = (r, ts')"
  shows "sn_totalReceived ts' = sn_totalReceived ts \<and> sn_sumRTT ts' = sn_sumRTT ts \<and>
    sn_minRTT ts' = sn_minRTT ts \<and> sn_maxRTT ts' = sn_maxRTT ts \<and> sn_totalSent ts' = sn_totalSent ts + 1 \<and>
    sn_seqNo ts' = sn_seqNo ts + 1"
  using assms by (auto simp: SendTestPacket_def Let_def split: sum.splits if_splits)

lemma processReceivedPacket_ok:
  assumes "parse_reply ts packet = Inr ri" and "sn_results ts (ri_SenderSeqNo ri) = Some pr"
  shows "\<exists>result. processReceivedPacket refRx refTx packet t ts =
    (Inr (), record_rtt (clock_Sub t (pr_SentTime pr))
       (ts\<lparr>sn_results := (sn_results ts)(ri_SenderSeqNo ri \<mapsto> result)\<rparr>)) \<and>
    pr_SentTime result = pr_SentTime pr \<and> pr_RTT result = clock_Sub t (pr_SentTime pr)"
  using assms by (simp add: processReceivedPacket_def Let_def) (rule exI, rule conjI, rule refl, simp)

lemma parse_reply_cong:
  assumes "sn_isAuthenticated ts = sn_isAuthenticated us" and "sn_isEncrypted ts = sn_isEncrypted us"
    and "sn_sessionKeys ts = sn_sessionKeys us"
  shows "parse_reply ts packet = parse_reply us packet"
  unfolding parse_reply_def open_reply_def assms ..

lemma wrap64_range: "- (2 ^ 63) \<le> wrap64 x \<and> wrap64 x < 2 ^ 63"
  by (simp add: wrap64_def)

lemma wrap64_idem [simp]: "wrap64 (wrap64 x) = wrap64 x"
  using wrap64_add [of x 0] by simp

lemma record_rtt_stats:
  assumes "stats_of rtts ts"
  shows "stats_of (rtts @ [d]) (record_rtt d (ts\<lparr>sn_results := m\<rparr>))"
proof -
  have "wrap64 (sn_sumRTT ts + d) = wrap64 (sum_list rtts + d)"
    using assms wrap64_add [of "sn_sumRTT ts" d] wrap64_add [of "sum_list rtts" d] by (simp add: stats_of_def)
  then show ?thesis
    using assms wrap64_range by (simp add: stats_of_def record_rtt_def min_def max_def)
qed

lemma session_run_stats:
  assumes "session_run ts0 rtts ts" and "stats_of [] ts0"
  shows "stats_of rtts ts"
  using assms
proof induction
  case (sends rtts ts now sy rnd res wr)
  then show ?case
    using Send_stats [of now sy rnd res wr ts] by (auto simp: stats_of_def prod_eq_iff)
next
  case (takes rtts ts refRx refTx packet t ts' ri pr)
  then show ?case
    using processReceivedPacket_ok [OF takes(3,4), of refRx refTx t] record_rtt_stats by auto
next
  case (skips rtts ts refRx refTx packet t e ts')
  then show ?case by (auto simp: processReceivedPacket_def Let_def split: sum.splits option.splits)
qed

lemma NewTestSession_stats: "NewTestSession config sid m keys = Inr ts \<Longrightarrow> stats_of [] ts"
  by (auto simp: NewTestSession_def stats_of_def Let_def split: option.splits if_splits sum.splits)

section \<open>Properties\<close>

text \<open>The results do not depend on the order in which the map of packets is visited: any two
  orders that visit the same packets once give the same counts, delays and variations.\<close>

theorem results_order:
  assumes "distinct order" and "distinct order'" and "set order = set order'"
  shows "GetResults nan order ts = GetResults nan order' ts \<and>
    mset (GetAllPacketResults order ts) = mset (GetAllPacketResults order' ts)"
proof -
  note p = results_in_perm [OF assms]
  have f: "fold (add_result a) (results_in order ts) sums_zero = fold (add_result a) (results_in order' ts) sums_zero" for a
    by (rule fold_multiset_equiv [THEN fun_cong]) (use p in \<open>auto simp: add_result_commute\<close>)
  show ?thesis unfolding GetResults_def GetAllPacketResults_def using p [of ts] by (simp only: f)
qed

theorem results_order_witness:
  "\<forall>ts. GetResults 0 [1, 2] ts = GetResults 0 [2, 1] ts"
  using results_order [of "[1, 2]" "[2, 1]" 0] by (simp add: insert_commute)

text \<open>C21: the round-trip statistics. In every run of a session whose round trips are not negative, fewer
  than 2^32 and below 2^63 nanoseconds in all, the smallest, largest and average round trip are
  those of the replies taken, the average lies between the other two, and the number of lost packets is what was
  sent less what was taken; without a reply the smallest round trip is the largest duration there is.\<close>

theorem rtt_statistics:
  assumes "NewTestSession config sid m keys = Inr ts0" and "session_run ts0 rtts ts"
    and "\<forall>d \<in> set rtts. 0 \<le> d" and "sum_list rtts < 2 ^ 63" and "length rtts < 2 ^ 32"
  shows "let r = GetResults nan order ts in
    tr_PacketsReceived r = of_nat (length rtts) \<and> tr_PacketsLost r = tr_PacketsSent r - tr_PacketsReceived r \<and>
    (if rtts = [] then tr_MinRTT r = 2 ^ 63 - 1 \<and> tr_MaxRTT r = 0 \<and> tr_AvgRTT r = 0
     else tr_MinRTT r = Min (set rtts) \<and> tr_MaxRTT r = Max (set rtts) \<and>
       tr_AvgRTT r = sum_list rtts div int (length rtts) \<and>
       tr_MinRTT r \<le> tr_AvgRTT r \<and> tr_AvgRTT r \<le> tr_MaxRTT r)"
proof -
  have st: "stats_of rtts ts" using session_run_stats assms(1,2) NewTestSession_stats by blast
  have b: "tr_PacketsReceived (GetResults nan order ts) = sn_totalReceived ts"
    "tr_PacketsSent (GetResults nan order ts) = sn_totalSent ts"
    "tr_PacketsLost (GetResults nan order ts) = sn_totalSent ts - sn_totalReceived ts"
    "tr_MinRTT (GetResults nan order ts) = sn_minRTT ts" "tr_MaxRTT (GetResults nan order ts) = sn_maxRTT ts"
    "tr_AvgRTT (GetResults nan order ts) = average_rtt ts"
    by (simp_all add: GetResults_def basic_results_def Let_def)
  have n: "0 \<le> sum_list rtts" using assms(3) by (simp add: sum_list_nonneg)
  have "wrap64 (sn_sumRTT ts) = sn_sumRTT ts" by (rule wrap64_id) (use st in \<open>simp_all add: stats_of_def\<close>)
  moreover have "wrap64 (sum_list rtts) = sum_list rtts" by (rule wrap64_id) (use n assms(4) in simp_all)
  ultimately have sum: "sn_sumRTT ts = sum_list rtts" using st by (simp only: stats_of_def)
  have len: "unat (sn_totalReceived ts) = length rtts"
    using st assms(5) by (simp add: stats_of_def unat_of_nat)
  show ?thesis
  proof (cases rtts)
    case Nil
    then show ?thesis using st by (simp add: b stats_of_def average_rtt_def)
  next
    case (Cons d ds)
    have le: "d \<le> sum_list rtts" if "d \<in> set rtts" for d
      using that assms(3) member_le_sum_list [of d rtts] by simp
    have mm: "sn_minRTT ts = Min (set rtts)" "sn_maxRTT ts = Max (set rtts)"
    proof -
      have "d \<le> 2 ^ 63 - 1" "0 \<le> d" using le [of d] assms(3,4) Cons by auto
      then have "fold min rtts (2 ^ 63 - 1) = fold min ds d" "fold max rtts 0 = fold max ds d"
        using Cons by (simp_all add: min_def max_def)
      moreover have "Min (set rtts) = fold min ds d" "Max (set rtts) = fold max ds d"
        unfolding Cons by (rule Min.set_eq_fold Max.set_eq_fold)+
      ultimately show "sn_minRTT ts = Min (set rtts)" "sn_maxRTT ts = Max (set rtts)"
        using st by (simp_all add: stats_of_def)
    qed
    let ?n = "int (length rtts)"
    have pos: "0 < ?n" using Cons by simp
    have "0 < sn_totalReceived ts" using len Cons by (metis length_greater_0_conv list.distinct(1) unat_gt_0 word_neq_0_conv)
    then have avg: "average_rtt ts = sum_list rtts div ?n"
      using len quot_nonneg [OF n pos] by (simp add: average_rtt_def sum uint_nat)
    have m: "?n * Min (set rtts) \<le> sum_list rtts" "sum_list rtts \<le> ?n * Max (set rtts)"
      using sum_list_mono [of rtts "\<lambda>_. Min (set rtts)" "\<lambda>x. x"] sum_list_mono [of rtts "\<lambda>x. x" "\<lambda>_. Max (set rtts)"]
      by (simp_all add: sum_list_triv)
    have "?n * Min (set rtts) div ?n \<le> sum_list rtts div ?n" "sum_list rtts div ?n \<le> ?n * Max (set rtts) div ?n"
      using m pos by (simp_all only: zdiv_mono1)
    then have "Min (set rtts) \<le> sum_list rtts div ?n" "sum_list rtts div ?n \<le> Max (set rtts)"
      using pos by simp_all
    with b mm avg st Cons show ?thesis by (simp add: stats_of_def Let_def)
  qed
qed

text \<open>A session of one packet, sent at 0 and answered.\<close>

definition demo_clock :: "int \<Rightarrow> clock" where
  "demo_clock m = \<lparr>wall = \<lparr>unix_secs = 0, nanosecond = 0\<rparr>, mono = m\<rparr>"

definition demo_session :: SenderSession where
  "demo_session = \<lparr>sn_config = \<lparr>tc_SenderPort = 30000, tc_ReceiverPort = 20000, tc_ReceiverAddress = ''10.0.0.1'',
       tc_PaddingLength = 27, tc_Timeout = 0, tc_DSCP = 0\<rparr>, sn_sid = zeros 16, sn_conn = Nil_handle, sn_seqNo = 0,
     sn_sessionKeys = None, sn_mode = 1, sn_results = Map.empty, sn_totalSent = 0,
     sn_totalReceived = 0, sn_minRTT = 2 ^ 63 - 1, sn_maxRTT = 0, sn_sumRTT = 0,
     sn_stopChan = Open_handle, sn_isAuthenticated = False, sn_isEncrypted = False, sn_isStopping = False\<rparr>"

lemma demo_session_new: "NewTestSession (sn_config demo_session) (zeros 16) 1 None = Inr demo_session"
  by (simp add: NewTestSession_def demo_session_def securityMask_def Let_def)

definition demo_sent :: SenderSession where
  "demo_sent = snd (SendTestPacket (demo_clock 0) False (\<lambda>n. Inr (zeros n)) (\<lambda>a p. Inr []) (\<lambda>b a. Inr ()) demo_session)"

lemma demo_sent:
  "\<not> sn_isAuthenticated demo_sent" "sn_totalSent demo_sent = 1" "sn_totalReceived demo_sent = 0"
  "\<exists>pr. sn_results demo_sent 0 = Some pr \<and> pr_SentTime pr = demo_clock 0"
  by (simp_all add: demo_sent_def SendTestPacket_def demo_session_def marshal_test_packet_def seal_test_packet_def
      SenderTestPacket_Marshal_eq Let_def)

lemma demo_reply: "\<exists>b ri pr. parse_reply demo_sent b = Inr ri \<and> ri_SenderSeqNo ri = 0 \<and>
    sn_results demo_sent (ri_SenderSeqNo ri) = Some pr \<and> pr_SentTime pr = demo_clock 0"
proof -
  have "ReflectorTestPacket_ok ReflectorTestPacket_zero"
    by (simp add: ReflectorTestPacket_ok_def ReflectorTestPacket_zero_def ErrorEstimate_zero_def)
  then obtain b where "ReflectorTestPacket_Unmarshal ReflectorTestPacket_zero b = Inr ReflectorTestPacket_zero"
    using reflector_codec.roundtrip by blast
  then have "parse_reply demo_sent b = Inr \<lparr>ri_SenderSeqNo = 0, ri_ReflectorSeqNo = 0, ri_SenderTimestamp = Timestamp_zero,
      ri_RxTimestamp = Timestamp_zero, ri_TxTimestamp = Timestamp_zero, ri_SenderErrEst = ErrorEstimate_zero,
      ri_ReflectorErrEst = ErrorEstimate_zero, ri_SenderTTL = 0\<rparr>"
    using demo_sent(1) by (simp add: parse_reply_def ReflectorTestPacket_zero_def)
  with demo_sent(4) show ?thesis by fastforce
qed

theorem rtt_statistics_witness:
  "\<exists>ts. tr_AvgRTT (GetResults 0 [] ts) = 5 \<and> tr_MinRTT (GetResults 0 [] ts) = 5 \<and> tr_PacketsReceived (GetResults 0 [] ts) = 1"
proof -
  obtain b ri pr where r: "parse_reply demo_sent b = Inr ri" "sn_results demo_sent (ri_SenderSeqNo ri) = Some pr"
    "pr_SentTime pr = demo_clock 0" using demo_reply by blast
  obtain ts where ts: "processReceivedPacket zero_time zero_time b (demo_clock 5) demo_sent = (Inr (), ts)"
    using processReceivedPacket_ok [OF r(1,2)] by blast
  have "session_run demo_session [] demo_sent"
    unfolding demo_sent_def by (rule session_run.sends) (rule session_run.begins)
  from session_run.takes [OF this ts r(1,2)] have "session_run demo_session [5] ts"
    by (simp add: r(3) clock_Sub_def demo_clock_def saturate64_def)
  from rtt_statistics [OF demo_session_new this, of 0 "[]"] show ?thesis by (auto simp: Let_def)
qed

text \<open>C30: a reply that arrives again is counted again. The same datagram is taken as often as it comes,
  so that after one packet sent and two copies of its reply the number of lost packets is 2^32 - 1.\<close>

theorem duplicates_counted:
  assumes "processReceivedPacket refRx refTx packet t ts = (Inr (), ts1)"
  shows "\<exists>ts2. processReceivedPacket refRx' refTx' packet t' ts1 = (Inr (), ts2) \<and>
    sn_totalReceived ts2 = sn_totalReceived ts + 2 \<and> sn_totalSent ts2 = sn_totalSent ts \<and>
    dom (sn_results ts2) = dom (sn_results ts) \<and>
    (sn_totalSent ts = 1 \<and> sn_totalReceived ts = 0 \<longrightarrow> tr_PacketsLost (GetResults nan order ts2) = 2 ^ 32 - 1)"
proof -
  obtain ri pr where r: "parse_reply ts packet = Inr ri" "sn_results ts (ri_SenderSeqNo ri) = Some pr"
    using assms by (auto simp: processReceivedPacket_def split: sum.splits option.splits)
  obtain res where ts1: "ts1 = record_rtt (clock_Sub t (pr_SentTime pr))
      (ts\<lparr>sn_results := (sn_results ts)(ri_SenderSeqNo ri \<mapsto> res)\<rparr>)" "pr_SentTime res = pr_SentTime pr"
    using processReceivedPacket_ok [OF r, of refRx refTx t] assms by auto
  have "parse_reply ts1 packet = parse_reply ts packet"
    by (rule parse_reply_cong) (simp_all add: ts1 record_rtt_def)
  then have r1: "parse_reply ts1 packet = Inr ri" "sn_results ts1 (ri_SenderSeqNo ri) = Some res"
    using r by (simp_all add: ts1 record_rtt_def)
  obtain res' where p: "processReceivedPacket refRx' refTx' packet t' ts1 = (Inr (), record_rtt (clock_Sub t' (pr_SentTime res))
      (ts1\<lparr>sn_results := (sn_results ts1)(ri_SenderSeqNo ri \<mapsto> res')\<rparr>))"
    using processReceivedPacket_ok [OF r1, of refRx' refTx' t'] by blast
  let ?ts2 = "record_rtt (clock_Sub t' (pr_SentTime res)) (ts1\<lparr>sn_results := (sn_results ts1)(ri_SenderSeqNo ri \<mapsto> res')\<rparr>)"
  have f: "sn_totalReceived ?ts2 = sn_totalReceived ts + 2" "sn_totalSent ?ts2 = sn_totalSent ts"
    using r(2) by (simp_all add: ts1 record_rtt_def)
  have d: "dom (sn_results ?ts2) = dom (sn_results ts)"
    using r(2) by (auto simp: ts1 record_rtt_def)
  have "tr_PacketsLost (GetResults nan order ?ts2) = sn_totalSent ?ts2 - sn_totalReceived ?ts2"
    by (simp add: GetResults_def basic_results_def Let_def)
  with p f d show ?thesis by (intro exI [of _ ?ts2]) simp
qed

theorem duplicates_counted_witness:
  "\<exists>ts2. sn_totalSent ts2 = 1 \<and> tr_PacketsLost (GetResults 0 [] ts2) = 2 ^ 32 - 1"
proof -
  obtain b ri pr where r: "parse_reply demo_sent b = Inr ri" "sn_results demo_sent (ri_SenderSeqNo ri) = Some pr"
    using demo_reply by blast
  obtain ts where "processReceivedPacket zero_time zero_time b (demo_clock 5) demo_sent = (Inr (), ts)"
    using processReceivedPacket_ok [OF r] by blast
  from duplicates_counted [OF this, of zero_time zero_time "demo_clock 6" 0 "[]"] demo_sent(2,3)
  show ?thesis by metis
qed

end
