(* ===== verification/Client_Control.thy ===== *)
theory Client_Control
  imports Client_Session Server_Control "HOL-Library.List_Lexorder"
begin

text \<open>
  The control client of \<open>client/client.go\<close>: connecting and the choice of the mode, control messages under
  HMAC and encryption, requesting, starting and stopping sessions. Sessions are objects that the user
  of the library holds too: they lie in a heap, and the client's map leads to them. The
  connection is the input it will deliver and the list of what was written. The
  mutex of the client makes every operation one step; logging and metrics are left out.
\<close>

section \<open>State and environment\<close>

record ClientConfig =
  cn_ServerAddress :: string
  cn_PreferredMode :: mode
  cn_SharedSecret :: bytes
  cn_KeyID :: bytes
  cn_Timeout :: int

record Client =
  cl_config :: ClientConfig
  cl_conn :: handle
  cl_mode :: mode
  cl_controlMode :: mode
  cl_testMode :: mode
  cl_keyDerivation :: "TWAMPKeys option"
  cl_controlEncrypt :: "CBCStream option"
  cl_controlDecrypt :: "CBCStream option"
  cl_serverStartBytes :: bytes
  cl_serverStartHMACPending :: bool
  cl_currentSessions :: "session_id \<rightharpoonup> nat"
  cl_heap :: "SenderSession list"
  cl_in :: bytes
  cl_out :: "bytes list"

text \<open>
  One operation's environment: PBKDF2, the random source, dialling an address (what the server will send, or the
  error), writing to and closing the connection, \<open>net.ParseIP\<close>, opening and closing the socket
  of a session, the order in which the map of sessions is ranged over, and the conversion
  of a negative double to \<open>uint32\<close>, which is up to the platform.
\<close>

record client_env =
  ce_kdf :: "bytes \<Rightarrow> bytes \<Rightarrow> nat \<Rightarrow> bytes"
  ce_random :: random_source
  ce_dial :: "string \<Rightarrow> bytes res"
  ce_write :: "bytes \<Rightarrow> unit res"
  ce_conn_close :: "unit res"
  ce_ParseIP :: "string \<Rightarrow> ip"
  ce_listen :: "session_id \<Rightarrow> u16 \<Rightarrow> bool"
  ce_close :: "session_id \<Rightarrow> unit res"
  ce_order :: "session_id list"
  ce_conv :: "int \<Rightarrow> u32"

definition NewClient :: "ClientConfig \<Rightarrow> Client" where
  "NewClient config =
     (let config = (if cn_Timeout config = 0 then config\<lparr>cn_Timeout := 5 * time_Second\<rparr> else config)
      in \<lparr>cl_config = config, cl_conn = Nil_handle, cl_mode = 0, cl_controlMode = 0, cl_testMode = 0,
          cl_keyDerivation = None, cl_controlEncrypt = None, cl_controlDecrypt = None,
          cl_serverStartBytes = [], cl_serverStartHMACPending = False,
          cl_currentSessions = Map.empty, cl_heap = [], cl_in = [], cl_out = []\<rparr>)"

text \<open>The connection. A method call on a nil connection panics.\<close>

definition client_Write :: "client_env \<Rightarrow> bytes \<Rightarrow> Client \<Rightarrow> unit res \<times> Client" where
  "client_Write env b c =
     (if cl_conn c = Nil_handle then (Inl (Panic ''nil pointer dereference''), c)
      else if cl_conn c = Closed_handle then (Inl (IOError ''use of closed network connection''), c)
      else
        (case ce_write env b of
           Inl e \<Rightarrow> (Inl e, c)
         | Inr _ \<Rightarrow> (Inr (), c\<lparr>cl_out := cl_out c @ [b]\<rparr>)))"

definition client_ReadFull :: "nat \<Rightarrow> Client \<Rightarrow> bytes res \<times> Client" where
  "client_ReadFull n c =
     (if cl_conn c = Nil_handle then (Inl (Panic ''nil pointer dereference''), c)
      else if cl_conn c = Closed_handle then (Inl (IOError ''use of closed network connection''), c)
      else if n \<le> length (cl_in c)
      then (Inr (take n (cl_in c)), c\<lparr>cl_in := drop n (cl_in c)\<rparr>)
      else (Inl (IOError ''EOF''), c\<lparr>cl_in := []\<rparr>))"

section \<open>Addresses\<close>

text \<open>\<open>net.JoinHostPort\<close> and \<open>net.SplitHostPort\<close>, with the index searches they use.\<close>

definition JoinHostPort :: "string \<Rightarrow> string \<Rightarrow> string" where
  "JoinHostPort host port =
     (if List.member host CHR '':'' then ''['' @ host @ '']:'' @ port else host @ '':'' @ port)"

fun index_of :: "char \<Rightarrow> string \<Rightarrow> nat option" where
  "index_of c [] = None"
| "index_of c (x # xs) = (if x = c then Some 0 else map_option Suc (index_of c xs))"

fun last_index_of :: "char \<Rightarrow> string \<Rightarrow> nat option" where
  "last_index_of c [] = None"
| "last_index_of c (x # xs) =
     (case last_index_of c xs of
        Some i \<Rightarrow> Some (Suc i)
      | None \<Rightarrow> if x = c then Some 0 else None)"

definition check_brackets :: "string \<Rightarrow> string \<Rightarrow> nat \<Rightarrow> nat \<Rightarrow> nat \<Rightarrow> (string \<times> string) res" where
  "check_brackets hostport host i j k =
     (if List.member (drop j hostport) CHR ''['' then Inl (Errorf ''unexpected '[' in address'')
      else if List.member (drop k hostport) CHR '']'' then Inl (Errorf ''unexpected ']' in address'')
      else Inr (host, drop (i + 1) hostport))"

definition SplitHostPort :: "string \<Rightarrow> (string \<times> string) res" where
  "SplitHostPort hostport =
     (case last_index_of CHR '':'' hostport of
        None \<Rightarrow> Inl (Errorf ''missing port in address'')
      | Some i \<Rightarrow>
         if hostport ! 0 = CHR ''['' then
           (case index_of CHR '']'' hostport of
              None \<Rightarrow> Inl (Errorf ''missing ']' in address'')
            | Some e \<Rightarrow>
               if e + 1 = length hostport then Inl (Errorf ''missing port in address'')
               else if e + 1 = i then check_brackets hostport (seg 1 e hostport) i 1 (e + 1)
               else if hostport ! (e + 1) = CHR '':'' then Inl (Errorf ''too many colons in address'')
               else Inl (Errorf ''missing port in address''))
         else
           (let host = take i hostport in
            if List.member host CHR '':'' then Inl (Errorf ''too many colons in address'')
            else check_brackets hostport host i 0 0))"

definition parseAndValidateIP :: "(string \<Rightarrow> ip) \<Rightarrow> string \<Rightarrow> (bool \<times> bytes) res" where
  "parseAndValidateIP parse address =
     (let a = parse address in
      if a = [] then Inl (Wrap ''%w: %s'' [ErrInvalidReceiverAddress])
      else if IP_To4 a \<noteq> [] then Inr (False, IP_To4 a)
      else Inr (True, IP_To16 a))"

section \<open>Connecting\<close>

definition receiveServerGreeting :: "Client \<Rightarrow> ServerGreeting res \<times> Client" where
  "receiveServerGreeting c =
     (case client_ReadFull 64 c of
        (Inl (Panic s), c) \<Rightarrow> (Inl (Panic s), c)
      | (Inl e, c) \<Rightarrow> (Inl (Wrap ''%w: %w'' [ErrServerGreeting, e]), c)
      | (Inr buf, c) \<Rightarrow>
         (case ServerGreeting_Unmarshal ServerGreeting_zero buf of
            Inl e \<Rightarrow> (Inl (Wrap ''failed to unmarshal server greeting'' [e]), c)
          | Inr greeting \<Rightarrow>
             if sg_Modes greeting = 0 then (Inl ErrServerNoModes, c) else (Inr greeting, c)))"

definition receiveServerStart :: "Client \<Rightarrow> ServerStart res \<times> Client" where
  "receiveServerStart c =
     (case client_ReadFull 48 c of
        (Inl e, c) \<Rightarrow> (Inl (wrap_err ''failed to read Server-Start'' e), c)
      | (Inr buf, c) \<Rightarrow>
         (let c = c\<lparr>cl_serverStartBytes := buf\<rparr> in
          case ServerStart_Unmarshal ServerStart_zero buf of
            Inl e \<Rightarrow> (Inl (Wrap ''failed to unmarshal Server-Start'' [e]), c)
          | Inr serverStart \<Rightarrow> (Inr serverStart, c)))"

text \<open>The strongest security mode that both sides have, and the mode to ask for.\<close>

definition base_security :: "mode \<Rightarrow> u32 \<Rightarrow> mode res" where
  "base_security preferred modes =
     (let preferredSecurity = preferred AND securityMask;
          serverSecurity = modes AND securityMask
      in if preferredSecurity AND ModeEncrypted \<noteq> 0 \<and> serverSecurity AND ModeEncrypted \<noteq> 0
         then Inr ModeEncrypted
         else if preferredSecurity AND ModeAuthenticated \<noteq> 0 \<and> serverSecurity AND ModeAuthenticated \<noteq> 0
         then Inr ModeAuthenticated
         else if preferredSecurity AND ModeUnauthenticated \<noteq> 0 \<and> serverSecurity AND ModeUnauthenticated \<noteq> 0
         then Inr ModeUnauthenticated
         else Inl ErrNoCompatibleMode)"

definition selected_mode :: "mode \<Rightarrow> mode \<Rightarrow> u32 \<Rightarrow> mode" where
  "selected_mode baseSecurity preferred modes =
     baseSecurity OR (preferred AND NOT securityMask AND modes)"

text \<open>The Setup-Response, with the keys and the token of a secure mode.\<close>

definition setup_response ::
    "client_env \<Rightarrow> ServerGreeting \<Rightarrow> mode \<Rightarrow> mode \<Rightarrow> Client \<Rightarrow> SetupResponse res \<times> Client" where
  "setup_response env greeting baseSecurity selectedMode c =
     (let setupResponse = \<lparr>sr_Mode = selectedMode, sr_KeyID = zeros 80, sr_Token = zeros 64,
                           sr_ClientIV = zeros 16\<rparr>
      in if baseSecurity = ModeUnauthenticated then (Inr setupResponse, c)
         else if cn_SharedSecret (cl_config c) = [] then (Inl ErrSharedSecretRequired, c)
         else
        (case DeriveKey (ce_kdf env) (cn_SharedSecret (cl_config c)) (sg_Salt greeting) (sg_Count greeting) of
           Inl e \<Rightarrow> (Inl (Wrap ''failed to derive keys'' [e]), c)
         | Inr (aesKey, hmacKey) \<Rightarrow>
        (let keys = \<lparr>AESKey = aesKey, HMACKey = hmacKey, TestAESKey = [], TestHMACKey = [],
                     ClientIV = [], ServerIV = []\<rparr>;
             c = c\<lparr>cl_keyDerivation := Some keys\<rparr>
         in case ce_random env 16 of
              Inl e \<Rightarrow> (Inl (Wrap ''failed to generate client IV'' [e]), c)
            | Inr clientIV \<Rightarrow>
           (let c = c\<lparr>cl_keyDerivation := Some (keys\<lparr>ClientIV := clientIV\<rparr>)\<rparr> in
            case CreateToken (sg_Challenge greeting) aesKey hmacKey of
              Inl e \<Rightarrow> (Inl (Wrap ''failed to create token'' [e]), c)
            | Inr token \<Rightarrow>
               (Inr (setupResponse\<lparr>sr_KeyID := copy_at (zeros 80) 0 80 (cn_KeyID (cl_config c)),
                      sr_Token := copy_at (zeros 64) 0 64 token,
                      sr_ClientIV := copy_at (zeros 16) 0 16 clientIV\<rparr>), c)))))"

definition client_controlAuth :: "Client \<Rightarrow> bool" where
  "client_controlAuth c \<longleftrightarrow> cl_controlMode c AND securityMask \<noteq> ModeUnauthenticated"

text \<open>After Server-Start: the modes, and the streams of a secure control connection.\<close>

definition finish_setup :: "mode \<Rightarrow> mode \<Rightarrow> ServerStart \<Rightarrow> Client \<Rightarrow> unit res \<times> Client" where
  "finish_setup baseSecurity selectedMode serverStart c =
     (let c = (if baseSecurity = ModeUnauthenticated then c
               else c\<lparr>cl_keyDerivation :=
                 map_option (\<lambda>keys. keys\<lparr>ServerIV := sst_ServerIV serverStart\<rparr>) (cl_keyDerivation c)\<rparr>);
          c = c\<lparr>cl_mode := selectedMode\<rparr>
      in case ResolveMixedModes selectedMode of
           Inl e \<Rightarrow> (Inl (Wrap ''invalid mode combination'' [e]), c\<lparr>cl_controlMode := 0, cl_testMode := 0\<rparr>)
         | Inr (controlMode, testMode) \<Rightarrow>
            (let c = c\<lparr>cl_controlMode := controlMode, cl_testMode := testMode\<rparr> in
             if client_controlAuth c then
               (case cl_keyDerivation c of
                  None \<Rightarrow> (Inl (Errorf ''control keys not initialized''), c)
                | Some keys \<Rightarrow>
                   (case NewCBCStream (AESKey keys) (ClientIV keys) of
                      Inl e \<Rightarrow> (Inl (Wrap ''failed to init control encrypt stream'' [e]), c)
                    | Inr controlEncrypt \<Rightarrow>
                       (case NewCBCStream (AESKey keys) (ServerIV keys) of
                          Inl e \<Rightarrow> (Inl (Wrap ''failed to init control decrypt stream'' [e]), c)
                        | Inr controlDecrypt \<Rightarrow>
                            (Inr (), c\<lparr>cl_controlEncrypt := Some controlEncrypt,
                               cl_controlDecrypt := Some controlDecrypt,
                               cl_serverStartHMACPending := True\<rparr>))))
             else (Inr (), c\<lparr>cl_controlEncrypt := None, cl_controlDecrypt := None,
                     cl_serverStartHMACPending := False\<rparr>)))"

definition negotiateMode :: "client_env \<Rightarrow> ServerGreeting \<Rightarrow> Client \<Rightarrow> unit res \<times> Client" where
  "negotiateMode env greeting c =
     (case ValidateModeMask (cn_PreferredMode (cl_config c)) of
        Inl e \<Rightarrow> (Inl (Wrap ''invalid preferred mode'' [e]), c)
      | Inr _ \<Rightarrow>
     (case base_security (cn_PreferredMode (cl_config c)) (sg_Modes greeting) of
        Inl e \<Rightarrow> (Inl e, c)
      | Inr baseSecurity \<Rightarrow>
     (let selectedMode = selected_mode baseSecurity (cn_PreferredMode (cl_config c)) (sg_Modes greeting) in
      case setup_response env greeting baseSecurity selectedMode c of
        (Inl e, c) \<Rightarrow> (Inl e, c)
      | (Inr setupResponse, c) \<Rightarrow>
     (case SetupResponse_Marshal setupResponse of
        Inl e \<Rightarrow> (Inl (Wrap ''failed to marshal setup response'' [e]), c)
      | Inr data \<Rightarrow>
     (case client_Write env data c of
        (Inl e, c) \<Rightarrow> (Inl (wrap_err ''failed to send setup response'' e), c)
      | (Inr _, c) \<Rightarrow>
     (case receiveServerStart c of
        (Inl e, c) \<Rightarrow> (Inl (wrap_err ''failed to receive server start'' e), c)
      | (Inr serverStart, c) \<Rightarrow>
         if sst_Accept serverStart \<noteq> AcceptOK then (Inl (TWAMPError (sst_Accept serverStart)), c)
         else finish_setup baseSecurity selectedMode serverStart c))))))"

text \<open>\<open>Connect\<close> keeps the connection it has closed after a failure.\<close>

definition Connect :: "client_env \<Rightarrow> Client \<Rightarrow> unit res \<times> Client" where
  "Connect env c =
     (let serverAddr = cn_ServerAddress (cl_config c);
          serverAddr = (case SplitHostPort serverAddr of
                          Inl e \<Rightarrow> JoinHostPort serverAddr ''862'' | Inr _ \<Rightarrow> serverAddr)
      in case ce_dial env serverAddr of
           Inl e \<Rightarrow> (Inl (Wrap ''failed to connect to server'' [e]), c)
         | Inr input \<Rightarrow>
            (case receiveServerGreeting (c\<lparr>cl_conn := Open_handle, cl_in := input, cl_out := []\<rparr>) of
               (Inl e, c) \<Rightarrow> (Inl (wrap_err ''failed to receive server greeting'' e), c\<lparr>cl_conn := Closed_handle\<rparr>)
             | (Inr greeting, c) \<Rightarrow>
                (case negotiateMode env greeting c of
                   (Inl e, c) \<Rightarrow> (Inl (wrap_err ''failed to negotiate mode'' e), c\<lparr>cl_conn := Closed_handle\<rparr>)
                 | (Inr _, c) \<Rightarrow> (Inr (), c))))"

section \<open>Control messages\<close>

definition calculateHMAC :: "Client \<Rightarrow> bytes \<Rightarrow> bytes res" where
  "calculateHMAC c message =
     (case cl_keyDerivation c of
        None \<Rightarrow> Inl (Panic ''nil pointer dereference'')
      | Some keys \<Rightarrow> CalculateHMAC (HMACKey keys) message)"

definition client_verifyHMAC :: "Client \<Rightarrow> bytes \<Rightarrow> bytes \<Rightarrow> bool res" where
  "client_verifyHMAC c message hmac =
     (case cl_keyDerivation c of
        None \<Rightarrow> Inl (Panic ''nil pointer dereference'')
      | Some keys \<Rightarrow> VerifyHMAC (HMACKey keys) message hmac)"

text \<open>What was decrypted, once its last 16 bytes are found to be the HMAC of the others.\<close>

definition check_reply :: "nat \<Rightarrow> bytes \<Rightarrow> Client \<Rightarrow> bytes res \<times> Client" where
  "check_reply expectedLen plaintext c =
     (let messageLen = expectedLen - 16;
          hmacPrefix = (if cl_serverStartHMACPending c then cl_serverStartBytes c else [])
      in case cl_keyDerivation c of
           None \<Rightarrow> (Inl (Panic ''nil pointer dereference''), c)
         | Some keys \<Rightarrow>
            (case CalculateHMACWithPrefix (HMACKey keys) hmacPrefix (take messageLen plaintext) of
               Inl e \<Rightarrow> (Inl e, c)
             | Inr calculated \<Rightarrow>
                if calculated \<noteq> drop messageLen plaintext then (Inl ErrHMACVerificationFailed, c)
                else (Inr plaintext, c\<lparr>cl_serverStartHMACPending := False\<rparr>)))"

definition receiveAndVerify :: "nat \<Rightarrow> bool \<Rightarrow> Client \<Rightarrow> bytes res \<times> Client" where
  "receiveAndVerify expectedLen includeHMAC c =
     (case client_ReadFull expectedLen c of
        (Inl e, c) \<Rightarrow> (Inl e, c)
      | (Inr buf, c) \<Rightarrow>
         if includeHMAC then
           (case cl_controlDecrypt c of
              None \<Rightarrow> (Inl (Errorf ''control decryption not initialized''), c)
            | Some stream \<Rightarrow>
               (case CBCStream_Decrypt stream buf of
                  (Inl e, stream) \<Rightarrow> (Inl e, c\<lparr>cl_controlDecrypt := Some stream\<rparr>)
                | (Inr plaintext, stream) \<Rightarrow>
                    check_reply expectedLen plaintext (c\<lparr>cl_controlDecrypt := Some stream\<rparr>)))
         else if expectedLen < 16 then (Inl ErrInvalidMessageLength, c)
         else if list_ex (\<lambda>i. buf ! i \<noteq> 0) [expectedLen - 16 ..< expectedLen]
         then (Inl ErrInvalidMBZ, c)
         else (Inr buf, c))"

definition sendWithHMAC :: "client_env \<Rightarrow> bytes \<Rightarrow> bool \<Rightarrow> Client \<Rightarrow> unit res \<times> Client" where
  "sendWithHMAC env message addHMAC c =
     (if cl_mode c = ModeUnauthenticated \<or> \<not> addHMAC then client_Write env message c
      else
        (case calculateHMAC c message of
           Inl e \<Rightarrow> (Inl e, c)
         | Inr hmac \<Rightarrow>
            (let messageWithHMAC = message @ hmac in
             if cl_mode c = ModeEncrypted then
               (case cl_keyDerivation c of
                  None \<Rightarrow> (Inl (Panic ''nil pointer dereference''), c)
                | Some keys \<Rightarrow>
                   (case EncryptTWAMPControlMessage (AESKey keys) (ClientIV keys) messageWithHMAC of
                      Inl e \<Rightarrow> (Inl e, c)
                    | Inr encryptedMsg \<Rightarrow> client_Write env encryptedMsg c))
             else client_Write env messageWithHMAC c)))"

definition client_sendControlMessage :: "client_env \<Rightarrow> bytes \<Rightarrow> bool \<Rightarrow> Client \<Rightarrow> unit res \<times> Client" where
  "client_sendControlMessage env message includeHMAC c =
     (if length message < 16 then (Inl ErrInvalidMessageLength, c)
      else if includeHMAC then
        (case cl_controlEncrypt c of
           None \<Rightarrow> (Inl (Errorf ''control encryption not initialized''), c)
         | Some stream \<Rightarrow>
            (let messageLen = length message - 16 in
             case calculateHMAC c (take messageLen message) of
               Inl e \<Rightarrow> (Inl e, c)
             | Inr hmac \<Rightarrow>
                (case CBCStream_Encrypt stream (copy_at message messageLen (length message) hmac) of
                   (Inl e, stream) \<Rightarrow> (Inl e, c\<lparr>cl_controlEncrypt := Some stream\<rparr>)
                 | (Inr encrypted, stream) \<Rightarrow>
                     client_Write env encrypted (c\<lparr>cl_controlEncrypt := Some stream\<rparr>))))
      else client_Write env (take (length message - 16) message @ zeros 16) c)"

section \<open>Requesting a session\<close>

definition calculateMinPadding :: "mode \<Rightarrow> u32" where
  "calculateMinPadding m =
     (let baseMode = m AND securityMask in
      if baseMode = ModeUnauthenticated then 27
      else if baseMode = ModeAuthenticated then 56
      else if baseMode = ModeEncrypted then 56
      else 0)"

text \<open>The defaults of both request operations.\<close>

definition complete_config :: "Client \<Rightarrow> TestSessionConfig \<Rightarrow> TestSessionConfig res" where
  "complete_config c config =
     (let minPadding = calculateMinPadding (cl_testMode c);
          config = (if tc_PaddingLength config < minPadding \<and> 0 < minPadding
                    then config\<lparr>tc_PaddingLength := minPadding\<rparr> else config);
          config = (if tc_Timeout config = 0 then config\<lparr>tc_Timeout := 3 * time_Second\<rparr> else config)
      in if tc_ReceiverAddress config = [] then
           (case SplitHostPort (cn_ServerAddress (cl_config c)) of
              Inl e \<Rightarrow> Inl (Wrap ''failed to parse server address'' [e])
            | Inr (host, _) \<Rightarrow> Inr (config\<lparr>tc_ReceiverAddress := host\<rparr>))
         else Inr config)"

definition request_message ::
    "client_env \<Rightarrow> u8 \<Rightarrow> session_id \<Rightarrow> TestSessionConfig \<Rightarrow> RequestTWSession res" where
  "request_message env command sid config =
     (case parseAndValidateIP (ce_ParseIP env) (tc_ReceiverAddress config) of
        Inl e \<Rightarrow> Inl e
      | Inr (isIPv6, ipBytes) \<Rightarrow>
          Inr (RequestTWSession_zero\<lparr>rts_Command := command,
             rts_IPVN := (if isIPv6 then 6 else 4),
             rts_SenderPort := tc_SenderPort config, rts_ReceiverPort := tc_ReceiverPort config,
             rts_PaddingLength := tc_PaddingLength config,
             rts_TypePDescriptor := push_bit 18 (ucast (tc_DSCP config)), rts_SID := sid,
             rts_ReceiverAddress :=
               (if isIPv6 then copy_at (zeros 16) 0 16 ipBytes else copy_at (zeros 16) 0 4 ipBytes),
             rts_Timeout := \<lparr>Seconds = word_of_int (quot (tc_Timeout config) time_Second),
               Fraction = nanos_to_uint32 (ce_conv env) (remn (tc_Timeout config) time_Second)\<rparr>,
             rts_StartTime := \<lparr>Seconds = 0, Fraction = 0\<rparr>\<rparr>))"

text \<open>
  The answer to a request. \<open>expected\<close> is the identifier that an individual request asked for. The
  result is the place of the session in the heap.
\<close>

definition receive_accept ::
    "session_id option \<Rightarrow> TestSessionConfig \<Rightarrow> Client \<Rightarrow> nat res \<times> Client" where
  "receive_accept expected config c =
     (case receiveAndVerify AcceptSessionSize (client_controlAuth c) c of
        (Inl e, c) \<Rightarrow> (Inl (wrap_err ''failed to receive accept session response'' e), c)
      | (Inr respData, c) \<Rightarrow>
     (case AcceptSession_Unmarshal AcceptSession_zero respData (client_controlAuth c) of
        Inl e \<Rightarrow> (Inl (Wrap ''failed to unmarshal accept session'' [e]), c)
      | Inr acceptSession \<Rightarrow>
         if as_Accept acceptSession \<noteq> AcceptOK then (Inl (TWAMPError (as_Accept acceptSession)), c)
         else if expected \<noteq> None \<and> expected \<noteq> Some (as_SID acceptSession)
         then (Inl (Errorf ''server returned different SID: expected %x, got %x''), c)
         else
     (let config = (if as_Port acceptSession \<noteq> 0 \<and> as_Port acceptSession \<noteq> tc_ReceiverPort config
                    then config\<lparr>tc_ReceiverPort := as_Port acceptSession\<rparr> else config)
      in case NewTestSession config (as_SID acceptSession) (cl_testMode c) (cl_keyDerivation c) of
           Inl e \<Rightarrow> (Inl (Wrap ''failed to create test session'' [e]), c)
         | Inr session \<Rightarrow>
             (Inr (length (cl_heap c)),
              c\<lparr>cl_heap := cl_heap c @ [session],
                cl_currentSessions := (cl_currentSessions c)(as_SID acceptSession \<mapsto> length (cl_heap c))\<rparr>))))"

definition RequestSession :: "client_env \<Rightarrow> TestSessionConfig \<Rightarrow> Client \<Rightarrow> nat res \<times> Client" where
  "RequestSession env config c =
     (case complete_config c config of
        Inl e \<Rightarrow> (Inl e, c)
      | Inr config \<Rightarrow>
     (case request_message env CmdRequestTWSession zeroSID config of
        Inl e \<Rightarrow> (Inl e, c)
      | Inr request \<Rightarrow>
     (case RequestTWSession_Marshal request False of
        Inl e \<Rightarrow> (Inl (Wrap ''failed to marshal request'' [e]), c)
      | Inr data \<Rightarrow>
     (case client_sendControlMessage env data (client_controlAuth c) c of
        (Inl e, c) \<Rightarrow> (Inl (wrap_err ''failed to send request'' e), c)
      | (Inr _, c) \<Rightarrow> receive_accept None config c))))"

definition RequestSessionIndividual ::
    "client_env \<Rightarrow> TestSessionConfig \<Rightarrow> session_id \<Rightarrow> Client \<Rightarrow> nat res \<times> Client" where
  "RequestSessionIndividual env config sid c =
     (if cl_currentSessions c sid \<noteq> None then (Inl (Wrap ''%w: %x'' [ErrSessionConflict]), c)
      else
     (case complete_config c config of
        Inl e \<Rightarrow> (Inl e, c)
      | Inr config \<Rightarrow>
     (case request_message env CmdRequestTWSessionIndividual sid config of
        Inl e \<Rightarrow> (Inl e, c)
      | Inr request \<Rightarrow>
     (case RequestTWSessionIndividual_Marshal request False of
        Inl e \<Rightarrow> (Inl (Wrap ''failed to marshal request'' [e]), c)
      | Inr data \<Rightarrow>
     (case client_sendControlMessage env data (client_controlAuth c) c of
        (Inl e, c) \<Rightarrow> (Inl (wrap_err ''failed to send request'' e), c)
      | (Inr _, c) \<Rightarrow> receive_accept (Some sid) config c)))))"

section \<open>Starting and stopping\<close>

definition client_pointers :: "client_env \<Rightarrow> Client \<Rightarrow> nat list" where
  "client_pointers env c = pointers (cl_currentSessions c) (ce_order env)"

definition set_session :: "nat \<Rightarrow> SenderSession \<Rightarrow> Client \<Rightarrow> Client" where
  "set_session p ts c = c\<lparr>cl_heap := (cl_heap c)[p := ts]\<rparr>"

definition start_at :: "client_env \<Rightarrow> nat \<Rightarrow> Client \<Rightarrow> unit res \<times> Client" where
  "start_at env p c =
     (case Session_Start (ce_listen env (sn_sid (cl_heap c ! p))) (cl_heap c ! p) of
        (r, ts) \<Rightarrow> (r, set_session p ts c))"

fun start_sessions :: "client_env \<Rightarrow> nat list \<Rightarrow> Client \<Rightarrow> unit res \<times> Client" where
  "start_sessions env [] c = (Inr (), c)"
| "start_sessions env (p # ps) c =
     (if Session_IsActive (cl_heap c ! p) then start_sessions env ps c
      else
        (case start_at env p c of
           (Inl e, c) \<Rightarrow> (Inl (Wrap ''failed to start test session'' [e]), c)
         | (Inr _, c) \<Rightarrow> start_sessions env ps c))"

definition StartSessions_client :: "client_env \<Rightarrow> Client \<Rightarrow> unit res \<times> Client" where
  "StartSessions_client env c =
     (if client_pointers env c = [] then (Inl ErrNoSessionsToStart, c)
      else
     (case StartSessions_Marshal (StartSessions_zero\<lparr>sts_Command := CmdStartSessions\<rparr>) False of
        Inl e \<Rightarrow> (Inl (Wrap ''failed to marshal start command'' [e]), c)
      | Inr data \<Rightarrow>
     (case client_sendControlMessage env data (client_controlAuth c) c of
        (Inl e, c) \<Rightarrow> (Inl (wrap_err ''failed to send start command'' e), c)
      | (Inr _, c) \<Rightarrow>
     (case receiveAndVerify StartAckSize (client_controlAuth c) c of
        (Inl e, c) \<Rightarrow> (Inl (wrap_err ''failed to receive start ack'' e), c)
      | (Inr respData, c) \<Rightarrow>
     (case StartAck_Unmarshal StartAck_zero respData (client_controlAuth c) of
        Inl e \<Rightarrow> (Inl (Wrap ''failed to unmarshal start ack'' [e]), c)
      | Inr startAck \<Rightarrow>
         if sa_Accept startAck \<noteq> AcceptOK then (Inl (TWAMPError (sa_Accept startAck)), c)
         else start_sessions env (client_pointers env c) c)))))"

text \<open>Stopping some sessions: the errors of all of them are collected.\<close>

fun stop_each ::
    "(SenderSession \<Rightarrow> unit res \<times> SenderSession) \<Rightarrow> nat list \<Rightarrow> Client \<Rightarrow> goerr list \<times> Client" where
  "stop_each stopFunc [] c = ([], c)"
| "stop_each stopFunc (p # ps) c =
     (case stopFunc (cl_heap c ! p) of
        (r, ts) \<Rightarrow>
          (case stop_each stopFunc ps (set_session p ts c) of
             (errs, c) \<Rightarrow>
               ((case r of Inl e \<Rightarrow> [Wrap ''session %x: %w'' [e]] | Inr _ \<Rightarrow> []) @ errs, c)))"

definition stopSessionsWith ::
    "client_env \<Rightarrow> (SenderSession \<Rightarrow> unit res \<times> SenderSession) \<Rightarrow> Client \<Rightarrow> unit res \<times> Client" where
  "stopSessionsWith env stopFunc c =
     (if client_pointers env c = [] then (Inr (), c)
      else
     (case StopSessions_Marshal (StopSessions_zero\<lparr>stp_Command := CmdStopSessions, stp_Accept := AcceptOK,
             stp_NumSessions := of_nat (length (client_pointers env c))\<rparr>) False of
        Inl e \<Rightarrow> (Inl (Wrap ''failed to marshal stop command'' [e]), c)
      | Inr data \<Rightarrow>
     (case client_sendControlMessage env data (client_controlAuth c) c of
        (Inl e, c) \<Rightarrow> (Inl (wrap_err ''failed to send stop command'' e), c)
      | (Inr _, c) \<Rightarrow>
         (case stop_each stopFunc (client_pointers env c) c of
            (stopErrs, c) \<Rightarrow>
              (if stopErrs \<noteq> [] then Inl (Wrap ''errors.Join'' stopErrs) else Inr (),
               c\<lparr>cl_currentSessions := Map.empty\<rparr>)))))"

definition session_stop :: "client_env \<Rightarrow> SenderSession \<Rightarrow> unit res \<times> SenderSession" where
  "session_stop env ts = Session_Stop (ce_close env (sn_sid ts)) ts"

definition StopSessions_client :: "client_env \<Rightarrow> Client \<Rightarrow> unit res \<times> Client" where
  "StopSessions_client env c = stopSessionsWith env (session_stop env) c"

definition StopNSessions_client :: "client_env \<Rightarrow> u32 \<Rightarrow> Client \<Rightarrow> unit res \<times> Client" where
  "StopNSessions_client env numSessions c =
     (let sessionIDs = sort (filter (\<lambda>sid. cl_currentSessions c sid \<noteq> None) (ce_order env));
          stopCount = min (unat numSessions) (length sessionIDs);
          selected = take stopCount sessionIDs
      in case StopNSessions_Marshal (StopNSessions_zero\<lparr>sns_Command := CmdStopNSessions,
                sns_NumSessions := of_nat stopCount, sns_SessionIDs := selected\<rparr>) False of
           Inl e \<Rightarrow> (Inl (Wrap ''failed to marshal stop-n-sessions command'' [e]), c)
         | Inr data \<Rightarrow>
        (case client_sendControlMessage env data (client_controlAuth c) c of
           (Inl e, c) \<Rightarrow> (Inl (wrap_err ''failed to send stop-n-sessions command'' e), c)
         | (Inr _, c) \<Rightarrow>
            (case stop_each (session_stop env) (pointers (cl_currentSessions c) selected) c of
               (_, c) \<Rightarrow>
                 (Inr (), c\<lparr>cl_currentSessions := fold (\<lambda>sid m. m(sid := None)) selected (cl_currentSessions c)\<rparr>))))"

text \<open>Single sessions. \<open>StartSession\<close> starts its session here and then all of them at the server.\<close>

definition StartSession :: "client_env \<Rightarrow> session_id \<Rightarrow> Client \<Rightarrow> unit res \<times> Client" where
  "StartSession env sid c =
     (case cl_currentSessions c sid of
        None \<Rightarrow> (Inl (Wrap ''%w: %x'' [ErrSessionNotFound]), c)
      | Some p \<Rightarrow>
         (case start_at env p c of
            (Inl e, c) \<Rightarrow> (Inl (Wrap ''failed to start test session %x: %w'' [e]), c)
          | (Inr _, c) \<Rightarrow> StartSessions_client env c))"

definition StopSession :: "client_env \<Rightarrow> session_id \<Rightarrow> Client \<Rightarrow> unit res \<times> Client" where
  "StopSession env sid c =
     (case cl_currentSessions c sid of
        None \<Rightarrow> (Inl (Wrap ''%w: %x'' [ErrSessionNotFound]), c)
      | Some p \<Rightarrow>
         (case session_stop env (cl_heap c ! p) of
            (Inl e, ts) \<Rightarrow> (Inl (Wrap ''failed to stop test session %x: %w'' [e]), set_session p ts c)
          | (Inr _, ts) \<Rightarrow>
              (Inr (), (set_session p ts c)\<lparr>cl_currentSessions := (cl_currentSessions c)(sid := None)\<rparr>)))"

definition GetSession :: "session_id \<Rightarrow> Client \<Rightarrow> nat res" where
  "GetSession sid c =
     (case cl_currentSessions c sid of
        None \<Rightarrow> Inl (Wrap ''%w: %x'' [ErrSessionNotFound])
      | Some p \<Rightarrow> Inr p)"

definition GetSessionIDs :: "client_env \<Rightarrow> Client \<Rightarrow> session_id list" where
  "GetSessionIDs env c = filter (\<lambda>sid. cl_currentSessions c sid \<noteq> None) (ce_order env)"

text \<open>The errors of stopping the sessions are dropped.\<close>

definition Client_Close :: "client_env \<Rightarrow> Client \<Rightarrow> unit res \<times> Client" where
  "Client_Close env c =
     (case StopSessions_client env c of
        (Inl (Panic s), c) \<Rightarrow> (Inl (Panic s), c)
      | (_, c) \<Rightarrow>
          if cl_conn c \<noteq> Nil_handle then (ce_conn_close env, c\<lparr>cl_conn := Nil_handle\<rparr>)
          else (Inr (), c))"

end
