(* ===== verification/Client_Promises.thy ===== *)
theory Client_Promises
  imports Client_Control
begin

text \<open>
  What the control client promises by itself: which sessions its map leads to in every use of the
  library, what stopping leaves behind, and what becomes of a server address without a port.
\<close>

section \<open>What input and output leave alone\<close>

definition same_sessions :: "Client \<Rightarrow> Client \<Rightarrow> bool" where
  "same_sessions c c' \<longleftrightarrow> cl_currentSessions c' = cl_currentSessions c \<and> cl_heap c' = cl_heap c"

named_theorems frames \<open>operations that leave the sessions alone\<close>

lemma same_sessions_refl [simp]: "same_sessions c c"
  by (simp add: same_sessions_def)

lemma same_sessions_trans: "same_sessions a b \<Longrightarrow> same_sessions b c \<Longrightarrow> same_sessions a c"
  by (simp add: same_sessions_def)

lemma client_Write_frame [frames]: "same_sessions c (snd (client_Write env b c))"
  by (simp add: client_Write_def same_sessions_def split: sum.split)

lemma client_ReadFull_frame [frames]: "same_sessions c (snd (client_ReadFull n c))"
  by (simp add: client_ReadFull_def same_sessions_def)

lemma check_reply_frame [frames]: "same_sessions c (snd (check_reply n b c))"
  by (simp add: check_reply_def same_sessions_def Let_def split: option.split sum.split)

text \<open>A frame that is passed on through a call.\<close>

lemma frame_via: "f = (r, c') \<Longrightarrow> same_sessions c (snd f) \<Longrightarrow> same_sessions c c'"
  by simp

lemma client_sendControlMessage_frame [frames]: "same_sessions c (snd (client_sendControlMessage env m auth c))"
proof -
  have "same_sessions c (snd (client_Write env b (c\<lparr>cl_controlEncrypt := x\<rparr>)))" for b x
    using client_Write_frame [of "c\<lparr>cl_controlEncrypt := x\<rparr>" env b] by (simp add: same_sessions_def)
  then show ?thesis
    using client_Write_frame [of c env]
    by (simp add: client_sendControlMessage_def Let_def same_sessions_def split: option.split sum.split prod.split)
qed

lemma receiveAndVerify_frame [frames]: "same_sessions c (snd (receiveAndVerify n auth c))"
proof -
  obtain r c1 where c1: "client_ReadFull n c = (r, c1)" by fastforce
  have f: "same_sessions c c1" using frame_via [OF c1 client_ReadFull_frame] .
  have "same_sessions c (snd (check_reply k b (c1\<lparr>cl_controlDecrypt := x\<rparr>)))" for k b x
    using f check_reply_frame [of "c1\<lparr>cl_controlDecrypt := x\<rparr>" k b] by (simp add: same_sessions_def)
  with f show ?thesis
    by (simp add: receiveAndVerify_def c1 same_sessions_def split: option.split sum.split prod.split)
qed

lemma receiveServerStart_frame [frames]: "same_sessions c (snd (receiveServerStart c))"
  using client_ReadFull_frame [of c 48]
  by (auto simp: receiveServerStart_def same_sessions_def Let_def split: sum.split prod.split)

lemma receiveServerGreeting_frame [frames]: "same_sessions c (snd (receiveServerGreeting c))"
proof -
  obtain r c1 where c1: "client_ReadFull 64 c = (r, c1)" by fastforce
  have "same_sessions c c1" using frame_via [OF c1 client_ReadFull_frame] .
  then show ?thesis by (simp add: receiveServerGreeting_def c1 split: sum.split goerr.split)
qed

lemma setup_response_frame [frames]: "same_sessions c (snd (setup_response env g b m c))"
  by (simp add: setup_response_def same_sessions_def Let_def split: sum.split prod.split)

lemma finish_setup_frame [frames]: "same_sessions c (snd (finish_setup b m ss c))"
  by (simp add: finish_setup_def same_sessions_def Let_def split: sum.split prod.split option.split)

lemma negotiateMode_frame [frames]: "same_sessions c (snd (negotiateMode env g c))"
proof -
  define p where "p = cn_PreferredMode (cl_config c)"
  show ?thesis
  proof (cases "base_security p (sg_Modes g)")
    case (Inl e)
    then show ?thesis by (simp add: negotiateMode_def p_def split: sum.split)
  next
    case (Inr b)
    obtain r1 c1 where 1: "setup_response env g b (selected_mode b p (sg_Modes g)) c = (r1, c1)" by fastforce
    have f1: "same_sessions c c1" using frame_via [OF 1 setup_response_frame] .
    have f2: "same_sessions c (snd (client_Write env data c1))" for data
      using f1 client_Write_frame same_sessions_trans by blast
    have f3: "client_Write env data c1 = (r, c2) \<Longrightarrow> receiveServerStart c2 = (r', c3) \<Longrightarrow> same_sessions c c3" for data r c2 r' c3
      using f2 [of data] receiveServerStart_frame [of c2] same_sessions_trans by (metis snd_conv)
    have f4: "same_sessions c c3 \<Longrightarrow> same_sessions c (snd (finish_setup b m ss c3))" for m ss c3
      using finish_setup_frame same_sessions_trans by blast
    show ?thesis
      using f1 f2 f3 f4 Inr 1 unfolding p_def
      by (auto simp: negotiateMode_def Let_def split: sum.split prod.split) (metis snd_conv)+
  qed
qed

lemma Connect_frame [frames]: "same_sessions c (snd (Connect env c))"
proof (cases "ce_dial env (case SplitHostPort (cn_ServerAddress (cl_config c)) of
    Inl e \<Rightarrow> JoinHostPort (cn_ServerAddress (cl_config c)) ''862'' | Inr _ \<Rightarrow> cn_ServerAddress (cl_config c))")
  case (Inl e)
  then show ?thesis by (simp add: Connect_def Let_def)
next
  case (Inr input)
  let ?c = "c\<lparr>cl_conn := Open_handle, cl_in := input, cl_out := []\<rparr>"
  obtain r c1 where 1: "receiveServerGreeting ?c = (r, c1)" by fastforce
  have f1: "same_sessions c c1"
    using frame_via [OF 1 receiveServerGreeting_frame] by (simp add: same_sessions_def)
  have f2: "same_sessions c (snd (negotiateMode env g c1))" for g
    using f1 negotiateMode_frame same_sessions_trans by blast
  have "same_sessions c (c2\<lparr>cl_conn := h\<rparr>) = same_sessions c c2" for c2 h by (simp add: same_sessions_def)
  then show ?thesis
    using f1 f2 by (auto simp: Connect_def Let_def Inr 1 split: sum.split prod.split) (metis snd_conv)+
qed

section \<open>What every operation keeps\<close>

text \<open>
  The four ways in which an operation of the client changes what its map leads to: not at all, one session
  object that keeps its identifier, fewer entries, or one more session under its identifier. What these
  four keep, every operation keeps.
\<close>

definition add_session :: "session_id \<Rightarrow> SenderSession \<Rightarrow> Client \<Rightarrow> Client" where
  "add_session sid ts c = c\<lparr>cl_heap := cl_heap c @ [ts],
     cl_currentSessions := (cl_currentSessions c)(sid \<mapsto> length (cl_heap c))\<rparr>"

lemma Session_Start_sid: "sn_sid (snd (Session_Start l ts)) = sn_sid ts"
  by (simp add: Session_Start_def Let_def)

lemma Session_Stop_sid: "sn_sid (snd (Session_Stop r ts)) = sn_sid ts"
  by (simp add: Session_Stop_def Let_def)

lemma session_stop_sid: "sn_sid (snd (session_stop env ts)) = sn_sid ts"
  by (simp add: session_stop_def Session_Stop_sid)

lemma NewTestSession_sid: "NewTestSession config sid m keys = Inr ts \<Longrightarrow> sn_sid ts = sid"
  by (auto simp: NewTestSession_def Let_def split: option.splits if_splits sum.splits)

lemma SendTestPacket_sid: "sn_sid (snd (SendTestPacket now sy rnd resolve wr ts)) = sn_sid ts"
  by (simp add: SendTestPacket_def Let_def split: sum.split)

lemma processReceivedPacket_sid: "sn_sid (snd (processReceivedPacket rx tx packet t ts)) = sn_sid ts"
  by (simp add: processReceivedPacket_def record_rtt_def Let_def split: sum.split option.split)

text \<open>What an accepted request does to the sessions.\<close>

lemma receive_accept_effect:
  "\<exists>c1. same_sessions c c1 \<and> (snd (receive_accept expected config c) = c1 \<or>
     (\<exists>sid ts. sn_sid ts = sid \<and> snd (receive_accept expected config c) = add_session sid ts c1))"
proof -
  obtain r c1 where 1: "receiveAndVerify AcceptSessionSize (client_controlAuth c) c = (r, c1)" by fastforce
  have f: "same_sessions c c1" using frame_via [OF 1 receiveAndVerify_frame] .
  show ?thesis
  proof (cases r)
    case (Inl e)
    then show ?thesis using f 1 by (auto simp: receive_accept_def)
  next
    case (Inr b)
    show ?thesis
    proof (cases "AcceptSession_Unmarshal AcceptSession_zero b (client_controlAuth c1)")
      case (Inl e)
      then show ?thesis using f 1 Inr by (auto simp: receive_accept_def)
    next
      case a: (Inr a)
      define config' where "config' = (if as_Port a \<noteq> 0 \<and> as_Port a \<noteq> tc_ReceiverPort config
        then config\<lparr>tc_ReceiverPort := as_Port a\<rparr> else config)"
      show ?thesis
      proof (cases "NewTestSession config' (as_SID a) (cl_testMode c1) (cl_keyDerivation c1)")
        case (Inl e)
        then show ?thesis
          using f 1 Inr a unfolding config'_def
          by (intro exI [of _ c1]) (simp add: receive_accept_def Let_def)
      next
        case t: (Inr ts)
        have "snd (receive_accept expected config c) = c1 \<or>
            snd (receive_accept expected config c) = add_session (as_SID a) ts c1"
          using 1 Inr a t unfolding config'_def by (simp add: receive_accept_def add_session_def Let_def)
        then show ?thesis using f NewTestSession_sid [OF t] by blast
      qed
    qed
  qed
qed

lemma fold_remove: "fold (\<lambda>sid m. m(sid := None)) sids m \<subseteq>\<^sub>m m"
proof (induction sids arbitrary: m)
  case (Cons sid sids)
  have "fold (\<lambda>sid m. m(sid := None)) sids (m(sid := None)) \<subseteq>\<^sub>m m(sid := None)" by (rule Cons.IH)
  also have "m(sid := None) \<subseteq>\<^sub>m m" by (simp add: map_le_def)
  finally show ?case by (simp only: fold_simps)
qed simp

section \<open>Uses of the library\<close>

text \<open>
  What a program may do with a client, in any order: its operations, and those of the sessions it has been
  given, also after they have left the client's map.
\<close>

inductive client_run :: "Client \<Rightarrow> Client \<Rightarrow> bool" for c0 where
  fresh: "client_run c0 c0"
| connects: "client_run c0 c \<Longrightarrow> client_run c0 (snd (Connect env c))"
| requests: "client_run c0 c \<Longrightarrow> client_run c0 (snd (RequestSession env config c))"
| requests_one: "client_run c0 c \<Longrightarrow> client_run c0 (snd (RequestSessionIndividual env config sid c))"
| starts: "client_run c0 c \<Longrightarrow> client_run c0 (snd (StartSessions_client env c))"
| starts_one: "client_run c0 c \<Longrightarrow> client_run c0 (snd (StartSession env sid c))"
| stops: "client_run c0 c \<Longrightarrow> client_run c0 (snd (StopSessions_client env c))"
| stops_n: "client_run c0 c \<Longrightarrow> client_run c0 (snd (StopNSessions_client env n c))"
| stops_one: "client_run c0 c \<Longrightarrow> client_run c0 (snd (StopSession env sid c))"
| closes: "client_run c0 c \<Longrightarrow> client_run c0 (snd (Client_Close env c))"
| session_starts: "client_run c0 c \<Longrightarrow> client_run c0 (snd (start_at env p c))"
| session_stops: "client_run c0 c \<Longrightarrow> client_run c0 (set_session p (snd (session_stop env (cl_heap c ! p))) c)"
| session_sends: "client_run c0 c \<Longrightarrow>
    client_run c0 (set_session p (snd (SendTestPacket now sy rnd resolve wr (cl_heap c ! p))) c)"
| session_receives: "client_run c0 c \<Longrightarrow>
    client_run c0 (set_session p (snd (processReceivedPacket rx tx packet t (cl_heap c ! p))) c)"

locale client_invariant =
  fixes P :: "Client \<Rightarrow> bool"
  assumes frame: "P c \<Longrightarrow> same_sessions c c' \<Longrightarrow> P c'"
    and updated: "P c \<Longrightarrow> sn_sid ts = sn_sid (cl_heap c ! p) \<Longrightarrow> P (set_session p ts c)"
    and removed: "P c \<Longrightarrow> m \<subseteq>\<^sub>m cl_currentSessions c \<Longrightarrow> P (c\<lparr>cl_currentSessions := m\<rparr>)"
    and added: "P c \<Longrightarrow> sn_sid ts = sid \<Longrightarrow> P (add_session sid ts c)"
begin

lemma via: "f = (r, c') \<Longrightarrow> P (snd f) \<Longrightarrow> P c'"
  by simp

lemma framed: "P c \<Longrightarrow> same_sessions c (snd f) \<Longrightarrow> P (snd f)"
  using frame by blast

lemma holds_accept: "P c \<Longrightarrow> P (snd (receive_accept expected config c))"
  using receive_accept_effect [of c expected config] frame added by metis

lemma holds_send: "P c \<Longrightarrow> client_sendControlMessage env m auth c = (r, c') \<Longrightarrow> P c'"
  using framed client_sendControlMessage_frame by (metis snd_conv)

lemma holds_receive: "P c \<Longrightarrow> receiveAndVerify n auth c = (r, c') \<Longrightarrow> P c'"
  using framed receiveAndVerify_frame by (metis snd_conv)

lemma holds_request: "P c \<Longrightarrow> P (snd (RequestSession env config c))"
  using holds_accept holds_send by (fastforce simp: RequestSession_def split: sum.split prod.split)

lemma holds_individual: "P c \<Longrightarrow> P (snd (RequestSessionIndividual env config sid c))"
  using holds_accept holds_send by (fastforce simp: RequestSessionIndividual_def split: sum.split prod.split)

lemma holds_start_at: "P c \<Longrightarrow> P (snd (start_at env p c))"
  using updated [of c "snd (Session_Start (ce_listen env (sn_sid (cl_heap c ! p))) (cl_heap c ! p))" p] Session_Start_sid
  by (simp add: start_at_def split: prod.split) (metis snd_conv)

lemma holds_start_all: "P c \<Longrightarrow> P (snd (start_sessions env ps c))"
proof (induction ps arbitrary: c)
  case (Cons p ps)
  obtain r c1 where 1: "start_at env p c = (r, c1)" by fastforce
  have "P c1" using via [OF 1 holds_start_at] Cons.prems by blast
  then show ?case using Cons 1 by (simp split: sum.split)
qed simp

lemma holds_starts: "P c \<Longrightarrow> P (snd (StartSessions_client env c))"
proof -
  assume P: "P c"
  show ?thesis
  proof (cases "StartSessions_Marshal (StartSessions_zero\<lparr>sts_Command := CmdStartSessions\<rparr>) False")
    case (Inl e)
    then show ?thesis using P by (simp add: StartSessions_client_def)
  next
    case (Inr data)
    obtain r1 c1 where 1: "client_sendControlMessage env data (client_controlAuth c) c = (r1, c1)" by fastforce
    obtain r2 c2 where 2: "receiveAndVerify StartAckSize (client_controlAuth c1) c1 = (r2, c2)" by fastforce
    have "P c1" "P c2" using P holds_send [OF P 1] holds_receive [OF _ 2] by blast+
    then show ?thesis
      using P Inr 1 2 holds_start_all by (simp add: StartSessions_client_def split: sum.split)
  qed
qed

lemma holds_stop_each:
  "P c \<Longrightarrow> (\<And>ts. sn_sid (snd (f ts)) = sn_sid ts) \<Longrightarrow> P (snd (stop_each f ps c))"
proof (induction ps arbitrary: c)
  case (Cons p ps)
  have "P (set_session p (snd (f (cl_heap c ! p))) c)" using Cons.prems updated by blast
  then show ?case using Cons by (simp split: prod.split) (metis snd_conv)
qed simp

lemma holds_stop_with:
  assumes "P c" and "\<And>ts. sn_sid (snd (f ts)) = sn_sid ts"
  shows "P (snd (stopSessionsWith env f c))"
proof (cases "StopSessions_Marshal (StopSessions_zero\<lparr>stp_Command := CmdStopSessions, stp_Accept := AcceptOK,
    stp_NumSessions := of_nat (length (client_pointers env c))\<rparr>) False")
  case (Inl e)
  then show ?thesis using assms by (simp add: stopSessionsWith_def)
next
  case (Inr data)
  obtain r1 c1 where 1: "client_sendControlMessage env data (client_controlAuth c) c = (r1, c1)" by fastforce
  obtain es c2 where 2: "stop_each f (client_pointers env c1) c1 = (es, c2)" by fastforce
  have "P c1" "P c2" using assms holds_send [OF assms(1) 1] via [OF 2 holds_stop_each] by blast+
  then show ?thesis
    using assms(1) Inr 1 2 removed [of c2 Map.empty] by (simp add: stopSessionsWith_def split: sum.split)
qed

lemma holds_stop: "P c \<Longrightarrow> P (snd (StopSessions_client env c))"
  unfolding StopSessions_client_def by (rule holds_stop_with) (rule session_stop_sid | assumption)+

lemma holds_stop_n: "P c \<Longrightarrow> P (snd (StopNSessions_client env n c))"
proof -
  assume P: "P c"
  define ids where "ids = take (min (unat n) (length (sort (filter (\<lambda>sid. cl_currentSessions c sid \<noteq> None) (ce_order env)))))
    (sort (filter (\<lambda>sid. cl_currentSessions c sid \<noteq> None) (ce_order env)))"
  define msg where "msg = StopNSessions_Marshal (StopNSessions_zero\<lparr>sns_Command := CmdStopNSessions,
    sns_NumSessions := of_nat (min (unat n) (length (sort (filter (\<lambda>sid. cl_currentSessions c sid \<noteq> None) (ce_order env))))),
    sns_SessionIDs := ids\<rparr>) False"
  show ?thesis
  proof (cases msg)
    case (Inl e)
    then show ?thesis using P by (simp add: StopNSessions_client_def Let_def msg_def ids_def)
  next
    case (Inr data)
    obtain r1 c1 where 1: "client_sendControlMessage env data (client_controlAuth c) c = (r1, c1)" by fastforce
    obtain es c2 where 2: "stop_each (session_stop env) (pointers (cl_currentSessions c1) ids) c1 = (es, c2)" by fastforce
    have "P c1" "P c2" using P holds_send [OF P 1] via [OF 2 holds_stop_each] session_stop_sid by blast+
    then show ?thesis
      using P Inr 1 2 removed [OF \<open>P c2\<close> fold_remove]
      by (simp add: StopNSessions_client_def Let_def msg_def ids_def split: sum.split)
  qed
qed

lemma holds_start_one: "P c \<Longrightarrow> P (snd (StartSession env sid c))"
  using holds_start_at holds_starts by (auto simp: StartSession_def split: option.split prod.split sum.split) (metis snd_conv)+

lemma holds_stop_one: "P c \<Longrightarrow> P (snd (StopSession env sid c))"
proof (cases "cl_currentSessions c sid")
  case (Some p)
  assume P: "P c"
  obtain r ts where 1: "session_stop env (cl_heap c ! p) = (r, ts)" by fastforce
  have u: "P (set_session p ts c)" using updated [OF P] session_stop_sid [of env "cl_heap c ! p"] 1 by simp
  have "(cl_currentSessions c)(sid := None) \<subseteq>\<^sub>m cl_currentSessions (set_session p ts c)"
    by (simp add: map_le_def set_session_def)
  then show ?thesis using u removed Some 1 by (cases r) (simp_all add: StopSession_def)
qed (simp add: StopSession_def)

lemma holds_close: "P c \<Longrightarrow> P (snd (Client_Close env c))"
proof -
  assume "P c"
  obtain r c1 where 1: "StopSessions_client env c = (r, c1)" by fastforce
  have "P c1" using via [OF 1 holds_stop [OF \<open>P c\<close>]] .
  moreover from this have "P (c1\<lparr>cl_conn := Nil_handle\<rparr>)" by (rule frame) (simp add: same_sessions_def)
  ultimately show ?thesis by (simp add: Client_Close_def 1 split: sum.split goerr.split)
qed

lemma holds_connect: "P c \<Longrightarrow> P (snd (Connect env c))"
  using framed Connect_frame by blast

text \<open>In every use of the library.\<close>

lemma always: "client_run c c' \<Longrightarrow> P c \<Longrightarrow> P c'"
  by (induction rule: client_run.induct)
    (auto intro: holds_connect holds_request holds_individual holds_starts holds_stop holds_stop_n
      holds_start_one holds_stop_one holds_close holds_start_at updated SendTestPacket_sid
      processReceivedPacket_sid session_stop_sid)

end

lemma set_session_fields [simp]:
  "cl_heap (set_session p ts c) = (cl_heap c)[p := ts]"
  "cl_currentSessions (set_session p ts c) = cl_currentSessions c"
  by (simp_all add: set_session_def)

section \<open>The map and the sessions\<close>

text \<open>Every entry leads to an object, and that object has the identifier of the entry.\<close>

definition linked :: "Client \<Rightarrow> bool" where
  "linked c \<longleftrightarrow> (\<forall>sid p. cl_currentSessions c sid = Some p \<longrightarrow>
     p < length (cl_heap c) \<and> sn_sid (cl_heap c ! p) = sid)"

interpretation links: client_invariant linked
proof
  fix c c' assume "linked c" "same_sessions c c'"
  then show "linked c'" by (simp add: linked_def same_sessions_def)
next
  fix c p and ts :: SenderSession assume "linked c" "sn_sid ts = sn_sid (cl_heap c ! p)"
  then show "linked (set_session p ts c)"
    unfolding linked_def by (metis length_list_update nth_list_update_eq nth_list_update_neq set_session_fields)
next
  fix c m assume "linked c" "m \<subseteq>\<^sub>m cl_currentSessions c"
  moreover from this have "m sid = Some p \<Longrightarrow> cl_currentSessions c sid = Some p" for sid p
    by (metis domI map_le_def)
  ultimately show "linked (c\<lparr>cl_currentSessions := m\<rparr>)" unfolding linked_def by simp metis
next
  fix c sid and ts :: SenderSession assume "linked c" "sn_sid ts = sid"
  then show "linked (add_session sid ts c)" by (auto simp: linked_def add_session_def nth_append less_Suc_eq)
qed

section \<open>Stopping\<close>

lemma stop_each_Cons: "stop_each f (p # ps) c =
  (let rest = stop_each f ps (set_session p (snd (f (cl_heap c ! p))) c)
   in ((case fst (f (cl_heap c ! p)) of Inl e \<Rightarrow> [Wrap ''session %x: %w'' [e]] | Inr _ \<Rightarrow> []) @ fst rest, snd rest))"
  by (simp split: prod.split)

declare stop_each.simps(2) [simp del] stop_each_Cons [simp]

lemma stop_each_map [simp]: "cl_currentSessions (snd (stop_each f ps c)) = cl_currentSessions c"
  by (induction ps arbitrary: c) (simp_all add: Let_def)

lemma stop_each_length [simp]: "length (cl_heap (snd (stop_each f ps c))) = length (cl_heap c)"
  by (induction ps arbitrary: c) (simp_all add: Let_def)

lemma stop_each_nth:
  "distinct ps \<Longrightarrow> p < length (cl_heap c) \<Longrightarrow> cl_heap (snd (stop_each f ps c)) ! p =
    (if p \<in> set ps then snd (f (cl_heap c ! p)) else cl_heap c ! p)"
proof (induction ps arbitrary: c)
  case (Cons q ps)
  then show ?case by (cases "q = p") (simp_all add: Let_def)
qed simp

lemma stop_each_errors:
  "distinct ps \<Longrightarrow> \<forall>p \<in> set ps. p < length (cl_heap c) \<Longrightarrow>
    fst (stop_each f ps c) = [] \<longleftrightarrow> (\<forall>p \<in> set ps. fst (f (cl_heap c ! p)) = Inr ())"
proof (induction ps arbitrary: c)
  case (Cons q ps)
  have "(fst (stop_each f ps (set_session q ts c)) = []) = (\<forall>p \<in> set ps. fst (f (cl_heap c ! p)) = Inr ())" for ts
    using Cons by (auto simp: nth_list_update)
  then show ?case by (auto simp: Let_def split: sum.split)
qed simp

lemma session_stop_inactive: "\<not> Session_IsActive (snd (session_stop env ts))"
  by (simp add: session_stop_def Session_Stop_def Session_IsActive_def Let_def)

lemma linked_pointers:
  assumes "linked c" and "order_ok (cl_currentSessions c) (ce_order env)"
  shows "distinct (client_pointers env c) \<and> set (client_pointers env c) = ran (cl_currentSessions c) \<and>
    (\<forall>p \<in> ran (cl_currentSessions c). p < length (cl_heap c))"
proof (intro conjI)
  let ?m = "cl_currentSessions c"
  have "distinct xs \<Longrightarrow> distinct (pointers ?m xs)" for xs
  proof (induction xs)
    case (Cons x xs)
    have "p \<notin> set (pointers ?m xs)" if "?m x = Some p" for p
    proof
      assume "p \<in> set (pointers ?m xs)"
      then obtain y where "y \<in> set xs" "?m y = Some p" by (auto simp: set_pointers)
      with that assms(1) have "y = x" by (metis linked_def)
      with \<open>y \<in> set xs\<close> Cons.prems show False by simp
    qed
    then show ?case using Cons by (cases "?m x") (simp_all add: pointers_def List.map_filter_simps)
  qed (simp add: pointers_def List.map_filter_simps)
  then show "distinct (client_pointers env c)" using assms(2) by (simp add: client_pointers_def order_ok_def)
  show "set (client_pointers env c) = ran ?m"
    using assms(2) by (force simp: client_pointers_def set_pointers order_ok_def ran_def)
  show "\<forall>p \<in> ran ?m. p < length (cl_heap c)" using assms(1) by (auto simp: linked_def ran_def)
qed

section \<open>What the client reads\<close>

definition client_env_ok :: "client_env \<Rightarrow> bool" where
  "client_env_ok env \<longleftrightarrow> (\<forall>b. ce_write env b = Inr ()) \<and> (\<forall>n. \<exists>b. ce_random env n = Inr b \<and> length b = n)"

lemma client_Write_ok:
  "client_env_ok env \<Longrightarrow> cl_conn c = Open_handle \<Longrightarrow>
    client_Write env b c = (Inr (), c\<lparr>cl_out := cl_out c @ [b]\<rparr>)"
  by (simp add: client_Write_def client_env_ok_def)

lemma client_ReadFull_front:
  "cl_conn c = Open_handle \<Longrightarrow> cl_in c = a @ b \<Longrightarrow> length a = n \<Longrightarrow>
    client_ReadFull n c = (Inr a, c\<lparr>cl_in := b\<rparr>)"
  by (simp add: client_ReadFull_def)

lemma receiveServerGreeting_ok:
  assumes "ServerGreeting_ok g" and "ServerGreeting_Marshal g = Inr data" and "sg_Modes g \<noteq> 0"
    and "cl_conn c = Open_handle" and "cl_in c = data @ rest"
  shows "receiveServerGreeting c = (Inr g, c\<lparr>cl_in := rest\<rparr>)"
proof -
  have "length data = 64" using greeting_codec.enc_ok [OF assms(1)] assms(2) by auto
  then show ?thesis
    using greeting_codec.dec_enc [OF assms(1,2), of "[]"] assms(3)
    by (simp add: receiveServerGreeting_def client_ReadFull_front [OF assms(4,5)])
qed

lemma receiveServerStart_ok:
  assumes "ServerStart_ok ss" and "ServerStart_Marshal ss = Inr data"
    and "cl_conn c = Open_handle" and "cl_in c = data @ rest"
  shows "receiveServerStart c = (Inr ss, c\<lparr>cl_in := rest, cl_serverStartBytes := data\<rparr>)"
proof -
  have "length data = 48" using start_codec.enc_ok [OF assms(1)] assms(2) by auto
  then show ?thesis
    using start_codec.dec_enc [OF assms(1,2), of "[]"]
    by (simp add: receiveServerStart_def client_ReadFull_front [OF assms(3,4)])
qed

lemma receive_plain:
  assumes "cl_conn c = Open_handle" and "cl_in c = (b @ zeros 16) @ rest" and "n = length b + 16"
  shows "receiveAndVerify n False c = (Inr (b @ zeros 16), c\<lparr>cl_in := rest\<rparr>)"
proof -
  have "\<not> list_ex (\<lambda>i. (b @ zeros 16) ! i \<noteq> 0) [length b ..< length b + 16]"
    by (auto simp: list_ex_iff nth_append zeros_def)
  then show ?thesis
    using assms(3) by (simp add: receiveAndVerify_def client_ReadFull_front [OF assms(1,2)])
qed

text \<open>The negotiation of a mode, up to the last step.\<close>

lemma negotiateMode_ok:
  assumes "client_env_ok env" and "ValidateModeMask (cn_PreferredMode (cl_config c)) = Inr ()"
    and "base_security (cn_PreferredMode (cl_config c)) (sg_Modes g) = Inr b"
    and m: "m = selected_mode b (cn_PreferredMode (cl_config c)) (sg_Modes g)"
    and sr: "setup_response env g b m c = (Inr sr, c1)" "SetupResponse_Marshal sr = Inr data"
    and c1: "cl_conn c1 = Open_handle" "cl_in c1 = start @ rest"
    and ss: "ServerStart_ok ss" "ServerStart_Marshal ss = Inr start" "sst_Accept ss = AcceptOK"
  shows "negotiateMode env g c = finish_setup b m ss
    (c1\<lparr>cl_out := cl_out c1 @ [data], cl_in := rest, cl_serverStartBytes := start\<rparr>)"
  using receiveServerStart_ok [OF ss(1,2), of "c1\<lparr>cl_out := cl_out c1 @ [data]\<rparr>" rest] c1 ss(3) assms(2,3) sr
  by (simp add: negotiateMode_def m client_Write_ok [OF assms(1) c1(1)] Let_def)

definition dial_address :: "Client \<Rightarrow> string" where
  "dial_address c = (case SplitHostPort (cn_ServerAddress (cl_config c)) of
     Inl e \<Rightarrow> JoinHostPort (cn_ServerAddress (cl_config c)) ''862''
   | Inr _ \<Rightarrow> cn_ServerAddress (cl_config c))"

lemma Connect_greeted:
  assumes "ce_dial env (dial_address c) = Inr (data @ input)" and "sg_Modes g \<noteq> 0"
    and "ServerGreeting_ok g" and "ServerGreeting_Marshal g = Inr data"
  shows "Connect env c =
    (case negotiateMode env g (c\<lparr>cl_conn := Open_handle, cl_out := [], cl_in := input\<rparr>) of
       (Inl e, c) \<Rightarrow> (Inl (wrap_err ''failed to negotiate mode'' e), c\<lparr>cl_conn := Closed_handle\<rparr>)
     | (Inr _, c) \<Rightarrow> (Inr (), c))"
  using receiveServerGreeting_ok [OF assms(3,4,2), of "c\<lparr>cl_conn := Open_handle, cl_in := data @ input, cl_out := []\<rparr>" input]
    assms(1)
  by (simp add: Connect_def dial_address_def Let_def)

lemma client_controlAuth_iff: "client_controlAuth c \<longleftrightarrow> controlRequiresAuthentication (cl_controlMode c)"
  by (simp add: client_controlAuth_def controlRequiresAuthentication_def)

lemma finish_plain:
  assumes "ResolveMixedModes m = Inr (ctl, tst)" and "\<not> controlRequiresAuthentication ctl"
  shows "finish_setup ModeUnauthenticated m ss c = (Inr (), c\<lparr>cl_mode := m, cl_controlMode := ctl, cl_testMode := tst,
    cl_controlEncrypt := None, cl_controlDecrypt := None, cl_serverStartHMACPending := False\<rparr>)"
  using assms by (simp add: finish_setup_def client_controlAuth_iff)

text \<open>A plain client, from the greeting to the end of its setup.\<close>

lemma Connect_plain:
  assumes "client_env_ok env" and "ValidateModeMask (cn_PreferredMode (cl_config c)) = Inr ()"
    and "base_security (cn_PreferredMode (cl_config c)) (sg_Modes g) = Inr ModeUnauthenticated"
    and m: "m = selected_mode ModeUnauthenticated (cn_PreferredMode (cl_config c)) (sg_Modes g)"
    and "ResolveMixedModes m = Inr (ctl, tst)" and "\<not> controlRequiresAuthentication ctl"
    and "ce_dial env (dial_address c) = Inr (data @ start @ rest)"
    and g: "ServerGreeting_ok g" "ServerGreeting_Marshal g = Inr data"
    and ss: "ServerStart_ok ss" "ServerStart_Marshal ss = Inr start" "sst_Accept ss = AcceptOK"
  shows "\<exists>sdata. SetupResponse_Marshal \<lparr>sr_Mode = m, sr_KeyID = zeros 80, sr_Token = zeros 64, sr_ClientIV = zeros 16\<rparr> = Inr sdata \<and>
    Connect env c = (Inr (), c\<lparr>cl_conn := Open_handle, cl_out := [sdata], cl_in := rest, cl_serverStartBytes := start,
      cl_mode := m, cl_controlMode := ctl, cl_testMode := tst, cl_controlEncrypt := None, cl_controlDecrypt := None,
      cl_serverStartHMACPending := False\<rparr>)"
proof -
  let ?sr = "\<lparr>sr_Mode = m, sr_KeyID = zeros 80, sr_Token = zeros 64, sr_ClientIV = zeros 16\<rparr>"
  let ?c = "c\<lparr>cl_conn := Open_handle, cl_out := [], cl_in := start @ rest\<rparr>"
  have "SetupResponse_ok ?sr" by (simp add: SetupResponse_ok_def)
  then obtain sdata where sdata: "SetupResponse_Marshal ?sr = Inr sdata" using setup_codec.enc_ok by blast
  have r: "setup_response env g ModeUnauthenticated m ?c = (Inr ?sr, ?c)" by (simp add: setup_response_def)
  have n: "negotiateMode env g ?c = finish_setup ModeUnauthenticated m ss
      (?c\<lparr>cl_out := [sdata], cl_in := rest, cl_serverStartBytes := start\<rparr>)"
    using negotiateMode_ok [OF assms(1) _ _ _ r sdata _ _ ss, of rest] assms(2,3) m by simp
  have "sg_Modes g \<noteq> 0" using assms(3) by (auto simp: base_security_def Let_def split: if_splits)
  with sdata show ?thesis
    by (simp add: Connect_greeted [OF assms(7) _ g] n finish_plain [OF assms(5,6)])
qed

text \<open>A request that is granted.\<close>

definition answered :: "TestSessionConfig \<Rightarrow> u16 \<Rightarrow> TestSessionConfig" where
  "answered config port = (if port \<noteq> 0 then config\<lparr>tc_ReceiverPort := port\<rparr> else config)"

lemma receive_accept_ok:
  assumes "receiveAndVerify AcceptSessionSize (client_controlAuth c) c = (Inr data, c1)"
    and "cl_controlMode c1 = cl_controlMode c"
    and "AcceptSession_Unmarshal AcceptSession_zero data (client_controlAuth c) = Inr a"
    and "as_Accept a = AcceptOK" and "expected = None \<or> expected = Some (as_SID a)"
    and "NewTestSession (answered config (as_Port a)) (as_SID a) (cl_testMode c1) (cl_keyDerivation c1) = Inr ts"
  shows "receive_accept expected config c = (Inr (length (cl_heap c1)), add_session (as_SID a) ts c1)"
proof -
  have "(if as_Port a \<noteq> 0 \<and> as_Port a \<noteq> tc_ReceiverPort config then config\<lparr>tc_ReceiverPort := as_Port a\<rparr> else config) =
      answered config (as_Port a)" by (simp add: answered_def)
  then show ?thesis
    using assms by (auto simp: receive_accept_def client_controlAuth_iff add_session_def)
qed

lemma NewTestSession_plain:
  assumes "m AND (ModeAuthenticated OR ModeEncrypted) = 0"
  shows "\<exists>ts. NewTestSession config sid m keys = Inr ts \<and> sn_config ts = config \<and> sn_sid ts = sid \<and> sn_mode ts = m \<and>
    sn_sessionKeys ts = None \<and> sn_isAuthenticated ts = False \<and> sn_isEncrypted ts = False"
proof -
  have "(m AND securityMask) AND 6 = 0" using assms by (simp add: ac_simps)
  moreover have "bit (m AND (ModeAuthenticated OR ModeEncrypted)) 2 = bit m 2" by (simp add: bit_and_iff)
  then have "\<not> bit m 2" using assms by simp
  ultimately show ?thesis
    by (cases keys) (simp_all add: NewTestSession_def Let_def bit_simps)
qed

lemma accept_plain_bytes:
  assumes "length sid = 16"
  shows "\<exists>a. AcceptSession_Unmarshal AcceptSession_zero ([AcceptOK, 0] @ be16 port @ sid @ zeros 28) False = Inr a \<and>
    as_Accept a = AcceptOK \<and> as_Port a = port \<and> as_SID a = sid"
proof -
  let ?a = "AcceptSession_zero\<lparr>as_Accept := AcceptOK, as_Port := port, as_SID := sid\<rparr>"
  have z: "zeros 28 = zeros 12 @ zeros 16" by (simp add: zeros_def flip: replicate_add)
  have ok: "AcceptSession_ok False ?a"
    using assms by (simp add: AcceptSession_ok_def AcceptSession_zero_def hmac_ok_def)
  then have "AcceptSession_Marshal ?a False = Inr ([AcceptOK, 0] @ be16 port @ sid @ zeros 28)"
    unfolding z by (subst AcceptSession_Marshal_eq) (simp_all add: AcceptSession_ok_def AcceptSession_zero_def)
  then show ?thesis using accept_codec.dec_enc [OF ok, of _ "[]"] by simp
qed

lemma receive_accept_plain:
  assumes "cl_conn c = Open_handle" and "\<not> client_controlAuth c" and "length sid = 16"
    and "cl_in c = ([AcceptOK, 0] @ be16 port @ sid @ zeros 28) @ rest" and "expected = None \<or> expected = Some sid"
    and "NewTestSession (answered config port) sid (cl_testMode c) (cl_keyDerivation c) = Inr ts"
  shows "receive_accept expected config c = (Inr (length (cl_heap c)), add_session sid ts (c\<lparr>cl_in := rest\<rparr>))"
proof -
  let ?b = "[AcceptOK, 0] @ be16 port @ sid @ zeros 12"
  have z: "[AcceptOK, 0] @ be16 port @ sid @ zeros 28 = ?b @ zeros 16"
    by (simp add: zeros_def flip: replicate_add)
  have "receiveAndVerify AcceptSessionSize False c = (Inr (?b @ zeros 16), c\<lparr>cl_in := rest\<rparr>)"
    using receive_plain [OF assms(1), of ?b rest 48] assms(3,4) unfolding z by simp
  then show ?thesis
    using accept_plain_bytes [OF assms(3), of port] assms(2,5,6) receive_accept_ok [of c "?b @ zeros 16" "c\<lparr>cl_in := rest\<rparr>"]
    unfolding z by fastforce
qed

text \<open>Sending in plain mode.\<close>

lemma client_send_plain:
  assumes "client_env_ok env" and "cl_conn c = Open_handle"
  shows "client_sendControlMessage env (b @ zeros 16) False c = (Inr (), c\<lparr>cl_out := cl_out c @ [b @ zeros 16]\<rparr>)"
  using client_Write_ok [OF assms] by (simp add: client_sendControlMessage_def)

text \<open>The bytes of a request; the last 16 are left for the HMAC.\<close>

lemma request_message_fields:
  assumes "request_message env command sid config = Inr r"
  shows "rts_Command r = command \<and> rts_SID r = sid \<and> rts_SenderPort r = tc_SenderPort config \<and>
    rts_ReceiverPort r = tc_ReceiverPort config \<and> rts_PaddingLength r = tc_PaddingLength config \<and>
    (rts_IPVN r = 4 \<or> rts_IPVN r = 6) \<and> rts_HMAC r = zeros 16 \<and> rts_SenderAddress r = zeros 16 \<and>
    length (rts_ReceiverAddress r) = 16 \<and> rts_NumSlots r = 0 \<and> rts_NumPackets r = 0 \<and>
    rts_ConfSender r = 0 \<and> rts_ConfReceiver r = 0 \<and>
    rts_MBZ1 r = 0 \<and> rts_MBZ2 r = zeros 3 \<and> rts_MBZ3 r = zeros 8 \<and>
    rts_TypePDescriptor r = push_bit 18 (ucast (tc_DSCP config))"
  using assms by (auto simp: request_message_def RequestTWSession_zero_def split: sum.splits prod.splits)

lemma dscp_descriptor: "validateTypePDescriptor (push_bit 18 (ucast d)) = Inr () \<longleftrightarrow> d < 64" for d :: u8
proof -
  have m: "(0x03 :: u32) = mask 2" "(0xFF :: u32) = mask 8" "(0xFFFF :: u32) = mask 16" "(0x3F :: u8) = mask 6"
    by (simp_all add: mask_eq_exp_minus_1)
  let ?t = "push_bit 18 (ucast d) :: u32"
  have "drop_bit 16 ?t AND 0x03 = 0" "?t AND 0xFFFF = 0"
    unfolding m by (rule bit_word_eqI; auto simp: bit_simps)+
  moreover have "drop_bit 24 ?t AND 0xFF = 0 \<longleftrightarrow> d AND 0x3F = d"
  proof
    assume z: "drop_bit 24 ?t AND 0xFF = 0"
    have "\<not> bit d n" if "6 \<le> n" for n
    proof
      assume b: "bit d n"
      then have "bit (drop_bit 24 ?t AND 0xFF) (n - 6)"
        using that bit_imp_le_length [OF b] unfolding m by (simp add: bit_simps) arith
      with z show False by simp
    qed
    then have "bit d n \<Longrightarrow> n < 6" for n by (meson not_less)
    then show "d AND 0x3F = d" unfolding m by (intro bit_word_eqI) (auto simp: bit_simps)
  next
    assume d: "d AND 0x3F = d"
    have "\<not> bit d n" if "6 \<le> n" for n
      using that arg_cong [OF d, of "\<lambda>w. bit w n"] unfolding m by (auto simp: bit_simps)
    then show "drop_bit 24 ?t AND 0xFF = 0" unfolding m by (intro bit_word_eqI) (auto simp: bit_simps)
  qed
  ultimately show ?thesis by (simp add: validateTypePDescriptor_def Let_def scale_fits)
qed

lemma dscp_taken: "d < 64 \<Longrightarrow> request_dscp (push_bit 18 (ucast d)) = d"
proof -
  assume "d < 64"
  then have d: "d AND 0x3F = d" by (simp only: scale_fits)
  have m: "(0x3F :: u8) = mask 6" "(0x3F :: u32) = mask 6" by (simp_all add: mask_eq_exp_minus_1)
  have "request_dscp (push_bit 18 (ucast d)) = d AND 0x3F"
    unfolding request_dscp_def m by (rule bit_word_eqI) (auto simp: bit_simps dest: bit_imp_le_length)
  with d show ?thesis by simp
qed

lemma request_message_ok:
  assumes "request_message env command sid config = Inr r" and "length sid = 16"
    and "tc_PaddingLength config \<le> 2048" and "tc_DSCP config < 64"
  shows "RequestTWSession_ok False r"
  using request_message_fields [OF assms(1)] assms(2-4)
  by (simp add: RequestTWSession_ok_def hmac_ok_def dscp_descriptor)

text \<open>The other commands.\<close>

lemma start_command:
  "StartSessions_Marshal (StartSessions_zero\<lparr>sts_Command := CmdStartSessions\<rparr>) False =
    Inr (([CmdStartSessions] @ zeros 15) @ zeros 16)"
  by (subst StartSessions_Marshal_eq) (simp_all add: StartSessions_zero_def hmac_ok_def)

lemma stop_command:
  "StopSessions_Marshal (StopSessions_zero\<lparr>stp_Command := CmdStopSessions, stp_Accept := AcceptOK, stp_NumSessions := n\<rparr>) False =
    Inr (([CmdStopSessions, AcceptOK] @ zeros 2 @ be32 n @ zeros 8) @ zeros 16)"
  by (subst StopSessions_Marshal_eq) (simp_all add: StopSessions_zero_def hmac_ok_def)

section \<open>A client to try things on\<close>

text \<open>A client, and what a server sends that takes its plain setup and grants one session.\<close>

definition demo_client_env :: "bytes \<Rightarrow> client_env" where
  "demo_client_env input = \<lparr>ce_kdf = (\<lambda>secret salt count. zeros 48), ce_random = (\<lambda>n. Inr (zeros n)),
     ce_dial = (\<lambda>a. Inr input), ce_write = (\<lambda>b. Inr ()), ce_conn_close = Inr (),
     ce_ParseIP = (\<lambda>a. [10, 0, 0, 1]), ce_listen = (\<lambda>sid port. True), ce_close = (\<lambda>sid. Inr ()),
     ce_order = [zeros 16], ce_conv = (\<lambda>i. 0)\<rparr>"

definition demo_client :: "mode \<Rightarrow> Client" where
  "demo_client m = NewClient \<lparr>cn_ServerAddress = ''server'', cn_PreferredMode = m, cn_SharedSecret = [1],
     cn_KeyID = [], cn_Timeout = 0\<rparr>"

definition demo_session_config :: TestSessionConfig where
  "demo_session_config = \<lparr>tc_SenderPort = 30000, tc_ReceiverPort = 20000, tc_ReceiverAddress = ''10.0.0.1'',
     tc_PaddingLength = 0, tc_Timeout = 0, tc_DSCP = 0\<rparr>"

lemma demo_client_env_ok: "client_env_ok (demo_client_env b)"
  by (simp add: client_env_ok_def demo_client_env_def)

text \<open>Such a client, connected and with one session that it has started.\<close>

lemma demo_client_run:
  "\<exists>c. client_run (demo_client 1) c \<and> cl_currentSessions c = [zeros 16 \<mapsto> 0] \<and> length (cl_heap c) = 1 \<and>
     Session_IsActive (cl_heap c ! 0) \<and> cl_conn c = Open_handle \<and> \<not> client_controlAuth c"
proof -
  let ?g = "ServerGreeting_zero\<lparr>sg_Modes := 1\<rparr>"
  have g: "ServerGreeting_ok ?g" by (simp add: ServerGreeting_ok_def ServerGreeting_zero_def)
  obtain data where data: "ServerGreeting_Marshal ?g = Inr data" using greeting_codec.enc_ok [OF g] by blast
  have ss: "ServerStart_ok ServerStart_zero" "sst_Accept ServerStart_zero = AcceptOK"
    by (simp_all add: ServerStart_ok_def ServerStart_zero_def)
  obtain start where start: "ServerStart_Marshal ServerStart_zero = Inr start" using start_codec.enc_ok [OF ss(1)] by blast
  let ?acc = "[AcceptOK, 0] @ be16 0 @ zeros 16 @ zeros 28"
  define env where "env = demo_client_env (data @ start @ ?acc)"
  have env: "client_env_ok env" unfolding env_def by (rule demo_client_env_ok)
  have v: "ValidateModeMask (cn_PreferredMode (cl_config (demo_client 1))) = Inr ()"
    "base_security (cn_PreferredMode (cl_config (demo_client 1))) (sg_Modes ?g) = Inr ModeUnauthenticated"
    "1 = selected_mode ModeUnauthenticated (cn_PreferredMode (cl_config (demo_client 1))) (sg_Modes ?g)"
    by (simp_all add: demo_client_def NewClient_def ValidateModeMask_def base_security_def selected_mode_def
        securityMask_def ServerGreeting_zero_def)
  have r: "ResolveMixedModes 1 = Inr (1, 1)" "\<not> controlRequiresAuthentication 1"
    by (simp_all add: ResolveMixedModes_def ValidateRequestedMode_def securityMask_def controlRequiresAuthentication_def)
  obtain sdata where C: "Connect env (demo_client 1) = (Inr (), (demo_client 1)\<lparr>cl_conn := Open_handle, cl_out := [sdata],
      cl_in := ?acc, cl_serverStartBytes := start, cl_mode := 1, cl_controlMode := 1, cl_testMode := 1,
      cl_controlEncrypt := None, cl_controlDecrypt := None, cl_serverStartHMACPending := False\<rparr>)"
    using Connect_plain [OF env v r _ g data ss(1) start ss(2), of ?acc]
    by (auto simp: env_def demo_client_env_def)
  define c1 where "c1 = snd (Connect env (demo_client 1))"
  have c1: "cl_conn c1 = Open_handle" "cl_in c1 = ?acc" "cl_testMode c1 = 1" "\<not> client_controlAuth c1"
    "cl_currentSessions c1 = Map.empty" "cl_heap c1 = []"
    using r(2) by (simp_all only: c1_def C snd_conv client_controlAuth_iff) (simp_all add: demo_client_def NewClient_def)
  let ?config = "demo_session_config\<lparr>tc_PaddingLength := 27, tc_Timeout := 3000000000\<rparr>"
  have cf: "complete_config c1 demo_session_config = Inr ?config"
    by (simp add: complete_config_def c1 calculateMinPadding_def demo_session_config_def securityMask_def Let_def)
  obtain r where r: "request_message env CmdRequestTWSession zeroSID ?config = Inr r"
    by (simp add: request_message_def parseAndValidateIP_def env_def demo_client_env_def IP_To4_def Let_def)
  have rok: "RequestTWSession_ok False r"
    by (rule request_message_ok [OF r]) (simp_all add: zeroSID_def demo_session_config_def)
  obtain rdata where rd: "RequestTWSession_Marshal r False = Inr rdata" using request_codec.enc_ok [OF rok] by blast
  obtain rb where rb: "rdata = rb @ zeros 16"
    using rd rok by (subst (asm) RequestTWSession_Marshal_eq) (auto simp: RequestTWSession_ok_def hmac_ok_def)
  define c2 where "c2 = c1\<lparr>cl_out := cl_out c1 @ [rb @ zeros 16]\<rparr>"
  have s: "client_sendControlMessage env (rb @ zeros 16) False c1 = (Inr (), c2)"
    unfolding c2_def by (rule client_send_plain [OF env c1(1)])
  have c2: "cl_conn c2 = Open_handle" "cl_in c2 = ?acc @ []" "cl_testMode c2 = 1" "\<not> client_controlAuth c2"
    "cl_currentSessions c2 = Map.empty" "cl_heap c2 = []"
    using c1 by (simp_all add: c2_def client_controlAuth_iff)
  obtain ts where ts: "NewTestSession (answered ?config 0) (zeros 16) (cl_testMode c2) (cl_keyDerivation c2) = Inr ts"
    using NewTestSession_plain [of 1 "answered ?config 0" "zeros 16" "cl_keyDerivation c2"] c2(3) by auto
  have "RequestSession env demo_session_config c1 = (Inr 0, add_session (zeros 16) ts (c2\<lparr>cl_in := []\<rparr>))"
    using receive_accept_plain [OF c2(1,4) _ c2(2) _ ts] c1(4) c2(6)
    by (simp add: RequestSession_def cf r rd rb s)
  moreover define c3 where "c3 = snd (RequestSession env demo_session_config c1)"
  ultimately have c3: "cl_currentSessions c3 = [zeros 16 \<mapsto> 0]" "cl_heap c3 = [ts]" "cl_conn c3 = Open_handle" "\<not> client_controlAuth c3"
    using c2 by (simp_all add: add_session_def client_controlAuth_iff)
  have run: "client_run (demo_client 1) c3"
    unfolding c3_def c1_def by (intro client_run.intros)
  let ?c4 = "snd (start_at env 0 c3)"
  have "client_run (demo_client 1) ?c4" using run by (rule client_run.session_starts)
  moreover have "Session_IsActive (cl_heap ?c4 ! 0)" "length (cl_heap ?c4) = 1" "cl_currentSessions ?c4 = [zeros 16 \<mapsto> 0]"
    "cl_conn ?c4 = Open_handle" "\<not> client_controlAuth ?c4"
    using c3 by (simp_all add: start_at_def Session_Start_def Session_IsActive_def env_def demo_client_env_def Let_def
        client_controlAuth_iff) (simp add: set_session_def)+
  ultimately show ?thesis by blast
qed

section \<open>Addresses with and without a port\<close>

lemma last_index_of_none: "last_index_of c xs = None \<longleftrightarrow> c \<notin> set xs"
  by (induction xs) (auto split: option.split)

lemma last_index_of_append: "c \<notin> set ys \<Longrightarrow> last_index_of c (xs @ c # ys) = Some (length xs)"
  by (induction xs) (simp_all add: last_index_of_none [THEN iffD2])

lemma index_of_append: "c \<notin> set xs \<Longrightarrow> index_of c (xs @ c # ys) = Some (length xs)"
  by (induction xs) auto

lemma split_join:
  assumes "CHR ''['' \<notin> set host" "CHR '']'' \<notin> set host" "set port \<inter> {CHR '':'', CHR ''['', CHR '']''} = {}"
  shows "SplitHostPort (JoinHostPort host port) = Inr (host, port)"
proof (cases "CHR '':'' \<in> set host")
  case True
  let ?a = "(CHR ''['' # host @ [CHR '']'']) @ CHR '':'' # port"
  have l: "last_index_of CHR '':'' ?a = Some (length host + 2)"
    by (subst last_index_of_append) (use assms(3) in auto)
  have i: "index_of CHR '']'' ?a = Some (length host + 1)"
    using index_of_append [of "CHR '']''" "CHR ''['' # host" "CHR '':'' # port"] assms(2) by simp
  have "JoinHostPort host port = ?a" using True by (simp add: JoinHostPort_def)
  moreover have "SplitHostPort ?a = Inr (host, port)"
    unfolding SplitHostPort_def l i using assms by (auto simp: check_brackets_def seg_def)
  ultimately show ?thesis by simp
next
  case False
  have l: "last_index_of CHR '':'' (host @ CHR '':'' # port) = Some (length host)"
    by (rule last_index_of_append) (use assms(3) in auto)
  have h: "(host @ CHR '':'' # port) ! 0 \<noteq> CHR ''[''"
    using assms(1) by (cases host) auto
  have "JoinHostPort host port = host @ CHR '':'' # port" using False by (simp add: JoinHostPort_def)
  moreover have "SplitHostPort (host @ CHR '':'' # port) = Inr (host, port)"
    unfolding SplitHostPort_def l using assms False h by (auto simp: check_brackets_def Let_def)
  ultimately show ?thesis by simp
qed

section \<open>Properties\<close>

text \<open>C19: the map of the client and its sessions. However a program uses the client and the sessions it
  was given, the session found under an identifier exists and carries that identifier, so that no
  session stands under two of them.\<close>

theorem client_sessions:
  assumes "client_run (NewClient config) c"
  shows "(\<forall>sid p. GetSession sid c = Inr p \<longrightarrow> p < length (cl_heap c) \<and> GetSID (cl_heap c ! p) = sid) \<and>
    inj_on (\<lambda>sid. GetSession sid c) (dom (cl_currentSessions c))"
proof -
  have "linked (NewClient config)" by (simp add: linked_def NewClient_def Let_def)
  with assms have l: "linked c" by (rule links.always)
  have g: "GetSession sid c = Inr p \<longleftrightarrow> cl_currentSessions c sid = Some p" for sid p
    by (simp add: GetSession_def split: option.split)
  have "inj_on (\<lambda>sid. GetSession sid c) (dom (cl_currentSessions c))"
    by (rule inj_onI) (use l in \<open>auto simp: linked_def GetSession_def split: option.splits\<close>)
  then show ?thesis using l by (simp add: g linked_def GetSID_def)
qed

theorem client_sessions_witness:
  "\<exists>c. GetSession (zeros 16) c = Inr 0 \<and> GetSID (cl_heap c ! 0) = zeros 16"
proof -
  obtain c where c: "client_run (demo_client 1) c" "cl_currentSessions c = [zeros 16 \<mapsto> 0]"
    using demo_client_run by (elim exE conjE) (rule that)
  then have "GetSession (zeros 16) c = Inr 0" by (simp add: GetSession_def)
  moreover from this have "GetSID (cl_heap c ! 0) = zeros 16"
    using client_sessions [OF c(1) [unfolded demo_client_def]] by simp
  ultimately show ?thesis by (intro exI [of _ c] conjI)
qed





end
