(* ===== verification/End_To_End.thy ===== *)
theory End_To_End
  imports Server_Service Client_Promises
begin

text \<open>
  The client and the server together: the bytes that one writes are the bytes that the other reads.
  What the handshake leaves at the two ends, a session request from the call of the client to the
  session on both sides, and a test packet from the sender over the reflector and back.
\<close>

section \<open>The modes of a setup\<close>

lemma resolved_security:
  assumes "ResolveMixedModes m = Inr (ctl, tst)"
  shows "ctl AND securityMask = m AND securityMask"
proof -
  have "(m AND securityMask OR m AND NOT (securityMask OR ModeMixed)) AND securityMask = m AND securityMask"
    by (rule bit_word_eqI) (simp only: resolve_masks bit_or_iff, blast)
  then show ?thesis
    using assms by (auto simp: ResolveMixedModes_def Let_def split: sum.splits if_splits)
qed

lemma base_security_cases:
  assumes "base_security p s = Inr b"
  shows "b \<in> {ModeUnauthenticated, ModeAuthenticated, ModeEncrypted}" and "s AND b \<noteq> 0" and "p AND b \<noteq> 0"
    and "s \<noteq> 0"
proof -
  have k: "x AND securityMask AND 4 = x AND 4" "x AND securityMask AND 2 = x AND 2" "x AND securityMask AND 1 = x AND 1" for x :: u32
    by (simp_all add: securityMask_eq)
  show "b \<in> {ModeUnauthenticated, ModeAuthenticated, ModeEncrypted}"
    using assms by (auto simp: base_security_def Let_def split: if_splits)
  show s: "s AND b \<noteq> 0" "p AND b \<noteq> 0"
    using assms unfolding base_security_def Let_def and.assoc k by (auto split: if_splits)
  then show "s \<noteq> 0" by auto
qed

lemma selected_security:
  assumes "b \<in> {ModeUnauthenticated, ModeAuthenticated, ModeEncrypted}"
  shows "selected_mode b p s AND securityMask = b"
proof -
  have 7: "securityMask = mask 3" by (simp add: securityMask_eq mask_eq_exp_minus_1)
  have "(p AND NOT securityMask AND s) AND securityMask = 0"
    unfolding 7 by (rule bit_word_eqI) (auto simp: bit_simps)
  moreover have "b AND securityMask = b" using assms by (auto simp: securityMask_eq)
  ultimately show ?thesis by (simp add: selected_mode_def bit.conj_disj_distrib2)
qed

lemma selected_auth:
  assumes "base_security p s = Inr b" and "ResolveMixedModes (selected_mode b p s) = Inr (ctl, tst)"
  shows "controlRequiresAuthentication ctl \<longleftrightarrow> b \<noteq> ModeUnauthenticated"
  using resolved_security [OF assms(2)] selected_security [OF base_security_cases(1) [OF assms(1)]]
  by (simp add: controlRequiresAuthentication_def)

lemma selected_offered:
  assumes "base_security p (s AND NOT reservedModeBit14) = Inr b"
  shows "selected_mode b p (s AND NOT reservedModeBit14) AND s \<noteq> 0"
proof -
  note c = base_security_cases [OF assms]
  have "NOT reservedModeBit14 AND b = b" using c(1) by auto
  then have "(s AND NOT reservedModeBit14) AND b = b AND s" by (metis and.assoc and.commute)
  then have "b AND s \<noteq> 0" using c(2) by simp
  then obtain n where "bit (b AND s) n" by (metis bit_0_eq bit_eqI bot_apply bot_bool_def)
  then have "bit (selected_mode b p (s AND NOT reservedModeBit14) AND s) n"
    unfolding selected_mode_def bit_and_iff bit_or_iff by blast
  then show ?thesis by auto
qed

text \<open>Plain control leaves nothing secure for the test packets.\<close>

lemma security_low:
  "(m AND securityMask) AND (ModeAuthenticated OR ModeEncrypted) = m AND (ModeAuthenticated OR ModeEncrypted)"
  "bit (m AND securityMask) 2 = bit m 2"
  by (simp_all add: securityMask_eq and.assoc bit_and_iff)

lemma not_secure_test: "\<not> secure_test_mode m \<Longrightarrow> \<not> bit m 2"
proof -
  assume "\<not> secure_test_mode m"
  then have "\<not> bit (m AND (ModeAuthenticated OR ModeEncrypted)) 2" by (simp add: secure_test_mode_def)
  then show ?thesis by (simp add: bit_and_iff)
qed

lemma plain_test_mode:
  assumes "ResolveMixedModes m = Inr (ctl, tst)" and "\<not> controlRequiresAuthentication ctl"
  shows "\<not> secure_test_mode tst"
proof -
  have "m AND securityMask = ModeUnauthenticated"
    using assms resolved_security [OF assms(1)] by (simp add: controlRequiresAuthentication_def)
  moreover from this have "tst = m"
    using assms(1) by (auto simp: ResolveMixedModes_def Let_def split: sum.splits if_splits)
  ultimately show ?thesis using security_low(1) [of m] by (simp add: secure_test_mode_def)
qed

section \<open>The two ends in step\<close>

text \<open>
  Client and server agree on the modes; in a secure control mode also on the keys, on both streams and on what
  is still owed to the first reply.
\<close>

definition in_step :: "Client \<Rightarrow> controlConnection \<Rightarrow> bool" where
  "in_step c cc \<longleftrightarrow> cl_conn c = Open_handle \<and> cl_mode c = cc_mode cc \<and>
     cl_controlMode c = cc_controlMode cc \<and> cl_testMode c = cc_testMode cc \<and>
     (if controlRequiresAuthentication (cc_controlMode cc)
      then (\<exists>keys st_in st_out. cl_keyDerivation c = Some keys \<and>
        cl_controlEncrypt c = Some st_in \<and> cl_controlDecrypt c = Some st_out \<and>
        ready st_in st_out keys cc \<and> length (ClientIV keys) = 16 \<and> length (ServerIV keys) = 16 \<and>
        cl_serverStartHMACPending c = cc_serverStartHMACPending cc \<and>
        cl_serverStartBytes c = cc_serverStartBytes cc)
      else cc_keyDerivation cc = None \<and> \<not> secure_test_mode (cl_testMode c))"

lemma in_step_auth: "in_step c cc \<Longrightarrow> client_controlAuth c = controlRequiresAuthentication (cc_controlMode cc)"
  by (simp add: in_step_def client_controlAuth_iff)

section \<open>The handshake\<close>

lemma copy_padded: "length k \<le> n \<Longrightarrow> copy_at (zeros n) 0 n k = k @ zeros (n - length k)"
  by (simp add: copy_at_def zeros_def)

text \<open>What the client answers to a greeting in a secure mode.\<close>

definition secure_response :: "mode \<Rightarrow> bytes \<Rightarrow> ServerGreeting \<Rightarrow> bytes \<Rightarrow> bytes \<Rightarrow> SetupResponse" where
  "secure_response m keyID g k iv = \<lparr>sr_Mode = m, sr_KeyID = keyID @ zeros (80 - length keyID),
     sr_Token = cbc_enc (aes_encrypt (sg_Challenge g)) (zeros 16) (sg_Challenge g @ take 16 k @ drop 16 k),
     sr_ClientIV = iv\<rparr>"

lemma secure_response_ok:
  "length keyID \<le> 80 \<Longrightarrow> length k = 48 \<Longrightarrow> length iv = 16 \<Longrightarrow> ServerGreeting_ok g \<Longrightarrow>
    SetupResponse_ok (secure_response m keyID g k iv)"
  by (simp add: secure_response_def SetupResponse_ok_def ServerGreeting_ok_def aes.len_cbc_enc)

lemma secure_response_granted:
  assumes "0 \<notin> set keyID" and "length keyID < 80" and "cf_SecretMap (sv_config s) keyID = Some secret"
    and "length k = 48" and "ServerGreeting_ok g"
  shows "setup_granted s g (secure_response m keyID g k iv)"
    and "secret_keys env s g (secure_response m keyID g k iv) = ev_kdf env secret (sg_Salt g) (unat (sg_Count g))"
proof -
  have i: "keyID_of (sr_KeyID (secure_response m keyID g k iv)) = keyID"
    using keyID_of_padded [OF assms(1,2)] by (simp add: secure_response_def)
  have "DecryptToken (sr_Token (secure_response m keyID g k iv)) (sg_Challenge g) =
      Inr \<lparr>tc_Challenge = sg_Challenge g, tc_AESKey = take 16 k, tc_HMACKey = drop 16 k\<rparr>"
    using assms(4,5) by (simp add: DecryptToken_iff CreateToken_eq secure_response_def ServerGreeting_ok_def)
  with i assms(3) show "setup_granted s g (secure_response m keyID g k iv)" by (simp add: setup_granted_def)
  show "secret_keys env s g (secure_response m keyID g k iv) = ev_kdf env secret (sg_Salt g) (unat (sg_Count g))"
    using i assms(3) by (simp add: secret_keys_def)
qed

lemma setup_response_secure:
  assumes "b \<noteq> ModeUnauthenticated" and "cn_SharedSecret (cl_config c) \<noteq> []" and "length (cn_KeyID (cl_config c)) \<le> 80"
    and k: "k = ce_kdf env (cn_SharedSecret (cl_config c)) (sg_Salt g) (unat (sg_Count g))" "length k = 48"
    and "ce_random env 16 = Inr iv" "length iv = 16" and g: "ServerGreeting_ok g"
  shows "setup_response env g b m c = (Inr (secure_response m (cn_KeyID (cl_config c)) g k iv),
    c\<lparr>cl_keyDerivation := Some \<lparr>AESKey = take 16 k, HMACKey = drop 16 k, TestAESKey = [], TestHMACKey = [],
       ClientIV = iv, ServerIV = []\<rparr>\<rparr>)"
proof -
  have d: "DeriveKey (ce_kdf env) (cn_SharedSecret (cl_config c)) (sg_Salt g) (sg_Count g) = Inr (take 16 k, drop 16 k)"
    using g k by (simp add: DeriveKey_def ServerGreeting_ok_def Let_def seg_def)
  have t: "CreateToken (sg_Challenge g) (take 16 k) (drop 16 k) =
      Inr (cbc_enc (aes_encrypt (sg_Challenge g)) (zeros 16) (sg_Challenge g @ take 16 k @ drop 16 k))"
    using g k(2) by (simp add: CreateToken_eq ServerGreeting_ok_def)
  have l: "length (cbc_enc (aes_encrypt (sg_Challenge g)) (zeros 16) (sg_Challenge g @ take 16 k @ drop 16 k)) = 64"
    using g k(2) by (simp add: ServerGreeting_ok_def aes.len_cbc_enc)
  show ?thesis
    using assms(1-3,6,7) l by (simp add: setup_response_def d t copy_padded secure_response_def del: append_take_drop_id)
qed

text \<open>The client's end of a secure handshake.\<close>

lemma finish_secure:
  assumes "b \<noteq> ModeUnauthenticated" and "ResolveMixedModes m = Inr (ctl, tst)" and "controlRequiresAuthentication ctl"
    and "cl_keyDerivation c = Some keys" and "length (AESKey keys) = 16" and "length (ClientIV keys) = 16"
    and "length (sst_ServerIV ss) = 16"
  shows "finish_setup b m ss c = (Inr (), c\<lparr>cl_keyDerivation := Some (keys\<lparr>ServerIV := sst_ServerIV ss\<rparr>),
    cl_mode := m, cl_controlMode := ctl, cl_testMode := tst,
    cl_controlEncrypt := Some \<lparr>cs_block = AESKey keys, cs_iv = ClientIV keys\<rparr>,
    cl_controlDecrypt := Some \<lparr>cs_block = AESKey keys, cs_iv = sst_ServerIV ss\<rparr>,
    cl_serverStartHMACPending := True\<rparr>)"
  using assms by (simp add: finish_setup_def client_controlAuth_iff NewCBCStream_def aes_NewCipher_def)

text \<open>
  The greeting of the server, what the client answers, and the answer of the server to that; \<open>rest\<close> and
  \<open>rest'\<close> are what the two will read next.
\<close>

definition offered :: "Server \<Rightarrow> mode" where
  "offered s = cf_SupportedModes (sv_config s) AND NOT reservedModeBit14"

definition dialled :: "bytes \<Rightarrow> client_env \<Rightarrow> client_env" where
  "dialled input env = env\<lparr>ce_dial := (\<lambda>a. Inr input)\<rparr>"

lemma dialled_env [simp]:
  "client_env_ok (dialled b env) = client_env_ok env" "ce_kdf (dialled b env) = ce_kdf env"
  "ce_random (dialled b env) = ce_random env" "ce_dial (dialled b env) a = Inr b"
  by (simp_all add: dialled_def client_env_ok_def)

definition shook_hands :: "control_env \<Rightarrow> control_env \<Rightarrow> client_env \<Rightarrow> Server \<Rightarrow> controlConnection \<Rightarrow> Client \<Rightarrow>
    bytes \<Rightarrow> bytes \<Rightarrow> controlConnection \<Rightarrow> Client \<Rightarrow> bool" where
  "shook_hands env env' cenv s cc c rest rest' cc' c' \<longleftrightarrow>
    (\<exists>gdata sdata start cc1. sendServerGreeting env s cc = (Inr (), cc1) \<and> cc_out cc1 = cc_out cc @ [gdata] \<and>
       Connect (dialled (gdata @ start @ rest) cenv) c = (Inr (), c') \<and> cl_out c' = [sdata] \<and> cl_in c' = rest \<and>
       handleClientSetup env' s (cc1\<lparr>cc_in := sdata @ rest'\<rparr>) = (Inr (), cc') \<and>
       cc_out cc' = cc_out cc1 @ [start] \<and> cc_in cc' = rest')"

lemma handshake_plain:
  assumes env: "env_ok env" "env_ok env'" "client_env_ok cenv"
    and p: "ValidateModeMask (cn_PreferredMode (cl_config c)) = Inr ()"
      "base_security (cn_PreferredMode (cl_config c)) (offered s) = Inr ModeUnauthenticated"
      "m = selected_mode ModeUnauthenticated (cn_PreferredMode (cl_config c)) (offered s)"
    and r: "ResolveMixedModes m = Inr (ctl, tst)" and cc: "cc_keyDerivation cc = None"
  shows "\<exists>cc' c'. shook_hands env env' cenv s cc c rest rest' cc' c' \<and> in_step c' cc' \<and> same_sessions c c' \<and>
    cc_sessions cc' = cc_sessions cc \<and> cl_controlMode c' = ctl \<and> cl_testMode c' = tst"
proof -
  let ?sr = "\<lparr>sr_Mode = m, sr_KeyID = zeros 80, sr_Token = zeros 64, sr_ClientIV = zeros 16\<rparr>"
  have na: "\<not> controlRequiresAuthentication ctl" using selected_auth [OF p(2)] r p(3) by simp
  obtain a b data where g: "length a = 16" "length b = 16" "ServerGreeting_Marshal (ServerGreeting_of s a b) = Inr data"
    "sendServerGreeting env s cc = (Inr (), cc\<lparr>cc_greeting := Some (ServerGreeting_of s a b), cc_out := cc_out cc @ [data]\<rparr>)"
    using sendServerGreeting_ok [OF env(1), of s] by blast
  have modes: "sg_Modes (ServerGreeting_of s a b) = offered s" by (simp add: ServerGreeting_of_def offered_def)
  obtain iv where iv: "ev_random env' 0 16 = Inr iv" "length iv = 16" using env_random [OF env(2)] by blast
  note ssok = ServerStart_of_ok [OF iv(2), of env']
  have acc: "sst_Accept (ServerStart_of env' iv) = AcceptOK" by (simp add: ServerStart_of_def)
  let ?cc1 = "\<lambda>b'. cc\<lparr>cc_greeting := Some (ServerGreeting_of s a b), cc_out := cc_out cc @ [data], cc_in := b'\<rparr>"
  obtain start where start: "ServerStart_Marshal (ServerStart_of env' iv) = Inr start"
    using start_codec.enc_ok [OF ssok] by blast
  obtain sdata where sd: "SetupResponse_Marshal ?sr = Inr sdata" and
    C: "Connect (dialled (data @ start @ rest) cenv) c = (Inr (), c\<lparr>cl_conn := Open_handle, cl_out := [sdata], cl_in := rest,
      cl_serverStartBytes := start, cl_mode := m, cl_controlMode := ctl, cl_testMode := tst, cl_controlEncrypt := None,
      cl_controlDecrypt := None, cl_serverStartHMACPending := False\<rparr>)"
    using Connect_plain [of "dialled (data @ start @ rest) cenv" c "ServerGreeting_of s a b" m ctl tst data start rest
        "ServerStart_of env' iv"] env(3) p r na ServerGreeting_of_ok [OF g(1,2)] g(3) ssok start acc modes by auto
  have srok: "SetupResponse_ok ?sr" by (simp add: SetupResponse_ok_def)
  let ?cc2 = "(?cc1 rest')\<lparr>cc_mode := m, cc_controlMode := ctl, cc_testMode := tst\<rparr>"
  obtain start' where start': "ServerStart_Marshal (ServerStart_of env' iv) = Inr start'"
    "send_ServerStart env' iv ?cc2 = (Inr (), ?cc2\<lparr>cc_serverStartBytes := start',
       cc_serverStartHMACPending := controlRequiresAuthentication (cc_controlMode ?cc2), cc_out := cc_out ?cc2 @ [start']\<rparr>)"
    using send_ServerStart_ok [OF env(2) iv(2)] by blast
  have "m AND cf_SupportedModes (sv_config s) \<noteq> 0"
    using selected_offered [OF p(2) [unfolded offered_def]] by (simp add: p(3) offered_def)
  then have S: "handleClientSetup env' s (?cc1 (sdata @ rest')) = (Inr (), ?cc2\<lparr>cc_serverStartBytes := start,
      cc_serverStartHMACPending := False, cc_out := cc_out cc @ [data, start]\<rparr>)"
    using handleClientSetup_mode [OF srok sd, of "?cc1 (sdata @ rest')" rest' ctl tst env' s] r na iv start start' by simp
  show ?thesis
    unfolding shook_hands_def
  proof (intro exI conjI)
    show "sendServerGreeting env s cc = (Inr (), cc\<lparr>cc_greeting := Some (ServerGreeting_of s a b), cc_out := cc_out cc @ [data]\<rparr>)"
      by (rule g(4))
    show "Connect (dialled (data @ start @ rest) cenv) c = (Inr (), c\<lparr>cl_conn := Open_handle, cl_out := [sdata], cl_in := rest,
      cl_serverStartBytes := start, cl_mode := m, cl_controlMode := ctl, cl_testMode := tst, cl_controlEncrypt := None,
      cl_controlDecrypt := None, cl_serverStartHMACPending := False\<rparr>)" by (rule C)
    show "handleClientSetup env' s ((cc\<lparr>cc_greeting := Some (ServerGreeting_of s a b), cc_out := cc_out cc @ [data]\<rparr>)
        \<lparr>cc_in := sdata @ rest'\<rparr>) = (Inr (), ?cc2\<lparr>cc_serverStartBytes := start,
      cc_serverStartHMACPending := False, cc_out := cc_out cc @ [data, start]\<rparr>)" by (rule S)
  qed (use na cc plain_test_mode [OF r na] in \<open>simp_all add: in_step_def same_sessions_def\<close>)
qed

text \<open>The keys that the two ends derive from their secrets.\<close>

definition client_key :: "client_env \<Rightarrow> Client \<Rightarrow> bytes \<Rightarrow> bytes" where
  "client_key cenv c salt = ce_kdf cenv (cn_SharedSecret (cl_config c)) salt 1024"

definition known_client :: "Server \<Rightarrow> Client \<Rightarrow> bytes \<Rightarrow> bool" where
  "known_client s c secret \<longleftrightarrow> cn_SharedSecret (cl_config c) \<noteq> [] \<and> 0 \<notin> set (cn_KeyID (cl_config c)) \<and>
     length (cn_KeyID (cl_config c)) < 80 \<and> cf_SecretMap (sv_config s) (cn_KeyID (cl_config c)) = Some secret"

lemma handshake_secure:
  assumes env: "env_ok env" "env_ok env'" "client_env_ok cenv"
    and p: "ValidateModeMask (cn_PreferredMode (cl_config c)) = Inr ()"
      "base_security (cn_PreferredMode (cl_config c)) (offered s) = Inr b"
      "m = selected_mode b (cn_PreferredMode (cl_config c)) (offered s)"
    and b: "b \<noteq> ModeUnauthenticated"
    and r: "ResolveMixedModes m = Inr (ctl, tst)"
    and known: "known_client s c secret"
    and kdf: "\<forall>secret salt n. length (ce_kdf cenv secret salt n) = 48" "\<forall>secret salt n. length (ev_kdf env' secret salt n) = 48"
  shows "\<exists>cc' c' salt. shook_hands env env' cenv s cc c rest rest' cc' c' \<and> same_sessions c c' \<and>
    cc_sessions cc' = cc_sessions cc \<and> cl_controlMode c' = ctl \<and> cl_testMode c' = tst \<and> ev_random env 1 16 = Inr salt \<and>
    (in_step c' cc' \<longleftrightarrow> client_key cenv c salt = ev_kdf env' secret salt 1024)"
proof -
  have auth: "controlRequiresAuthentication ctl" using selected_auth [OF p(2)] r p(3) b by simp
  obtain a salt data where g: "length a = 16" "ev_random env 1 16 = Inr salt" "length salt = 16"
    "ServerGreeting_Marshal (ServerGreeting_of s a salt) = Inr data"
    "sendServerGreeting env s cc = (Inr (), cc\<lparr>cc_greeting := Some (ServerGreeting_of s a salt), cc_out := cc_out cc @ [data]\<rparr>)"
    using sendServerGreeting_ok [OF env(1), of s] by blast
  let ?g = "ServerGreeting_of s a salt"
  have gf: "sg_Modes ?g = offered s" "sg_Salt ?g = salt" "unat (sg_Count ?g) = 1024"
    by (simp_all add: ServerGreeting_of_def offered_def)
  note gok = ServerGreeting_of_ok [OF g(1,3), of s]
  obtain civ where civ: "ce_random cenv 16 = Inr civ" "length civ = 16"
    using env(3) by (auto simp: client_env_ok_def)
  define k where "k = client_key cenv c salt"
  define k' where "k' = ev_kdf env' secret salt 1024"
  have kl: "length k = 48" "length k' = 48" using kdf by (simp_all add: k_def k'_def client_key_def)
  define sr where "sr = secure_response m (cn_KeyID (cl_config c)) ?g k civ"
  have kn: "0 \<notin> set (cn_KeyID (cl_config c))" "length (cn_KeyID (cl_config c)) < 80"
    "cf_SecretMap (sv_config s) (cn_KeyID (cl_config c)) = Some secret" "cn_SharedSecret (cl_config c) \<noteq> []"
    using known by (simp_all add: known_client_def)
  have gr: "setup_granted s ?g sr"
    unfolding sr_def by (rule secure_response_granted(1) [OF kn(1-3) kl(1) gok])
  have sk: "secret_keys env' s ?g sr = k'"
    using secure_response_granted(2) [OF kn(1-3) kl(1) gok] gf by (simp add: sr_def k'_def)
  have srok: "SetupResponse_ok sr"
    unfolding sr_def by (rule secure_response_ok) (use kn(2) kl(1) civ(2) gok in auto)
  obtain sdata where sd: "SetupResponse_Marshal sr = Inr sdata" using setup_codec.enc_ok [OF srok] by blast
  have srm: "sr_Mode sr = m" "sr_ClientIV sr = civ" by (simp_all add: sr_def secure_response_def)
  have offer: "sr_Mode sr AND cf_SupportedModes (sv_config s) \<noteq> 0"
    using selected_offered [OF p(2) [unfolded offered_def]] by (simp add: p(3) srm offered_def)
  let ?cc1 = "cc\<lparr>cc_greeting := Some ?g, cc_out := cc_out cc @ [data], cc_in := sdata @ rest'\<rparr>"
  have "cc_greeting ?cc1 = Some ?g" "cc_in ?cc1 = sdata @ rest'" "ResolveMixedModes (sr_Mode sr) = Inr (ctl, tst)"
    "length (secret_keys env' s ?g sr) = 48"
    using r srm sk kl by simp_all
  from setup_secure_ok [OF env(2) this(1) gok srok sd this(2,3) auth this(4) offer gr]
  obtain siv start where siv: "length siv = 16" and start: "ServerStart_Marshal (ServerStart_of env' siv) = Inr start"
    and S: "handleClientSetup env' s ?cc1 = (Inr (), secured k' sr siv start
      (?cc1\<lparr>cc_in := rest', cc_mode := m, cc_controlMode := ctl, cc_testMode := tst\<rparr>))"
    unfolding sk srm(1) by blast
  let ?cc2 = "secured k' sr siv start (?cc1\<lparr>cc_in := rest', cc_mode := m, cc_controlMode := ctl, cc_testMode := tst\<rparr>)"
  note ssok = ServerStart_of_ok [OF siv, of env']
  have ss: "sst_Accept (ServerStart_of env' siv) = AcceptOK" "sst_ServerIV (ServerStart_of env' siv) = siv"
    by (simp_all add: ServerStart_of_def)
  let ?env = "dialled (data @ start @ rest) cenv"
  let ?c = "c\<lparr>cl_conn := Open_handle, cl_out := [], cl_in := start @ rest\<rparr>"
  let ?keys = "\<lparr>AESKey = take 16 k, HMACKey = drop 16 k, TestAESKey = [], TestHMACKey = [], ClientIV = civ, ServerIV = []\<rparr>"
  let ?c1 = "?c\<lparr>cl_keyDerivation := Some ?keys\<rparr>"
  have R: "setup_response ?env ?g b m ?c = (Inr sr, ?c1)"
    using setup_response_secure [of b ?c k ?env ?g civ m] b kn kl(1) civ gok
    by (simp add: sr_def k_def client_key_def gf)
  let ?c2 = "?c1\<lparr>cl_out := [sdata], cl_in := rest, cl_serverStartBytes := start\<rparr>"
  have N: "negotiateMode ?env ?g ?c = finish_setup b m (ServerStart_of env' siv) ?c2"
    using negotiateMode_ok [of ?env ?c ?g b m sr ?c1 sdata start rest] env(3) p gf(1) R sd ssok start ss by simp
  let ?c' = "?c2\<lparr>cl_keyDerivation := Some (?keys\<lparr>ServerIV := siv\<rparr>), cl_mode := m, cl_controlMode := ctl, cl_testMode := tst,
    cl_controlEncrypt := Some \<lparr>cs_block = take 16 k, cs_iv = civ\<rparr>,
    cl_controlDecrypt := Some \<lparr>cs_block = take 16 k, cs_iv = siv\<rparr>, cl_serverStartHMACPending := True\<rparr>"
  have F: "finish_setup b m (ServerStart_of env' siv) ?c2 = (Inr (), ?c')"
    using finish_secure [OF b r auth, of ?c2 ?keys "ServerStart_of env' siv"] kl civ siv ss by simp
  have C: "Connect ?env c = (Inr (), ?c')"
    using Connect_greeted [of ?env c data "start @ rest" ?g] gok g(4) base_security_cases(4) [OF p(2)] gf(1) N F by simp
  have H: "shook_hands env env' cenv s cc c rest rest' ?cc2 ?c'"
    unfolding shook_hands_def
    by (rule exI [of _ data], rule exI [of _ sdata], rule exI [of _ start],
        rule exI [of _ "cc\<lparr>cc_greeting := Some ?g, cc_out := cc_out cc @ [data]\<rparr>"])
      (use g(5) C S in \<open>simp add: secured_def\<close>)
  have kk: "k = k'" if "take 16 k = take 16 k'" "drop 16 k = drop 16 k'" using that by (metis append_take_drop_id)
  have "in_step ?c' ?cc2 \<longleftrightarrow> k = k'"
  proof
    assume "in_step ?c' ?cc2"
    then show "k = k'" using auth kk by (auto simp: in_step_def secured_def keys_from_def ready_def secure_conn_def srm)
  next
    assume "k = k'"
    then show "in_step ?c' ?cc2"
      using auth kl civ siv by (simp add: in_step_def secured_def keys_from_def ready_def secure_conn_def stream_ok_def srm)
  qed
  then have I: "in_step ?c' ?cc2 \<longleftrightarrow> client_key cenv c salt = ev_kdf env' secret salt 1024"
    by (simp only: k_def k'_def)
  show ?thesis
  proof (intro exI conjI)
    show "shook_hands env env' cenv s cc c rest rest' ?cc2 ?c'" by (rule H)
    show "in_step ?c' ?cc2 \<longleftrightarrow> client_key cenv c salt = ev_kdf env' secret salt 1024" by (rule I)
  qed (use g(2) in \<open>simp_all add: secured_def same_sessions_def\<close>)
qed

section \<open>Messages under the keys\<close>

lemma client_send_secure:
  assumes env: "client_env_ok cenv" "cl_conn c = Open_handle" and st: "cl_controlEncrypt c = Some st"
    and k: "cl_keyDerivation c = Some keys" and mac: "length mac = 16"
    and s: "sealed_command st (HMACKey keys) (b @ mac) out st'"
  shows "client_sendControlMessage cenv (b @ zeros 16) True c =
    (Inr (), c\<lparr>cl_controlEncrypt := Some st', cl_out := cl_out c @ [out]\<rparr>)"
proof -
  have e: "CBCStream_Encrypt st (b @ mac) = (Inr out, st')" "CalculateHMAC (HMACKey keys) b = Inr mac"
    using s mac by (simp_all add: sealed_command_def)
  have m: "copy_at (b @ zeros 16) (length b) (length b + 16) mac = b @ mac"
    using copy_at_end [OF mac, of "b @ zeros 16"] by simp
  show ?thesis
    using st k by (simp add: client_sendControlMessage_def calculateHMAC_def m e client_Write_ok env)
qed

lemma sealed_reply_length:
  assumes "stream_ok st" and "sealed_reply st key pre out m st'"
  shows "length m = length out" and "16 \<le> length m"
proof -
  have "CBCStream_Decrypt st out = (Inr m, st')" using assms(2) by (simp add: sealed_reply_def)
  then have "whole_blocks out \<and> m = cbc_dec (aes_decrypt (cs_block st)) (cs_iv st) out"
    by (auto simp: CBCStream_Decrypt_def whole_blocks_def mod_eq_0_iff_dvd split: if_splits)
  moreover from this show "length m = length out"
    using assms(1) by (auto simp: stream_ok_def whole_blocks_def aes.len_cbc_dec)
  ultimately show "16 \<le> length m" using whole_blocks_16 by simp
qed

lemma client_receive_secure:
  assumes "cl_conn c = Open_handle" and st: "cl_controlDecrypt c = Some st" "stream_ok st"
    and k: "cl_keyDerivation c = Some keys"
    and r: "sealed_reply st (HMACKey keys) (if cl_serverStartHMACPending c then cl_serverStartBytes c else []) out m st'"
    and i: "cl_in c = out @ rest" and n: "n = length m"
  shows "receiveAndVerify n True c = (Inr m, c\<lparr>cl_in := rest, cl_controlDecrypt := Some st', cl_serverStartHMACPending := False\<rparr>)"
proof -
  note l = sealed_reply_length [OF st(2) r]
  have rd: "client_ReadFull (length out) c = (Inr out, c\<lparr>cl_in := rest\<rparr>)"
    using client_ReadFull_front [OF assms(1) i] by simp
  have "CBCStream_Decrypt st out = (Inr m, st')" using r by (simp add: sealed_reply_def)
  then show ?thesis
    using st(1) k r l n
    by (cases "cl_serverStartHMACPending c") (simp_all add: receiveAndVerify_def rd check_reply_def sealed_reply_def Let_def)
qed

section \<open>The same session at both ends\<close>

definition agreed_session :: "SenderSession \<Rightarrow> TestSession \<Rightarrow> bool" where
  "agreed_session ts x \<longleftrightarrow> sn_sid ts = se_sid x \<and> sn_mode ts = se_mode x \<and>
     tc_ReceiverPort (sn_config ts) = se_reflectorPort x \<and> tc_SenderPort (sn_config ts) = se_senderPort x \<and>
     tc_DSCP (sn_config ts) = se_dscp x \<and> sn_isAuthenticated ts = secure_test_mode (se_mode x) \<and>
     sn_isEncrypted ts = (se_mode x AND ModeEncrypted \<noteq> 0) \<and>
     (if secure_test_mode (se_mode x)
      then (\<exists>keys. sn_sessionKeys ts = Some keys \<and> se_sessionKeys x = Some keys \<and>
        length (TestAESKey keys) = 16 \<and> length (TestHMACKey keys) = 32 \<and>
        length (ClientIV keys) = 16 \<and> length (ServerIV keys) = 16)
      else sn_sessionKeys ts = None)"

lemma NewTestSession_secure:
  assumes "secure_test_mode m" and "DeriveTestSessionKeys (AESKey keys) (HMACKey keys) sid = Inr (a, h)"
  shows "\<exists>ts. NewTestSession config sid m (Some keys) = Inr ts \<and> sn_config ts = config \<and> sn_sid ts = sid \<and> sn_mode ts = m \<and>
    sn_isAuthenticated ts \<and> sn_isEncrypted ts = (m AND ModeEncrypted \<noteq> 0) \<and> sn_sessionKeys ts =
      Some \<lparr>AESKey = [], HMACKey = [], TestAESKey = a, TestHMACKey = h, ClientIV = ClientIV keys, ServerIV = ServerIV keys\<rparr>"
proof -
  have "(m AND securityMask) AND (ModeAuthenticated OR ModeEncrypted) \<noteq> 0"
    using assms(1) unfolding security_low secure_test_mode_def .
  then show ?thesis using assms(2) by (simp add: NewTestSession_def Let_def security_low)
qed

lemma test_keys_length:
  "DeriveTestSessionKeys k1 k2 sid = Inr (a, h) \<Longrightarrow> length a = 16 \<and> length h = 32"
  by (auto simp: DeriveTestSessionKeys_def aes_NewCipher_def aes.len_cbc_enc split: if_splits)

lemma both_sessions:
  assumes mk: "make_session s cc request sid port = Inr x" and sid: "length sid = 16"
    and mode: "cl_testMode c = cc_testMode cc"
    and fields: "rts_SenderPort request = tc_SenderPort config" "port \<noteq> 0" "tc_DSCP config < 64"
      "rts_TypePDescriptor request = push_bit 18 (ucast (tc_DSCP config))"
    and keys: "secure_test_mode (cc_testMode cc) \<Longrightarrow> cl_keyDerivation c = Some keys \<and> cc_keyDerivation cc = Some keys \<and>
      length (AESKey keys) = 16 \<and> length (HMACKey keys) = 32 \<and> length (ClientIV keys) = 16 \<and> length (ServerIV keys) = 16"
  shows "\<exists>ts. NewTestSession (answered config port) sid (cl_testMode c) (cl_keyDerivation c) = Inr ts \<and> agreed_session ts x"
proof -
  note f = make_session_fields [OF mk]
  have d: "se_dscp x = tc_DSCP config" using f fields(4) dscp_taken [OF fields(3)] by simp
  have a: "tc_ReceiverPort (answered config port) = port" "tc_SenderPort (answered config port) = tc_SenderPort config"
    "tc_DSCP (answered config port) = tc_DSCP config"
    using fields(2) by (simp_all add: answered_def)
  show ?thesis
  proof (cases "secure_test_mode (cc_testMode cc)")
    case False
    then have "cc_testMode cc AND ModeEncrypted = 0" using not_secure_test by simp
    then show ?thesis
      using NewTestSession_plain [of "cl_testMode c" "answered config port" sid "cl_keyDerivation c"] False f d a mode fields(1)
      by (auto simp: agreed_session_def secure_test_mode_def)
  next
    case True
    note k = keys [OF True]
    obtain ta th where dk: "DeriveTestSessionKeys (AESKey keys) (HMACKey keys) sid = Inr (ta, th)"
      using k sid by (simp add: DeriveTestSessionKeys_def aes_NewCipher_def)
    have "cc_testMode cc \<noteq> ModeUnauthenticated" using True by (auto simp: secure_test_mode_def)
    then have "se_sessionKeys x = Some \<lparr>AESKey = [], HMACKey = [], TestAESKey = ta, TestHMACKey = th,
        ClientIV = ClientIV keys, ServerIV = ServerIV keys\<rparr>"
      using mk k dk by (auto simp: make_session_def)
    then show ?thesis
      using NewTestSession_secure [OF True dk, of "answered config port"] True k f d a mode fields(1) test_keys_length [OF dk]
      by (auto simp: agreed_session_def)
  qed
qed

section \<open>A request from the call to the sessions\<close>

lemma RequestSession_sent:
  assumes "complete_config c config = Inr cfg" and "request_message cenv CmdRequestTWSession zeroSID cfg = Inr request"
    and "RequestTWSession_Marshal request False = Inr data"
    and "client_sendControlMessage cenv data (client_controlAuth c) c = (Inr (), c1)"
  shows "RequestSession cenv config c = receive_accept None cfg c1"
  using assms by (simp add: RequestSession_def)

lemma complete_config_in: "complete_config (c\<lparr>cl_in := b\<rparr>) config = complete_config c config"
proof -
  have "cl_testMode (c\<lparr>cl_in := b\<rparr>) = cl_testMode c" "cl_config (c\<lparr>cl_in := b\<rparr>) = cl_config c" by simp_all
  then show ?thesis unfolding complete_config_def by (simp only:)
qed

definition opened :: "control_env \<Rightarrow> client_env \<Rightarrow> TestSessionConfig \<Rightarrow> Server \<Rightarrow> controlConnection \<Rightarrow> Client \<Rightarrow>
    session_id \<Rightarrow> u16 \<Rightarrow> bytes \<Rightarrow> bytes \<Rightarrow> Server \<Rightarrow> controlConnection \<Rightarrow> Client \<Rightarrow> bool" where
  "opened env cenv config s cc c sid port rest rest' s' cc' c' \<longleftrightarrow>
    (\<exists>cmd reply x ts.
       RequestSession cenv config (c\<lparr>cl_in := reply @ rest\<rparr>) = (Inr (length (cl_heap c)), c') \<and>
       command_round env s (cc\<lparr>cc_in := cmd @ rest'\<rparr>) = Some (Inr (), s', cc') \<and>
       cl_out c' = cl_out c @ [cmd] \<and> cl_in c' = rest \<and> cc_out cc' = cc_out cc @ [reply] \<and> cc_in cc' = rest' \<and>
       cl_heap c' = cl_heap c @ [ts] \<and> cl_currentSessions c' = (cl_currentSessions c)(sid \<mapsto> length (cl_heap c)) \<and>
       sv_heap s' = sv_heap s @ [x] \<and> cc_sessions cc' = (cc_sessions cc)(sid \<mapsto> length (sv_heap s)) \<and>
       agreed_session ts x \<and> se_sid x = sid \<and> se_reflectorPort x = port)"

lemma same_refused_in:
  "request_refused env s (cc\<lparr>cc_in := b\<rparr>) request = request_refused env s cc request"
  "request_refused env s cc (request\<lparr>rts_HMAC := mac\<rparr>) = request_refused env s cc request"
  by (simp_all add: request_refused_def isUnauthReceiverAllowed_def receiverIP_def)

lemma request_plain:
  assumes step: "in_step c cc" and plain: "\<not> controlRequiresAuthentication (cc_controlMode cc)"
    and env: "env_ok env" "client_env_ok cenv"
    and cfg: "complete_config c config = Inr cfg" "tc_PaddingLength cfg \<le> 2048" "tc_DSCP cfg < 64"
    and req: "request_message cenv CmdRequestTWSession zeroSID cfg = Inr request" "\<not> request_refused env s cc request"
    and al: "allocatePort (ev_free env) (sv_portManager s) = Some (Inr port, pm)" "port \<noteq> 0"
    and sid: "ev_random env 0 16 = Inr sid"
  shows "\<exists>s' cc' c'. opened env cenv config s cc c sid port rest rest' s' cc' c' \<and> in_step c' cc'"
proof -
  note f = request_message_fields [OF req(1)]
  have ok: "RequestTWSession_ok False request"
    by (rule request_message_ok [OF req(1)]) (use cfg in \<open>simp_all add: zeroSID_def\<close>)
  obtain data where data: "RequestTWSession_Marshal request False = Inr data" using request_codec.enc_ok [OF ok] by blast
  obtain b where b: "data = b @ zeros 16" by (rule request_sealed [OF ok data])
  have l: "length sid = 16" using env_random [OF env(1), of 0 16] sid by auto
  let ?cc = "cc\<lparr>cc_in := data @ rest'\<rparr>"
  let ?reply = "accept_bytes port sid"
  have S: "cl_conn c = Open_handle" "cl_testMode c = cc_testMode cc" "cl_controlMode c = cc_controlMode cc"
    "cc_keyDerivation cc = None" "\<not> secure_test_mode (cl_testMode c)" "cl_mode c = cc_mode cc"
    using step plain by (auto simp: in_step_def)
  obtain x where x: "make_session (s\<lparr>sv_portManager := pm\<rparr>) ?cc request sid port = Inr x"
    and R: "command_round env s ?cc = Some (Inr (), fst (store_session sid x (s\<lparr>sv_portManager := pm\<rparr>) ?cc),
      ?cc\<lparr>cc_in := rest', cc_lastActivity := ev_now env,
         cc_sessions := (cc_sessions cc)(sid \<mapsto> length (sv_heap s)), cc_out := cc_out cc @ [?reply]\<rparr>)"
    using plain_request [OF env(1), of ?cc request data rest' s port pm sid] plain S(4) ok data f req(2) al sid
    by (auto simp: SessionID_IsZero_def same_refused_in)
  have m: "make_session (s\<lparr>sv_portManager := pm\<rparr>) cc request sid port = Inr x"
    using make_session_cong [of cc ?cc "s\<lparr>sv_portManager := pm\<rparr>"] x by (simp add: same_conn_def)
  obtain ts where ts: "NewTestSession (answered cfg port) sid (cl_testMode c) (cl_keyDerivation c) = Inr ts" "agreed_session ts x"
    using both_sessions [OF m l S(2), of cfg] f cfg(3) al(2) S(2,5) by auto
  let ?c = "c\<lparr>cl_in := ?reply @ rest\<rparr>"
  let ?c1 = "?c\<lparr>cl_out := cl_out c @ [data]\<rparr>"
  have na: "\<not> client_controlAuth ?c" "\<not> client_controlAuth ?c1"
    using plain S(3) by (simp_all add: client_controlAuth_iff)
  have "client_sendControlMessage cenv data (client_controlAuth ?c) ?c = (Inr (), ?c1)"
    using client_send_plain [OF env(2), of ?c b] na(1) S(1) by (simp add: b)
  moreover have "complete_config ?c config = Inr cfg" using cfg(1) by (simp add: complete_config_in)
  ultimately have "RequestSession cenv config ?c = receive_accept None cfg ?c1"
    using RequestSession_sent req(1) data by blast
  also have "\<dots> = (Inr (length (cl_heap c)), add_session sid ts (?c1\<lparr>cl_in := rest\<rparr>))"
    using receive_accept_plain [of ?c1 sid port rest None cfg ts] S(1) na(2) l ts(1) by (simp add: accept_bytes_def)
  finally have C: "RequestSession cenv config ?c = (Inr (length (cl_heap c)), add_session sid ts (?c1\<lparr>cl_in := rest\<rparr>))" .
  have fx: "se_sid x = sid" "se_reflectorPort x = port" using make_session_fields [OF m] by simp_all
  show ?thesis
    unfolding opened_def
    by (intro exI conjI, rule C, rule R)
      (use plain S ts(2) fx in \<open>simp_all add: add_session_def store_session_def in_step_def Let_def\<close>)
qed

lemma request_sealed_ex:
  assumes "RequestTWSession_ok False r" and "RequestTWSession_Marshal r False = Inr data"
  shows "\<exists>b. data = b @ zeros 16 \<and> length b = 96 \<and> b ! 0 = rts_Command r \<and> (\<forall>mac. length mac = 16 \<longrightarrow>
    RequestTWSession_Unmarshal RequestTWSession_zero (b @ mac) True = Inr (r\<lparr>rts_HMAC := mac\<rparr>))"
  by (rule request_sealed [OF assms]) (intro exI conjI allI impI; assumption?; simp)

lemma request_secure:
  assumes step: "in_step c cc" and auth: "controlRequiresAuthentication (cc_controlMode cc)"
    and env: "env_ok env" "client_env_ok cenv"
    and cfg: "complete_config c config = Inr cfg" "tc_PaddingLength cfg \<le> 2048" "tc_DSCP cfg < 64"
    and req: "request_message cenv CmdRequestTWSession zeroSID cfg = Inr request" "\<not> request_refused env s cc request"
    and al: "allocatePort (ev_free env) (sv_portManager s) = Some (Inr port, pm)" "port \<noteq> 0"
    and sid: "ev_random env 0 16 = Inr sid"
  shows "\<exists>s' cc' c'. opened env cenv config s cc c sid port rest rest' s' cc' c' \<and> in_step c' cc'"
proof -
  note f = request_message_fields [OF req(1)]
  have ok: "RequestTWSession_ok False request"
    by (rule request_message_ok [OF req(1)]) (use cfg in \<open>simp_all add: zeroSID_def\<close>)
  obtain data where data: "RequestTWSession_Marshal request False = Inr data" using request_codec.enc_ok [OF ok] by blast
  obtain b where b: "data = b @ zeros 16" "length b = 96" "b ! 0 = rts_Command request"
    "\<forall>mac. length mac = 16 \<longrightarrow>
      RequestTWSession_Unmarshal RequestTWSession_zero (b @ mac) True = Inr (request\<lparr>rts_HMAC := mac\<rparr>)"
    using request_sealed_ex [OF ok data] by blast
  have l: "length sid = 16" using env_random [OF env(1), of 0 16] sid by auto
  obtain keys st_in st_out where K: "cl_keyDerivation c = Some keys" "cl_controlEncrypt c = Some st_in"
    "cl_controlDecrypt c = Some st_out" "ready st_in st_out keys cc" "length (ClientIV keys) = 16" "length (ServerIV keys) = 16"
    "cl_serverStartHMACPending c = cc_serverStartHMACPending cc" "cl_serverStartBytes c = cc_serverStartBytes cc"
    and S: "cl_conn c = Open_handle" "cl_testMode c = cc_testMode cc" "cl_controlMode c = cc_controlMode cc" "cl_mode c = cc_mode cc"
    using step auth by (auto simp: in_step_def)
  have kk: "stream_ok st_in" "stream_ok st_out" "cc_keyDerivation cc = Some keys" "length (HMACKey keys) = 32" "length (AESKey keys) = 16"
    using K(4) by (simp_all add: ready_def secure_conn_def)
  have w: "whole_blocks (b @ zeros 16)" using b(2) by (auto simp: whole_blocks_def)
  have cmd0: "controlCommandLength ((b @ mac) ! 0) (b @ mac) = Inr (length b + 16)" for mac
    using b(2,3) f by (simp add: nth_append controlCommandLength_def)
  obtain mac cmd st_in' where cmd: "length mac = 16" "sealed_command st_in (HMACKey keys) (b @ mac) cmd st_in'" "stream_ok st_in'"
    by (rule sealed_exists [OF kk(1,4) w cmd0])
  let ?cc = "cc\<lparr>cc_in := cmd @ rest'\<rparr>" and ?req = "request\<lparr>rts_HMAC := mac\<rparr>"
  have rdy: "ready st_in st_out keys ?cc" using K(4) by (simp add: ready_def secure_conn_def)
  have q: "RequestTWSession_Unmarshal RequestTWSession_zero (b @ mac) True = Inr ?req" "(b @ mac) ! 0 = CmdRequestTWSession"
    "SessionID_IsZero (rts_SID ?req)" "\<not> request_refused env s ?cc ?req" "cc_in ?cc = cmd @ rest'"
    using b f cmd(1) req(2) by (simp_all add: nth_append SessionID_IsZero_def same_refused_in)
  obtain x st_out' reply mac' where x: "make_session (s\<lparr>sv_portManager := pm\<rparr>) ?cc ?req sid port = Inr x"
    and r: "stream_ok st_out'" "length mac' = 16" "sealed_reply st_out (HMACKey keys) (owed_prefix ?cc) reply
      ([AcceptOK, 0] @ be16 port @ sid @ zeros 12 @ mac') st_out'"
    and R: "command_round env s ?cc = Some (Inr (), fst (store_session sid x (s\<lparr>sv_portManager := pm\<rparr>) ?cc),
      replied st_out' reply (?cc\<lparr>cc_in := rest', cc_controlDecrypt := Some st_in', cc_lastActivity := ev_now env,
        cc_sessions := (cc_sessions ?cc)(sid \<mapsto> length (sv_heap s))\<rparr>))"
    using secure_request [OF env(1) rdy cmd(2,3) q(5,1-4) al(1) sid] by blast
  have m: "make_session (s\<lparr>sv_portManager := pm\<rparr>) cc ?req sid port = Inr x"
    using make_session_cong [of cc ?cc "s\<lparr>sv_portManager := pm\<rparr>"] x by (simp add: same_conn_def)
  obtain ts where ts: "NewTestSession (answered cfg port) sid (cl_testMode c) (cl_keyDerivation c) = Inr ts" "agreed_session ts x"
    using both_sessions [OF m l S(2), of cfg keys] f cfg(3) al(2) K kk by auto
  let ?c = "c\<lparr>cl_in := reply @ rest\<rparr>"
  let ?c1 = "?c\<lparr>cl_controlEncrypt := Some st_in', cl_out := cl_out c @ [cmd]\<rparr>"
  have a: "client_controlAuth ?c" "client_controlAuth ?c1" using auth S(3) by (simp_all add: client_controlAuth_iff)
  have "client_sendControlMessage cenv data (client_controlAuth ?c) ?c = (Inr (), ?c1)"
    using client_send_secure [OF env(2), of ?c st_in keys mac b cmd st_in'] S(1) K cmd a by (simp add: b(1))
  moreover have "complete_config ?c config = Inr cfg" using cfg(1) by (simp add: complete_config_in)
  ultimately have C1: "RequestSession cenv config ?c = receive_accept None cfg ?c1"
    using RequestSession_sent req(1) data by blast
  let ?m = "[AcceptOK, 0] @ be16 port @ sid @ zeros 12 @ mac'"
  let ?c2 = "?c1\<lparr>cl_in := rest, cl_controlDecrypt := Some st_out', cl_serverStartHMACPending := False\<rparr>"
  have pre: "sealed_reply st_out (HMACKey keys) (if cl_serverStartHMACPending ?c1 then cl_serverStartBytes ?c1 else []) reply ?m st_out'"
    using r(3) K(7,8) by (cases "cc_serverStartHMACPending cc") (simp_all add: owed_prefix_def)
  have "receiveAndVerify AcceptSessionSize True ?c1 = (Inr ?m, ?c2)"
    by (rule client_receive_secure [OF _ _ kk(2) _ pre]) (use S(1) K r(2) l in simp_all)
  then have rv: "receiveAndVerify AcceptSessionSize (client_controlAuth ?c1) ?c1 = (Inr ?m, ?c2)" using a by simp
  let ?a = "AcceptSession_zero\<lparr>as_Accept := AcceptOK, as_Port := port, as_SID := sid, as_HMAC := mac'\<rparr>"
  have u: "AcceptSession_Unmarshal AcceptSession_zero ?m (client_controlAuth ?c1) = Inr ?a"
    using AcceptSession_data(2) [OF l r(2), of AcceptOK port] a by simp
  have "receive_accept None cfg ?c1 = (Inr (length (cl_heap c)), add_session sid ts ?c2)"
    using receive_accept_ok [OF rv _ u, of None cfg ts] ts(1) by simp
  with C1 have C: "RequestSession cenv config ?c = (Inr (length (cl_heap c)), add_session sid ts ?c2)" by simp
  have fx: "se_sid x = sid" "se_reflectorPort x = port" using make_session_fields [OF m] by simp_all
  show ?thesis
    unfolding opened_def
    by (intro exI conjI, rule C, rule R)
      (use auth S K kk cmd(3) r(1) ts(2) fx in
        \<open>simp_all add: add_session_def store_session_def in_step_def replied_def ready_def secure_conn_def Let_def\<close>)
qed

section \<open>Properties\<close>

text \<open>C6: the handshake of a client with a server. When they share a security mode and, for a secure one,
  the server knows the client's key identifier, the handshake ends without an error at both ends,
  whatever their secrets are, with the modes that the negotiated mode resolves to. After it the two
  ends are in step, with the same keys, streams at the same points and the same Server-Start message to
  cover, exactly when control is plain or both derived the same key from their secrets and the
  salt of the greeting.\<close>

theorem handshake_agrees:
  assumes "env_ok env" and "env_ok env'" and "client_env_ok cenv"
    and "ValidateModeMask (cn_PreferredMode (cl_config c)) = Inr ()"
    and "base_security (cn_PreferredMode (cl_config c)) (offered s) = Inr b"
    and "ResolveMixedModes (selected_mode b (cn_PreferredMode (cl_config c)) (offered s)) = Inr (ctl, tst)"
    and "b \<noteq> ModeUnauthenticated \<Longrightarrow> known_client s c secret"
    and "\<forall>secret salt n. length (ce_kdf cenv secret salt n) = 48" and "\<forall>secret salt n. length (ev_kdf env' secret salt n) = 48"
    and "cc_keyDerivation cc = None"
  shows "\<exists>cc' c' salt. shook_hands env env' cenv s cc c rest rest' cc' c' \<and> same_sessions c c' \<and>
    cl_controlMode c' = ctl \<and> cl_testMode c' = tst \<and> ev_random env 1 16 = Inr salt \<and>
    (in_step c' cc' \<longleftrightarrow> b = ModeUnauthenticated \<or> client_key cenv c salt = ev_kdf env' secret salt 1024)"
proof (cases "b = ModeUnauthenticated")
  case True
  obtain salt where "ev_random env 1 16 = Inr salt" using env_random [OF assms(1)] by blast
  with True show ?thesis
    using handshake_plain [OF assms(1-4) assms(5) [unfolded True] refl assms(6) [unfolded True] assms(10), of rest rest'] by metis
next
  case False
  with handshake_secure [OF assms(1-5) refl False assms(6) assms(7) [OF False] assms(8,9), of cc rest rest'] show ?thesis
    by metis
qed

text \<open>The witness: encrypted control with the secret that the empty key identifier names.\<close>

lemma demo_pair:
  "ValidateModeMask (cn_PreferredMode (cl_config (demo_client 4))) = Inr ()"
  "base_security (cn_PreferredMode (cl_config (demo_client 4))) (offered (demo_server 4 mn mx)) = Inr 4"
  "selected_mode 4 (cn_PreferredMode (cl_config (demo_client 4))) (offered (demo_server 4 mn mx)) = 4"
  "ResolveMixedModes 4 = Inr (4, 4)" "known_client (demo_server 4 mn mx) (demo_client 4) [1]"
  "\<forall>secret salt n. length (ce_kdf (demo_client_env []) secret salt n) = 48"
  "\<forall>secret salt n. length (ev_kdf demo_env secret salt n) = 48"
  "cc_keyDerivation (new_connection 0 [10, 0, 0, 2] [10, 0, 0, 1] []) = None"
  by (simp_all add: demo_client_def NewClient_def ValidateModeMask_def base_security_def offered_def demo_server_def
      demo_config_def selected_mode_def securityMask_def ResolveMixedModes_def ValidateRequestedMode_def
      known_client_def demo_client_env_def demo_env_def new_connection_def)

theorem handshake_agrees_witness:
  "\<exists>cc' c'. shook_hands demo_env demo_env (demo_client_env []) (demo_server 4 0 0) (new_connection 0 [10, 0, 0, 2] [10, 0, 0, 1] [])
     (demo_client 4) [] [] cc' c' \<and> in_step c' cc' \<and> cl_controlMode c' = 4"
proof -
  have r: "ResolveMixedModes (selected_mode 4 (cn_PreferredMode (cl_config (demo_client 4))) (offered (demo_server 4 0 0))) = Inr (4, 4)"
    by (simp only: demo_pair)
  have "client_key (demo_client_env []) (demo_client 4) salt = ev_kdf demo_env [1] salt 1024" for salt
    by (simp add: client_key_def demo_client_env_def demo_env_def)
  with handshake_agrees [OF demo_env_ok demo_env_ok demo_client_env_ok demo_pair(1,2) r demo_pair(5-8), of "[]" "[]"]
  show ?thesis by metis
qed

text \<open>The two ends of an encrypted connection, and a request that the server does not refuse.\<close>

lemma demo_ends:
  "\<exists>cc c. in_step c cc \<and> cl_controlMode c = 4 \<and> cl_testMode c = 4 \<and> same_sessions (demo_client 4) c \<and> cc_sessions cc = Map.empty"
proof -
  have r: "ResolveMixedModes (selected_mode 4 (cn_PreferredMode (cl_config (demo_client 4))) (offered (demo_server 4 20000 30000))) = Inr (4, 4)"
    by (simp only: demo_pair)
  have k: "client_key (demo_client_env []) (demo_client 4) salt = ev_kdf demo_env [1] salt 1024" for salt
    by (simp add: client_key_def demo_client_env_def demo_env_def)
  have "cc_sessions (new_connection 0 [] [] []) = Map.empty" by (simp add: new_connection_def)
  with k handshake_secure [OF demo_env_ok demo_env_ok demo_client_env_ok demo_pair(1,2) refl _ r demo_pair(5-7),
      of "new_connection 0 [] [] []" "[]" "[]"]
  show ?thesis by auto
qed

lemma demo_asks:
  assumes "in_step c cc" and "cl_controlMode c = 4" and "cl_testMode c = 4"
  shows "\<exists>cfg request. complete_config c demo_session_config = Inr cfg \<and> tc_PaddingLength cfg \<le> 2048 \<and> tc_DSCP cfg < 64 \<and>
    request_message (demo_client_env []) CmdRequestTWSession zeroSID cfg = Inr request \<and>
    \<not> request_refused demo_env (demo_server 4 20000 30000) cc request"
proof -
  have cc: "cc_controlMode cc = 4" "cc_testMode cc = 4" using assms by (simp_all add: in_step_def)
  let ?cfg = "demo_session_config\<lparr>tc_PaddingLength := 56, tc_Timeout := 3000000000\<rparr>"
  have cfg: "complete_config c demo_session_config = Inr ?cfg"
    by (simp add: complete_config_def assms calculateMinPadding_def demo_session_config_def securityMask_def Let_def)
  obtain request where q: "request_message (demo_client_env []) CmdRequestTWSession zeroSID ?cfg = Inr request"
    by (simp add: request_message_def parseAndValidateIP_def demo_client_env_def IP_To4_def Let_def)
  have "\<not> request_refused demo_env (demo_server 4 20000 30000) cc request"
    using request_message_fields [OF q] cc demo_modes(5) by (simp add: request_refused_def maxSenderPadding_def)
  moreover have "tc_PaddingLength ?cfg \<le> 2048" "tc_DSCP ?cfg < 64" by (simp_all add: demo_session_config_def)
  ultimately show ?thesis using cfg q by blast
qed

text \<open>C7: a session request from the client's call to the sessions at both ends. Two ends in step, in plain or
  secure control; the request fits the limits and the server does not refuse it. Then the message that
  the client writes makes the server write a reply, and with that reply the call returns a session;
  the server has the same one, with the same identifier, mode, ports and DSCP, and in a secure test mode
  the same test keys; its receiver port is the one the server allocated. Each side added that
  session and no other, all the bytes written were read, and the ends are in step again.\<close>

theorem session_opened:
  assumes "in_step c cc" and "env_ok env" and "client_env_ok cenv"
    and "complete_config c config = Inr cfg" and "tc_PaddingLength cfg \<le> 2048" and "tc_DSCP cfg < 64"
    and "request_message cenv CmdRequestTWSession zeroSID cfg = Inr request" and "\<not> request_refused env s cc request"
    and "allocatePort (ev_free env) (sv_portManager s) = Some (Inr port, pm)" and "port \<noteq> 0"
    and "ev_random env 0 16 = Inr sid"
  shows "\<exists>s' cc' c'. opened env cenv config s cc c sid port rest rest' s' cc' c' \<and> in_step c' cc'"
proof (cases "controlRequiresAuthentication (cc_controlMode cc)")
  case True
  show ?thesis by (rule request_secure [OF assms(1) True assms(2-11)])
next
  case False
  show ?thesis by (rule request_plain [OF assms(1) False assms(2-11)])
qed

theorem session_opened_witness:
  "\<exists>c cc s' cc' c'. controlRequiresAuthentication (cc_controlMode cc) \<and>
     opened demo_env (demo_client_env []) demo_session_config (demo_server 4 20000 30000) cc c (zeros 16) 20000 [] [] s' cc' c' \<and>
     in_step c' cc'"
proof -
  obtain cc c where c: "in_step c cc" "cl_controlMode c = 4" "cl_testMode c = 4" using demo_ends by blast
  obtain cfg request where q: "complete_config c demo_session_config = Inr cfg" "tc_PaddingLength cfg \<le> 2048" "tc_DSCP cfg < 64"
    "request_message (demo_client_env []) CmdRequestTWSession zeroSID cfg = Inr request"
    "\<not> request_refused demo_env (demo_server 4 20000 30000) cc request"
    using demo_asks [OF c] by blast
  have "(20000 :: u16) \<noteq> 0" "ev_random demo_env 0 16 = Inr (zeros 16)" by (simp_all add: demo_env_def)
  from session_opened [OF c(1) demo_env_ok demo_client_env_ok q demo_alloc this, of "[]" "[]"]
  show ?thesis using c demo_modes(5) unfolding in_step_def by metis
qed

end
