(* ===== verification/Packet_Round.thy ===== *)
theory Packet_Round
  imports End_To_End
begin

text \<open>
  One test packet from the sender to the reflector and back: what \<open>SendTestPacket\<close> writes, what
  the reflector of the same session reads in it and answers, and what the sender takes from the answer.
\<close>

section \<open>What the sender writes\<close>

lemma fill_padding_random:
  assumes "rnd (length buf - h) = Inr r" and "length r = length buf - h" and "n = int (length buf - h)"
  shows "fill_padding rnd h n None buf = fill_padding rnd h n (Some r) buf"
  using assms by (simp add: fill_padding_def)

lemma octets_random:
  assumes "rnd (nat n) = Inr r" and "length r = nat n" and "0 \<le> n"
  shows "SenderTestPacketReflectOctets_Marshal rnd \<lparr>so_SeqNumber = sq, so_Timestamp = t, so_ErrorEstimate = ee,
      so_PaddingSize = n, so_PaddingData = None\<rparr> =
    SenderTestPacketReflectOctets_Marshal rnd \<lparr>so_SeqNumber = sq, so_Timestamp = t, so_ErrorEstimate = ee,
      so_PaddingSize = n, so_PaddingData = (if n = 0 then None else Some r)\<rparr>"
  using assms by (auto simp: SenderTestPacketReflectOctets_Marshal_def pool_slice_def Let_def nat_add_distrib fill_padding_random)

lemma auth_octets_random:
  assumes "rnd (nat n) = Inr r" and "length r = nat n" and "0 \<le> n"
  shows "SenderTestPacketAuthReflectOctets_Marshal rnd \<lparr>sao_SeqNumber = sq, sao_MBZ = m, sao_Timestamp = t,
      sao_ErrorEstimate = ee, sao_MBZ2 = m2, sao_HMAC = mac, sao_PaddingSize = n, sao_PaddingData = None\<rparr> =
    SenderTestPacketAuthReflectOctets_Marshal rnd \<lparr>sao_SeqNumber = sq, sao_MBZ = m, sao_Timestamp = t,
      sao_ErrorEstimate = ee, sao_MBZ2 = m2, sao_HMAC = mac, sao_PaddingSize = n,
      sao_PaddingData = (if n = 0 then None else Some r)\<rparr>"
  using assms by (auto simp: SenderTestPacketAuthReflectOctets_Marshal_def pool_slice_def Let_def nat_add_distrib fill_padding_random)

lemma padding_int: "tc_PaddingLength cfg \<le> n \<Longrightarrow> uint (tc_PaddingLength cfg) \<le> uint n"
  by (simp add: word_le_def)

lemma marshal_test_packet_cases:
  "marshal_test_packet rnd ts sq t ee =
    (if sn_isAuthenticated ts then
       (if bit (sn_mode ts) 5 then
          SenderTestPacketAuthReflectOctets_Marshal rnd \<lparr>sao_SeqNumber = sq, sao_MBZ = zeros 12, sao_Timestamp = t,
            sao_ErrorEstimate = ee, sao_MBZ2 = zeros 6, sao_HMAC = zeros 16,
            sao_PaddingSize = int (unat (tc_PaddingLength (sn_config ts))), sao_PaddingData = None\<rparr>
        else SenderTestPacketAuth_Marshal rnd \<lparr>ta_SeqNumber = sq, ta_MBZ = zeros 12, ta_Timestamp = t,
            ta_ErrorEstimate = ee, ta_MBZ2 = zeros 6, ta_HMAC = zeros 16,
            ta_PaddingSize = int (unat (tc_PaddingLength (sn_config ts)))\<rparr>)
     else if bit (sn_mode ts) 5 then
       SenderTestPacketReflectOctets_Marshal rnd \<lparr>so_SeqNumber = sq, so_Timestamp = t, so_ErrorEstimate = ee,
         so_PaddingSize = int (unat (tc_PaddingLength (sn_config ts))), so_PaddingData = None\<rparr>
     else SenderTestPacket_Marshal \<lparr>tp_SeqNumber = sq, tp_Timestamp = t, tp_ErrorEstimate = ee,
         tp_PaddingSize = int (unat (tc_PaddingLength (sn_config ts)))\<rparr>)"
  by (simp add: marshal_test_packet_def Let_def)

lemma marshal_plain_packet:
  assumes "\<not> sn_isAuthenticated ts" and "unat (tc_PaddingLength (sn_config ts)) = n" and "n \<le> 2034" and "rand_ok rnd"
  obtains r where "length r = n"
    and "marshal_test_packet rnd ts sq t ee = Inr (be32 sq @ TWAMPTimestamp_bytes t @ ee_bytes ee @ r)"
proof (cases "bit (sn_mode ts) 5")
  case False
  then show thesis
    using assms that [of "zeros n"] SenderTestPacket_Marshal_eq [of "\<lparr>tp_SeqNumber = sq, tp_Timestamp = t,
      tp_ErrorEstimate = ee, tp_PaddingSize = int n\<rparr>"]
    unfolding marshal_test_packet_cases by simp
next
  case True
  obtain r where r: "rnd n = Inr r" "length r = n" using assms(4) by (rule rand_okE)
  let ?p = "\<lparr>so_SeqNumber = sq, so_Timestamp = t, so_ErrorEstimate = ee, so_PaddingSize = int n,
    so_PaddingData = (if int n = 0 then None else Some r)\<rparr>"
  have "padding_ok 14 (so_PaddingSize ?p) (so_PaddingData ?p)" using assms(3) r by (auto simp: padding_ok_def)
  note SenderTestPacketReflectOctets_Marshal_eq [OF this, of rnd]
  moreover have "marshal_test_packet rnd ts sq t ee = SenderTestPacketReflectOctets_Marshal rnd ?p"
    using True assms(1,2) octets_random [of rnd "int n" r] r unfolding marshal_test_packet_cases by simp
  moreover have "padding_data (so_PaddingData ?p) = r" using r by (auto simp: padding_data_def)
  ultimately show thesis using that [OF r(2)] by simp
qed

lemma marshal_secure_packet:
  assumes "sn_isAuthenticated ts" and "unat (tc_PaddingLength (sn_config ts)) = n" and "n \<le> 2000" and "rand_ok rnd"
  obtains r where "length r = n"
    and "marshal_test_packet rnd ts sq t ee = Inr (sender_auth_header sq t ee (zeros 16) @ r)"
proof (cases "bit (sn_mode ts) 5")
  case False
  define p where "p = \<lparr>ta_SeqNumber = sq, ta_MBZ = zeros 12, ta_Timestamp = t, ta_ErrorEstimate = ee,
    ta_MBZ2 = zeros 6, ta_HMAC = zeros 16, ta_PaddingSize = int n\<rparr>"
  obtain r where "length r = nat (ta_PaddingSize p)" "SenderTestPacketAuth_Marshal rnd p =
      Inr (sender_auth_header (ta_SeqNumber p) (ta_Timestamp p) (ta_ErrorEstimate p) (ta_HMAC p) @ r)"
    by (rule SenderTestPacketAuth_Marshal_eq [OF assms(4), of p]) (use assms(3) in \<open>simp_all add: p_def\<close>)
  with False assms that [of r] show thesis unfolding marshal_test_packet_cases by (simp add: p_def)
next
  case True
  obtain r where r: "rnd n = Inr r" "length r = n" using assms(4) by (rule rand_okE)
  let ?p = "\<lparr>sao_SeqNumber = sq, sao_MBZ = zeros 12, sao_Timestamp = t, sao_ErrorEstimate = ee, sao_MBZ2 = zeros 6,
    sao_HMAC = zeros 16, sao_PaddingSize = int n, sao_PaddingData = (if int n = 0 then None else Some r)\<rparr>"
  have "padding_ok 48 (sao_PaddingSize ?p) (sao_PaddingData ?p)" "length (sao_HMAC ?p) = 16"
    using assms(3) r by (auto simp: padding_ok_def)
  note SenderTestPacketAuthReflectOctets_Marshal_eq [OF this, of rnd]
  moreover have "marshal_test_packet rnd ts sq t ee = SenderTestPacketAuthReflectOctets_Marshal rnd ?p"
    using True assms(1,2) auth_octets_random [of rnd "int n" r] r unfolding marshal_test_packet_cases by simp
  moreover have "padding_data (sao_PaddingData ?p) = r" using r by (auto simp: padding_data_def)
  ultimately show thesis using that [OF r(2)] by simp
qed

text \<open>Sealing a packet with 32 bytes in front of its HMAC.\<close>

lemma seal_test_packet_ok:
  assumes "sn_isAuthenticated ts" and "sn_sessionKeys ts = Some keys" and "sn_isEncrypted ts = (m AND ModeEncrypted \<noteq> 0)"
    and "length h = 32" and "length z = 16" and "length (TestAESKey keys) = 16"
    and "length (ClientIV keys) = 16" and "length (TestHMACKey keys) = 32"
  obtains c where "seal_test_packet ts (h @ z @ r) = Inr c" and "length c = 48 + length r"
    and "open_packet m keys c = Inr (h @ packet_hmac m False keys h @ r)"
proof -
  let ?enc = "m AND ModeEncrypted \<noteq> 0" and ?mac = "packet_hmac m False keys h"
  let ?raw = "h @ ?mac @ r"
  have cov: "HMACCoverage ?enc False \<le> 32" by (simp add: HMACCoverage_def)
  have pre: "seg 0 (HMACCoverage ?enc False) (h @ y) = seg 0 (HMACCoverage ?enc False) h" for y
    using cov assms(4) by (simp add: seg_def)
  have "CalculateHMAC (TestHMACKey keys) (seg 0 (HMACCoverage ?enc False) (h @ z @ r)) = Inr ?mac"
    using assms(8) unfolding pre by (simp add: CalculateHMAC_def packet_hmac_def)
  moreover have "copy_at (h @ z @ r) 32 48 ?mac = ?raw" using assms(4,5) by (simp add: copy_at_def)
  moreover obtain c where c: "EncryptTWAMPTestPacket (TestAESKey keys) (ClientIV keys) ?raw (\<not> ?enc) = Inr c"
    using assms by (simp add: EncryptTWAMPTestPacket_def encryptTestPacket_eq min_packet_def)
  ultimately have "seal_test_packet ts (h @ z @ r) = Inr c"
    using assms(1-5) by (simp add: seal_test_packet_def Let_def)
  moreover have "length c = 48 + length r"
    using encryptTestPacket_rest [OF c [unfolded EncryptTWAMPTestPacket_def]] assms(4) by simp
  moreover have "packet_hmac m False keys ?raw = ?mac" "seg 32 48 ?raw = ?mac"
    unfolding packet_hmac_def [of m False keys ?raw] pre using assms(4) by (simp_all add: packet_hmac_def seg_def)
  then have "open_packet m keys c = Inr ?raw" using c assms(8) by (simp add: open_packet_iff)
  ultimately show thesis by (rule that)
qed

section \<open>What the reflector reads\<close>

text \<open>The fields of one packet of the sender.\<close>

definition sent_info :: "u32 \<Rightarrow> TWAMPTimestamp \<Rightarrow> ErrorEstimate \<Rightarrow> bytes \<Rightarrow> sender_info" where
  "sent_info sq t ee pad = \<lparr>si_SeqNo = sq, si_Timestamp = t, si_ErrorEstimate = ee, si_Padding = pad\<rparr>"

lemma plain_parse:
  assumes "\<not> secure_test_mode (se_mode x)" and "Scale ee < 64"
  shows "parse_packet x (be32 sq @ TWAMPTimestamp_bytes t @ ee_bytes ee @ r) =
    Inr (sent_info sq t ee (if bit (se_mode x) 5 then r else []))"
  using assms by (auto simp: parse_packet_def SenderTestPacketReflectOctets_Unmarshal_def SenderTestPacket_Unmarshal_def Let_def
      SenderTestPacketReflectOctets_zero_def SenderTestPacket_zero_def padding_data_def sent_info_def reading)

lemma sender_header_split: "sender_auth_header sq t ee mac = sender_auth_header sq t ee [] @ mac"
  by (simp add: sender_auth_header_def)

lemma length_sender_header_nil: "length (sender_auth_header sq t ee []) = 32"
  by (simp add: sender_auth_header_def)

lemma sealed_parse:
  assumes "secure_test_mode (se_mode x)" and "se_sessionKeys x = Some keys" and "Scale ee < 64" and "length mac = 16"
    and "open_packet (se_mode x) keys c = Inr (sender_auth_header sq t ee [] @ mac @ r)"
  shows "parse_packet x c = Inr (sent_info sq t ee (if bit (se_mode x) 5 then r else []))"
proof -
  have "sender_auth_header sq t ee [] @ mac @ r = sender_auth_header sq t ee mac @ r"
    by (simp add: sender_header_split [of _ _ _ mac])
  moreover have "SenderTestPacketAuth_Unmarshal SenderTestPacketAuth_zero (sender_auth_header sq t ee mac @ r) =
      Inr \<lparr>ta_SeqNumber = sq, ta_MBZ = zeros 12, ta_Timestamp = t, ta_ErrorEstimate = ee, ta_MBZ2 = zeros 6,
        ta_HMAC = mac, ta_PaddingSize = int (length r)\<rparr>"
    using assms(3,4) by (simp add: sender_auth_header_def reading SenderTestPacketAuth_Unmarshal_def SenderTestPacketAuth_zero_def)
  ultimately show ?thesis
    using secure_parse(1) [OF assms(1,2), of c "sender_auth_header sq t ee mac @ r"] assms(4,5) by (simp add: sent_info_def)
qed

text \<open>A packet of the sender, as the reflector of the same session reads it.\<close>

lemma packet_sent:
  assumes "agreed_session ts x" and "unat (tc_PaddingLength (sn_config ts)) = n" and "n \<le> 2000" and "rand_ok rnd" and "Scale ee < 64"
  obtains raw c pad where "marshal_test_packet rnd ts sq t ee = Inr raw" and "seal_test_packet ts raw = Inr c"
    and "length c = (if secure_test_mode (se_mode x) then 48 else 14) + n" and "length pad = (if bit (se_mode x) 5 then n else 0)"
    and "parse_packet x c = Inr (sent_info sq t ee pad)"
proof (cases "secure_test_mode (se_mode x)")
  case False
  then have ts: "\<not> sn_isAuthenticated ts" using assms(1) by (simp add: agreed_session_def)
  obtain r where r: "length r = n" "marshal_test_packet rnd ts sq t ee = Inr (be32 sq @ TWAMPTimestamp_bytes t @ ee_bytes ee @ r)"
    by (rule marshal_plain_packet [OF ts assms(2) _ assms(4), of sq t ee]) (use assms(3) in simp_all)
  have "seal_test_packet ts raw = Inr raw" for raw using ts by (simp add: seal_test_packet_def)
  then show thesis by (rule that [OF r(2) _ _ _ plain_parse [OF False assms(5)]]) (use False r(1) in simp_all)
next
  case True
  then obtain keys where k: "sn_isAuthenticated ts" "sn_isEncrypted ts = (se_mode x AND ModeEncrypted \<noteq> 0)"
    "sn_sessionKeys ts = Some keys" "se_sessionKeys x = Some keys" "length (TestAESKey keys) = 16"
    "length (ClientIV keys) = 16" "length (TestHMACKey keys) = 32"
    using assms(1) by (auto simp: agreed_session_def)
  let ?h = "sender_auth_header sq t ee []"
  obtain r where r: "length r = n" "marshal_test_packet rnd ts sq t ee = Inr (?h @ zeros 16 @ r)"
    using marshal_secure_packet [OF k(1) assms(2,3,4), of sq t ee thesis] by (simp add: sender_header_split [of _ _ _ "zeros 16"])
  obtain c where c: "seal_test_packet ts (?h @ zeros 16 @ r) = Inr c" "length c = 48 + length r"
    "open_packet (se_mode x) keys c = Inr (?h @ packet_hmac (se_mode x) False keys ?h @ r)"
    by (rule seal_test_packet_ok [OF k(1,3,2), of ?h "zeros 16" r]) (use k in \<open>simp_all add: length_sender_header_nil\<close>)
  note p = sealed_parse [OF True k(4) assms(5) _ c(3)]
  show thesis by (rule that [OF r(2) c(1) _ _ p]) (use True c(2) r(1) in simp_all)
qed

section \<open>What the sender takes from the answer\<close>

definition answer_info :: "sender_info \<Rightarrow> u32 \<Rightarrow> TWAMPTimestamp \<Rightarrow> TWAMPTimestamp \<Rightarrow> u8 \<Rightarrow> reply_info" where
  "answer_info si sq rx tx ttl = \<lparr>ri_SenderSeqNo = si_SeqNo si, ri_ReflectorSeqNo = sq, ri_SenderTimestamp = si_Timestamp si,
     ri_RxTimestamp = rx, ri_TxTimestamp = tx, ri_SenderErrEst = si_ErrorEstimate si,
     ri_ReflectorErrEst = reflectorErrorEstimate, ri_SenderTTL = ttl\<rparr>"

lemma reply_plain_raw:
  assumes "n \<le> 2048" and "n \<le> 41 + length (si_Padding si) \<or> \<not> bit (se_mode x) 5" and "length (si_Padding si) \<le> 2007"
  obtains r where "reply_plain x si n ttl rx tx = Inr (be32 (se_reflectedPackets x) @ TWAMPTimestamp_bytes tx @
      ee_bytes reflectorErrorEstimate @ zeros 2 @ TWAMPTimestamp_bytes rx @ be32 (si_SeqNo si) @
      TWAMPTimestamp_bytes (si_Timestamp si) @ ee_bytes (si_ErrorEstimate si) @ zeros 2 @ [ttl] @ r)"
    and "length r = (if bit (se_mode x) 5 then length (si_Padding si) else n - 41)"
proof (cases "bit (se_mode x) 5")
  case True
  with assms that [of "si_Padding si"] show thesis
    by (simp add: reply_plain_def Let_def expand_padding_dead ReflectorTestPacketReflectOctets_Marshal_eq)
next
  case False
  have "nat (max 0 (int n - 41)) = n - 41" by simp
  with False assms(1) that [of "zeros (n - 41)"] show thesis
    by (simp add: reply_plain_def Let_def plain_padding ReflectorTestPacket_Marshal_eq)
qed

lemma plain_answer:
  assumes "\<not> secure_test_mode (se_mode x)" and "\<not> sn_isAuthenticated ts" and "parse_packet x d = Inr si"
    and "Scale (si_ErrorEstimate si) < 64" and "length d \<le> 2048"
    and "length d \<le> 41 + length (si_Padding si) \<or> \<not> bit (se_mode x) 5" and "length (si_Padding si) \<le> 2007"
  obtains c where "make_reply rnd x d ttl rx tx = Inr c" and "length c \<le> 2048"
    and "parse_reply ts c = Inr (answer_info si (se_reflectedPackets x) rx tx ttl)"
proof -
  obtain r where r: "reply_plain x si (length d) ttl rx tx = Inr (be32 (se_reflectedPackets x) @ TWAMPTimestamp_bytes tx @
      ee_bytes reflectorErrorEstimate @ zeros 2 @ TWAMPTimestamp_bytes rx @ be32 (si_SeqNo si) @
      TWAMPTimestamp_bytes (si_Timestamp si) @ ee_bytes (si_ErrorEstimate si) @ zeros 2 @ [ttl] @ r)" (is "_ = Inr ?c")
    and l: "length r = (if bit (se_mode x) 5 then length (si_Padding si) else length d - 41)"
    by (rule reply_plain_raw [OF assms(5,6,7), of ttl rx tx])
  show thesis
  proof (rule that)
    show "make_reply rnd x d ttl rx tx = Inr ?c" using assms(1,3) r by (simp add: make_reply_def)
    show "length ?c \<le> 2048" using l assms(5,7) by (simp split: if_splits)
    have "Scale reflectorErrorEstimate < 64" by (simp add: reflectorErrorEstimate_def)
    then show "parse_reply ts ?c = Inr (answer_info si (se_reflectedPackets x) rx tx ttl)"
      using assms(2,4) by (simp add: parse_reply_def ReflectorTestPacket_Unmarshal_def reading nth_append answer_info_def
          ReflectorTestPacket_zero_def)
  qed
qed

lemma secure_answer:
  assumes "secure_test_mode (se_mode x)" and "agreed_session ts x" and "rand_ok rnd" and "parse_packet x d = Inr si"
    and "Scale (si_ErrorEstimate si) < 64" and "length d \<le> 2048"
    and "length d \<le> 112 + length (si_Padding si) \<or> \<not> bit (se_mode x) 5" and "length (si_Padding si) \<le> 1936"
  obtains c where "make_reply rnd x d ttl rx tx = Inr c" and "length c \<le> 2048"
    and "parse_reply ts c = Inr (answer_info si (se_reflectedPackets x) rx tx ttl)"
proof -
  obtain keys where k: "sn_isAuthenticated ts" "sn_isEncrypted ts = (se_mode x AND ModeEncrypted \<noteq> 0)"
    "sn_sessionKeys ts = Some keys" "se_sessionKeys x = Some keys" "length (TestAESKey keys) = 16"
    "length (ServerIV keys) = 16" "length (TestHMACKey keys) = 32"
    using assms(1,2) by (auto simp: agreed_session_def)
  let ?h = "reply_header x si ttl rx tx" and ?m = "se_mode x"
  let ?mac = "packet_hmac ?m True keys ?h"
  obtain c r where mk: "make_reply rnd x d ttl rx tx = Inr c" and c: "length c = 112 + length r"
    "DecryptTWAMPReflectorTestPacket (TestAESKey keys) (ServerIV keys) c (?m AND ModeEncrypted = 0) = Inr (?h @ ?mac @ r)"
    and r: "reply_tail_ok ?m (length d) (si_Padding si) r"
    by (rule secure_reply [OF assms(1) k(4-7) assms(3,4,6-8), of ttl rx tx])
  have len: "length c \<le> 2048"
    using c(1) r assms(6,8) by (auto simp: reply_tail_ok_def split: if_splits)
  have "VerifyHMAC (TestHMACKey keys) (seg 0 (HMACCoverage (?m AND ModeEncrypted \<noteq> 0) True) (?h @ ?mac @ r)) ?mac = Inr True"
    using k(7) packet_hmac_prefix [of ?h ?m keys "?mac @ r"] unfolding VerifyHMAC_iff by (simp add: packet_hmac_def)
  moreover have "seg 96 112 (?h @ ?mac @ r) = ?mac" by (simp add: seg_def)
  ultimately have "open_reply ts c = Inr (?h @ ?mac @ r)"
    using k c(2) by (simp add: open_reply_def)
  moreover note sealed_read [of ?mac "si_ErrorEstimate si" si x tx rx ttl r, OF _ assms(5) refl]
  ultimately have "parse_reply ts c = Inr (answer_info si (se_reflectedPackets x) rx tx ttl)"
    using k(1) by (simp add: parse_reply_def answer_info_def)
  then show thesis using mk len that by blast
qed

lemma answered_packet:
  assumes "agreed_session ts x" and "rand_ok rnd" and "parse_packet x d = Inr si" and "Scale (si_ErrorEstimate si) < 64"
    and "length d = (if secure_test_mode (se_mode x) then 48 else 14) + n" and "n \<le> 1936"
    and "length (si_Padding si) = (if bit (se_mode x) 5 then n else 0)"
  obtains c where "make_reply rnd x d ttl rx tx = Inr c" and "length c \<le> 2048"
    and "parse_reply ts c = Inr (answer_info si (se_reflectedPackets x) rx tx ttl)"
proof (cases "secure_test_mode (se_mode x)")
  case True
  show thesis by (rule secure_answer [OF True assms(1-4), of ttl rx tx]) (use True assms(5-7) that in auto)
next
  case False
  then have "\<not> sn_isAuthenticated ts" using assms(1) by (simp add: agreed_session_def)
  show thesis by (rule plain_answer [OF False \<open>\<not> sn_isAuthenticated ts\<close> assms(3,4), of rnd ttl rx tx])
    (use False assms(5-7) that in auto)
qed

section \<open>Properties\<close>

text \<open>What the sender knows of a packet that was answered.\<close>

definition answered_result ::
    "SenderSession \<Rightarrow> TestSession \<Rightarrow> clock \<Rightarrow> clock \<Rightarrow> bool \<Rightarrow> u8 \<Rightarrow> TWAMPTimestamp \<Rightarrow> TWAMPTimestamp \<Rightarrow> go_time \<Rightarrow> go_time \<Rightarrow>
     PacketResult" where
  "answered_result ts x sent received sync ttl rx tx refRx refTx =
     \<lparr>pr_SenderSeqNo = sn_seqNo ts, pr_ReflectorSeqNo = se_reflectedPackets x, pr_SentTime = sent,
      pr_ReceivedTime = Some received, pr_ReflectorRxTime = Some (ToTimeWithReference rx refRx),
      pr_ReflectorTxTime = Some (ToTimeWithReference tx refTx), pr_SenderTimestamp = FromTime (wall sent),
      pr_SenderErrorEstimate = senderErrorEstimate sync, pr_ReflectorErrorEstimate = reflectorErrorEstimate,
      pr_SenderTTL = ttl, pr_RTT = clock_Sub received sent, pr_ReflectorLatency = DurationBetween rx tx\<rparr>"

text \<open>C9: the round trip of a test packet, in every mode. When sender and reflector have the same session and
  the padding is at most 1936 bytes, the packet that \<open>SendTestPacket\<close> writes is reflected, and the
  receiver takes the reply: the packets sent and received both grow by one, and the result under the
  sequence number of the packet has the sequence number and the two timestamps of the
  reflector, the round-trip time between sending and receiving, and the sender's own fields. The two ends still have the
  same session.\<close>

theorem packet_round_trip:
  assumes "agreed_session ts x" and "sn_conn ts = Open_handle" and "sn_stopChan ts = Open_handle"
    and "tc_PaddingLength (sn_config ts) \<le> 1936" and "rand_ok rnd" and "rand_ok rnd'"
    and "resolve (tc_ReceiverAddress (sn_config ts)) (tc_ReceiverPort (sn_config ts)) = Inr dst"
    and "\<forall>b. write b dst = Inr ()"
  shows "\<exists>packet ts1 reply x' ts2.
    SendTestPacket sent sync rnd resolve write ts = (Inr packet, ts1) \<and>
    reflect_iteration rnd' (\<lambda>b a. Inr ()) packet addr ttl rx tx now x = (Reflected reply, x') \<and>
    receive_round (Rx_Packet reply received refRx refTx) ts1 = (True, ts2) \<and>
    sn_seqNo ts2 = sn_seqNo ts + 1 \<and> sn_totalSent ts2 = sn_totalSent ts + 1 \<and> sn_totalReceived ts2 = sn_totalReceived ts + 1 \<and>
    se_reflectedPackets x' = se_reflectedPackets x + 1 \<and> agreed_session ts2 x' \<and>
    sn_results ts2 = (sn_results ts)(sn_seqNo ts \<mapsto> answered_result ts x sent received sync
      (case ttl of Some t \<Rightarrow> t | None \<Rightarrow> 255) rx tx refRx refTx)"
proof -
  let ?sq = "sn_seqNo ts" and ?t = "FromTime (wall sent)" and ?ee = "senderErrorEstimate sync"
    and ?ttl = "case ttl of Some t \<Rightarrow> t | None \<Rightarrow> 255" and ?n = "unat (tc_PaddingLength (sn_config ts))"
  have n: "?n \<le> 1936" using assms(4) by (simp add: word_le_nat_alt)
  have ee: "Scale ?ee < 64" by (simp add: senderErrorEstimate_def)
  let ?ts0 = "ts\<lparr>sn_seqNo := ?sq + 1, sn_totalSent := sn_totalSent ts + 1\<rparr>"
  have same: "agreed_session ?ts0 x" using assms(1) by (simp add: agreed_session_def)
  obtain raw c pad where raw: "marshal_test_packet rnd ?ts0 ?sq ?t ?ee = Inr raw" "seal_test_packet ?ts0 raw = Inr c"
    and c: "length c = (if secure_test_mode (se_mode x) then 48 else 14) + ?n" "length pad = (if bit (se_mode x) 5 then ?n else 0)"
      "parse_packet x c = Inr (sent_info ?sq ?t ?ee pad)"
    by (rule packet_sent [OF same _ _ assms(5) ee, of ?n ?sq ?t]) (use n in simp_all)
  define pr where "pr = \<lparr>pr_SenderSeqNo = ?sq, pr_ReflectorSeqNo = 0, pr_SentTime = sent, pr_ReceivedTime = None,
    pr_ReflectorRxTime = None, pr_ReflectorTxTime = None, pr_SenderTimestamp = ?t, pr_SenderErrorEstimate = ErrorEstimate_zero,
    pr_ReflectorErrorEstimate = ErrorEstimate_zero, pr_SenderTTL = 0, pr_RTT = 0, pr_ReflectorLatency = 0\<rparr>"
  let ?ts1 = "?ts0\<lparr>sn_results := (sn_results ts)(?sq \<mapsto> pr)\<rparr>"
  have send: "SendTestPacket sent sync rnd resolve write ts = (Inr c, ?ts1)"
    using raw assms(2,7,8) by (simp add: SendTestPacket_def pr_def Let_def)
  have same1: "agreed_session ?ts1 x" using assms(1) by (simp add: agreed_session_def)
  obtain reply where reply: "make_reply rnd' x c ?ttl rx tx = Inr reply" "length reply \<le> 2048"
    "parse_reply ?ts1 reply = Inr (answer_info (sent_info ?sq ?t ?ee pad) (se_reflectedPackets x) rx tx ?ttl)"
    by (rule answered_packet [OF same1 assms(6) c(3) _ c(1) n, of ?ttl rx tx]) (use c(2) ee in \<open>simp_all add: sent_info_def\<close>)
  have "take MaxTWAMPPacketSize c = c" using c(1) n by (simp split: if_splits)
  then have refl: "reflect_iteration rnd' (\<lambda>b a. Inr ()) c addr ttl rx tx now x =
      (Reflected reply, record_success now (note_sender addr x))"
    using iteration_reply [of rnd' x c ttl rx tx reply] reply(1) by simp
  let ?ts2 = "snd (receive_round (Rx_Packet reply received refRx refTx) ?ts1)"
  have recv: "receive_round (Rx_Packet reply received refRx refTx) ?ts1 = (True, ?ts2)"
    using assms(2,3) by (simp add: receive_round_def)
  have ts2: "?ts2 = record_rtt (clock_Sub received sent) (?ts0\<lparr>sn_results := (sn_results ts)(?sq \<mapsto>
      answered_result ts x sent received sync ?ttl rx tx refRx refTx)\<rparr>)"
    using assms(2,3) reply(2,3) by (simp add: receive_round_def processReceivedPacket_def answer_info_def sent_info_def
        pr_def answered_result_def Let_def)
  have "se_reflectedPackets (record_success now (note_sender addr x)) = se_reflectedPackets x + 1"
    "agreed_session ?ts2 (record_success now (note_sender addr x))"
    using assms(1) unfolding ts2 by (simp_all add: record_success_def note_sender_def agreed_session_def record_rtt_def)
  with send refl recv show ?thesis
    by (intro exI [of _ c] exI [of _ ?ts1] exI [of _ reply] exI [of _ "record_success now (note_sender addr x)"] exI [of _ ?ts2])
      (simp add: ts2 record_rtt_def)
qed

text \<open>An encrypted session in reflect-octets mode, open at both ends.\<close>

definition demo_secure_session :: SenderSession where
  "demo_secure_session = demo_session\<lparr>sn_conn := Open_handle, sn_mode := 36, sn_sessionKeys := Some example_keys,
     sn_isAuthenticated := True, sn_isEncrypted := True\<rparr>"

lemma demo_same_session: "agreed_session demo_secure_session (example_session 36)"
  by (simp add: agreed_session_def demo_secure_session_def demo_session_def example_session_def secure_bits
      example_keys_def)

theorem packet_round_trip_witness:
  "\<exists>packet ts1 reply x' ts2 pr.
    SendTestPacket (demo_clock 0) True example_random (\<lambda>a p. Inr ''r'') (\<lambda>b a. Inr ()) demo_secure_session = (Inr packet, ts1) \<and>
    reflect_iteration example_random (\<lambda>b a. Inr ()) packet ''s'' None Timestamp_zero Timestamp_zero 0 (example_session 36) = (Reflected reply, x') \<and>
    receive_round (Rx_Packet reply (demo_clock 5) zero_time zero_time) ts1 = (True, ts2) \<and>
    sn_totalReceived ts2 = 1 \<and> sn_results ts2 0 = Some pr \<and> pr_RTT pr = 5"
proof -
  have f: "sn_conn demo_secure_session = Open_handle" "sn_stopChan demo_secure_session = Open_handle"
    "tc_PaddingLength (sn_config demo_secure_session) \<le> 1936" "rand_ok example_random"
    "sn_seqNo demo_secure_session = 0" "sn_totalReceived demo_secure_session = 0"
    by (simp_all add: demo_secure_session_def demo_session_def rand_ok_def example_random_def)
  have "pr_RTT (answered_result demo_secure_session x (demo_clock 0) (demo_clock 5) sync ttl rx tx a b) = 5" for x sync ttl rx tx a b
    by (simp add: answered_result_def clock_Sub_def demo_clock_def saturate64_def)
  with packet_round_trip [OF demo_same_session f(1-4,4), of "\<lambda>a p. Inr ''r''" "''r''" "\<lambda>b a. Inr ()" "demo_clock 0" True "''s''"
      None Timestamp_zero Timestamp_zero 0 "demo_clock 5" zero_time zero_time] f(5,6)
  show ?thesis by fastforce
qed

end
