(* ===== verification/Start_Stop.thy ===== *)
theory Start_Stop
  imports End_To_End
begin

text \<open>
  Starting and stopping sessions from the call of the client to the server and back. A command
  and a reply between two ends in step are one lemma each, for plain and secure control alike; what
  \<open>StartSessions\<close> and \<open>StopSessions\<close> do to both ends rests on them.
\<close>

section \<open>A command and a reply\<close>

lemma command_sent:
  assumes step: "in_step c cc" and env: "client_env_ok cenv"
    and b: "length b = 16" "b ! 0 = CmdStartSessions \<or> b ! 0 = CmdStopSessions"
  obtains cmd mac c1 cc1 where "length mac = 16"
    and "controlRequiresAuthentication (cc_controlMode cc) \<or> mac = zeros 16"
    and "\<forall>i. client_sendControlMessage cenv (b @ zeros 16) (client_controlAuth (c\<lparr>cl_in := i\<rparr>)) (c\<lparr>cl_in := i\<rparr>) =
      (Inr (), c1\<lparr>cl_in := i\<rparr>)"
    and "readCommand (cc\<lparr>cc_in := cmd @ rest\<rparr>) = (Inr (b @ mac), cc1)" and "in_step c1 cc1"
    and "same_sessions c c1" and "cl_out c1 = cl_out c @ [cmd]" and "cc_in cc1 = rest" and "cc_out cc1 = cc_out cc"
    and "cc_sessions cc1 = cc_sessions cc" and "cc_controlMode cc1 = cc_controlMode cc"
proof (cases "controlRequiresAuthentication (cc_controlMode cc)")
  case False
  have S: "cl_conn c = Open_handle" "\<not> client_controlAuth (c\<lparr>cl_in := i\<rparr>)" for i
    using step False by (auto simp: in_step_def client_controlAuth_iff)
  let ?c1 = "c\<lparr>cl_out := cl_out c @ [b @ zeros 16]\<rparr>" and ?cc1 = "cc\<lparr>cc_in := rest\<rparr>"
  have "client_sendControlMessage cenv (b @ zeros 16) (client_controlAuth (c\<lparr>cl_in := i\<rparr>)) (c\<lparr>cl_in := i\<rparr>) =
      (Inr (), ?c1\<lparr>cl_in := i\<rparr>)" for i
    using client_send_plain [OF env, of "c\<lparr>cl_in := i\<rparr>" b] S by simp
  moreover have "readPlainCommand (cc\<lparr>cc_in := (b @ zeros 16) @ rest\<rparr>) = (Inr (b @ zeros 16), cc\<lparr>cc_in := rest\<rparr>)"
    using readPlainCommand_front [of "cc\<lparr>cc_in := (b @ zeros 16) @ rest\<rparr>" "b @ zeros 16" rest] b
    by (auto simp: nth_append controlCommandLength_def)
  then have "readCommand (cc\<lparr>cc_in := (b @ zeros 16) @ rest\<rparr>) = (Inr (b @ zeros 16), ?cc1)"
    using False by (simp add: readCommand_def)
  moreover have "in_step ?c1 ?cc1" using step False by (auto simp: in_step_def)
  ultimately show thesis
    by (intro that [of "zeros 16" ?c1 "b @ zeros 16" ?cc1]) (simp_all add: same_sessions_def)
next
  case True
  obtain keys st_in st_out where K: "cl_keyDerivation c = Some keys" "cl_controlEncrypt c = Some st_in"
    "cl_controlDecrypt c = Some st_out" "ready st_in st_out keys cc" and S: "cl_conn c = Open_handle"
    using step True by (auto simp: in_step_def)
  have kk: "stream_ok st_in" "cc_keyDerivation cc = Some keys" "length (HMACKey keys) = 32" "cc_controlDecrypt cc = Some st_in"
    using K(4) by (simp_all add: ready_def secure_conn_def)
  have w: "whole_blocks (b @ zeros 16)" using b(1) by (auto simp: whole_blocks_def)
  have n: "controlCommandLength ((b @ mac) ! 0) (b @ mac) = Inr (length b + 16)" for mac
    using b by (auto simp: nth_append controlCommandLength_def)
  obtain mac cmd st' where cmd: "length mac = 16" "sealed_command st_in (HMACKey keys) (b @ mac) cmd st'" "stream_ok st'"
    by (rule sealed_exists [OF kk(1,3) w n])
  let ?c1 = "c\<lparr>cl_controlEncrypt := Some st', cl_out := cl_out c @ [cmd]\<rparr>"
    and ?cc1 = "cc\<lparr>cc_in := rest, cc_controlDecrypt := Some st'\<rparr>"
  have a: "client_controlAuth (c\<lparr>cl_in := i\<rparr>)" for i
    using in_step_auth [OF step] True by (simp add: client_controlAuth_iff)
  have "client_sendControlMessage cenv (b @ zeros 16) (client_controlAuth (c\<lparr>cl_in := i\<rparr>)) (c\<lparr>cl_in := i\<rparr>) =
      (Inr (), ?c1\<lparr>cl_in := i\<rparr>)" for i
    using client_send_secure [OF env, of "c\<lparr>cl_in := i\<rparr>" st_in keys mac b cmd st'] S K cmd a by simp
  moreover have "readEncryptedCommand (cc\<lparr>cc_in := cmd @ rest\<rparr>) = (Inr (b @ mac), ?cc1)"
    using sealed_is_read [of "cc\<lparr>cc_in := cmd @ rest\<rparr>" st_in keys cmd rest "b @ mac" st'] kk cmd(2) by simp
  then have "readCommand (cc\<lparr>cc_in := cmd @ rest\<rparr>) = (Inr (b @ mac), ?cc1)" using True by (simp add: readCommand_def)
  moreover have "in_step ?c1 ?cc1"
    using step True K kk cmd(3) by (auto simp: in_step_def ready_def secure_conn_def)
  ultimately show thesis
    using True by (intro that [of mac ?c1 cmd ?cc1] cmd(1)) (simp_all add: same_sessions_def)
qed

lemma reply_sent:
  assumes step: "in_step c cc" and env: "env_ok env" and b: "length b = 16"
  obtains out mac c1 cc1 where "length mac = 16"
    and "controlRequiresAuthentication (cc_controlMode cc) \<or> mac = zeros 16"
    and "send_reply env name (Inr (b @ zeros 16)) cc = (Inr (), cc1)"
    and "\<forall>rest. receiveAndVerify 32 (client_controlAuth (c\<lparr>cl_in := out @ rest\<rparr>)) (c\<lparr>cl_in := out @ rest\<rparr>) =
      (Inr (b @ mac), c1\<lparr>cl_in := rest\<rparr>)"
    and "in_step c1 cc1" and "same_sessions c c1" and "cl_out c1 = cl_out c" and "cc_in cc1 = cc_in cc"
    and "cc_out cc1 = cc_out cc @ [out]" and "cc_sessions cc1 = cc_sessions cc" and "cc_controlMode cc1 = cc_controlMode cc"
proof (cases "controlRequiresAuthentication (cc_controlMode cc)")
  case False
  have S: "cl_conn c = Open_handle" "\<not> client_controlAuth (c\<lparr>cl_in := i\<rparr>)" for i
    using step False by (auto simp: in_step_def client_controlAuth_iff)
  let ?cc1 = "cc\<lparr>cc_out := cc_out cc @ [b @ zeros 16]\<rparr>"
  have "send_reply env name (Inr (b @ zeros 16)) cc = (Inr (), ?cc1)"
    using sendControlMessage_plain [OF env False] False by (simp add: send_reply_def)
  moreover have "receiveAndVerify 32 (client_controlAuth (c\<lparr>cl_in := (b @ zeros 16) @ rest\<rparr>)) (c\<lparr>cl_in := (b @ zeros 16) @ rest\<rparr>) =
      (Inr (b @ zeros 16), c\<lparr>cl_in := rest\<rparr>)" for rest
    using receive_plain [of "c\<lparr>cl_in := (b @ zeros 16) @ rest\<rparr>" b rest 32] S b by simp
  moreover have "in_step c ?cc1" using step False by (auto simp: in_step_def)
  ultimately show thesis
    by (intro that [of "zeros 16" ?cc1 "b @ zeros 16" c]) (simp_all add: same_sessions_def)
next
  case True
  obtain keys st_in st_out where K: "cl_keyDerivation c = Some keys" "cl_controlEncrypt c = Some st_in"
    "cl_controlDecrypt c = Some st_out" "ready st_in st_out keys cc" and S: "cl_conn c = Open_handle"
    "cl_serverStartHMACPending c = cc_serverStartHMACPending cc" "cl_serverStartBytes c = cc_serverStartBytes cc"
    using step True by (auto simp: in_step_def)
  have kk: "stream_ok st_out" "secure_conn st_out keys cc" using K(4) by (simp_all add: ready_def secure_conn_def)
  have w: "whole_blocks (b @ zeros 16)" using b by (auto simp: whole_blocks_def)
  obtain mac out st' where r: "length mac = 16" "stream_ok st'" "sealed_reply st_out (HMACKey keys) (owed_prefix cc) out (b @ mac) st'"
    "send_reply env name (Inr (b @ zeros 16)) cc = (Inr (), replied st' out cc)"
    by (rule send_reply_secure [OF env kk(2) w, of name])
  let ?c1 = "c\<lparr>cl_controlDecrypt := Some st', cl_serverStartHMACPending := False\<rparr>"
  have a: "client_controlAuth (c\<lparr>cl_in := i\<rparr>)" for i
    using in_step_auth [OF step] True by (simp add: client_controlAuth_iff)
  have "receiveAndVerify 32 (client_controlAuth (c\<lparr>cl_in := out @ rest\<rparr>)) (c\<lparr>cl_in := out @ rest\<rparr>) =
      (Inr (b @ mac), ?c1\<lparr>cl_in := rest\<rparr>)" for rest
    using client_receive_secure [of "c\<lparr>cl_in := out @ rest\<rparr>" st_out keys out "b @ mac" st' rest 32] a S K kk r b
    by (cases "cc_serverStartHMACPending cc") (simp_all add: owed_prefix_def)
  moreover have "in_step ?c1 (replied st' out cc)"
    using step True K kk r(2) by (auto simp: in_step_def ready_def secure_conn_def replied_def)
  ultimately show thesis
    using True by (intro that [of mac "replied st' out cc" out ?c1] r(1,4)) (simp_all add: same_sessions_def replied_def)
qed

text \<open>What the two ends agree on does not depend on the sessions, the times or what is still to be read.\<close>

lemma in_step_frame:
  "in_step (c\<lparr>cl_in := i\<rparr>) cc = in_step c cc" "in_step (c\<lparr>cl_heap := h\<rparr>) cc = in_step c cc"
  "in_step (c\<lparr>cl_currentSessions := m\<rparr>) cc = in_step c cc"
  "in_step c (cc\<lparr>cc_lastActivity := t\<rparr>) = in_step c cc"
  "in_step c (cc\<lparr>cc_lastActivity := t, cc_sessions := m'\<rparr>) = in_step c cc"
  "in_step c (cc\<lparr>cc_sessions := m'\<rparr>) = in_step c cc"
  by (simp_all add: in_step_def ready_def secure_conn_def cong: if_cong)

section \<open>Stopping\<close>

lemma pointers_count: "order_ok m order \<Longrightarrow> length (pointers m order) = card (dom m)"
proof -
  assume ok: "order_ok m order"
  have "\<forall>x \<in> set xs. m x \<noteq> None \<Longrightarrow> length (pointers m xs) = length xs" for xs
    by (induction xs) (auto simp: pointers_def List.map_filter_def)
  then have "length (pointers m order) = length order" using ok by (auto simp: order_ok_def dom_def)
  then show ?thesis using ok by (metis order_ok_def distinct_card)
qed

lemma pointers_ran: "order_ok m order \<Longrightarrow> set (pointers m order) = ran m"
  by (auto simp: order_ok_def ran_def set_pointers) (metis domI)

lemma stop_each_heap: "\<exists>h. snd (stop_each f ps c) = c\<lparr>cl_heap := h\<rparr>"
proof (induction ps arbitrary: c)
  case Nil
  show ?case by (intro exI [of _ "cl_heap c"]) simp
next
  case (Cons p ps)
  obtain r ts where r: "f (cl_heap c ! p) = (r, ts)" by fastforce
  obtain h where "snd (stop_each f ps (set_session p ts c)) = (set_session p ts c)\<lparr>cl_heap := h\<rparr>" using Cons.IH by blast
  then show ?case using r by (intro exI [of _ h]) (simp add: set_session_def split: prod.split)
qed

lemma stop_parsed:
  assumes "length mac = 16" and "auth \<or> mac = zeros 16"
  shows "\<exists>st. StopSessions_Unmarshal StopSessions_zero (([CmdStopSessions, AcceptOK] @ zeros 2 @ be32 n @ zeros 8) @ mac) auth = Inr st \<and>
    stp_NumSessions st = n"
proof -
  let ?st = "StopSessions_zero\<lparr>stp_Command := CmdStopSessions, stp_Accept := AcceptOK, stp_NumSessions := n,
    stp_HMAC := mac\<rparr>"
  have ok: "StopSessions_ok auth ?st" using assms by (auto simp: StopSessions_ok_def StopSessions_zero_def hmac_ok_def)
  have "StopSessions_Marshal ?st auth = Inr (([CmdStopSessions, AcceptOK] @ zeros 2 @ be32 n @ zeros 8) @ mac)"
    using assms by (subst StopSessions_Marshal_eq) (auto simp: StopSessions_zero_def hmac_ok_def)
  from stop_sessions_codec.dec_enc [OF ok this, of "[]"] show ?thesis by (auto intro: exI [of _ ?st])
qed

lemma stop_sent:
  assumes step: "in_step c cc" and env: "client_env_ok cenv" and some: "cl_currentSessions c \<noteq> Map.empty"
    and ord: "order_ok (cl_currentSessions c) (ce_order cenv)" "order_ok (cc_sessions cc) (ev_order env)"
    and small: "card (dom (cl_currentSessions c)) < 2 ^ 32" "card (dom (cc_sessions cc)) < 2 ^ 32"
  shows "\<exists>cmd r c'. StopSessions_client cenv c = (r, c') \<and> cl_out c' = cl_out c @ [cmd] \<and> cl_currentSessions c' = Map.empty \<and>
    (if card (dom (cl_currentSessions c)) = card (dom (cc_sessions cc))
     then \<exists>cc'. command_round env s (cc\<lparr>cc_in := cmd @ rest\<rparr>) =
         Some (Inr (), fold (schedule_stop (ev_now env)) (pointers (cc_sessions cc) (ev_order env)) s, cc') \<and>
         cc_sessions cc' = Map.empty \<and> in_step c' cc'
     else \<exists>e cc'. command_round env s (cc\<lparr>cc_in := cmd @ rest\<rparr>) = Some (Inl e, s, cc') \<and> cc_sessions cc' = cc_sessions cc)"
proof -
  let ?n = "of_nat (length (client_pointers cenv c)) :: u32" and ?k = "of_nat (length (pointers (cc_sessions cc) (ev_order env))) :: u32"
  let ?b = "[CmdStopSessions, AcceptOK] @ zeros 2 @ be32 ?n @ zeros 8"
  have cn: "length (client_pointers cenv c) = card (dom (cl_currentSessions c))"
    "length (pointers (cc_sessions cc) (ev_order env)) = card (dom (cc_sessions cc))"
    using ord by (simp_all add: client_pointers_def pointers_count)
  have "finite (dom (cl_currentSessions c))" using ord(1) by (auto simp: order_ok_def) (metis List.finite_set)
  then have ne: "client_pointers cenv c \<noteq> []" using cn(1) some by auto
  have eq: "?n = ?k \<longleftrightarrow> card (dom (cl_currentSessions c)) = card (dom (cc_sessions cc))"
  proof -
    have "unat ?n = card (dom (cl_currentSessions c))" "unat ?k = card (dom (cc_sessions cc))"
      using small by (simp_all add: cn unat_of_nat)
    then show ?thesis by (metis word_eq_iff_unsigned)
  qed
  have lb: "length ?b = 16" "?b ! 0 = CmdStartSessions \<or> ?b ! 0 = CmdStopSessions" by simp_all
  obtain cmd mac c1 cc1 where T: "length mac = 16" "controlRequiresAuthentication (cc_controlMode cc) \<or> mac = zeros 16"
    "\<forall>i. client_sendControlMessage cenv (?b @ zeros 16) (client_controlAuth (c\<lparr>cl_in := i\<rparr>)) (c\<lparr>cl_in := i\<rparr>) = (Inr (), c1\<lparr>cl_in := i\<rparr>)"
    "readCommand (cc\<lparr>cc_in := cmd @ rest\<rparr>) = (Inr (?b @ mac), cc1)" "in_step c1 cc1" "same_sessions c c1"
    "cl_out c1 = cl_out c @ [cmd]" "cc_in cc1 = rest" "cc_out cc1 = cc_out cc" "cc_sessions cc1 = cc_sessions cc"
    "cc_controlMode cc1 = cc_controlMode cc"
    by (rule command_sent [OF step env lb]) (rule that; assumption)
  let ?c1 = "c1\<lparr>cl_in := cl_in c\<rparr>"
  have send: "client_sendControlMessage cenv (?b @ zeros 16) (client_controlAuth c) c = (Inr (), ?c1)"
    using T(3) [THEN spec, of "cl_in c"] by simp
  obtain errs c2 where c2: "stop_each (session_stop cenv) (client_pointers cenv ?c1) ?c1 = (errs, c2)" by fastforce
  let ?c' = "c2\<lparr>cl_currentSessions := Map.empty\<rparr>"
  have st: "StopSessions_client cenv c = (if errs \<noteq> [] then Inl (Wrap ''errors.Join'' errs) else Inr (), ?c')"
    using ne send c2 by (simp add: StopSessions_client_def stopSessionsWith_def stop_command)
  obtain h where "c2 = ?c1\<lparr>cl_heap := h\<rparr>" using stop_each_heap [of "session_stop cenv" "client_pointers cenv ?c1" ?c1] c2 by auto
  then have wire: "cl_out c2 = cl_out c1 \<and> (in_step ?c' x \<longleftrightarrow> in_step c1 x)" for x
    by (simp add: in_step_frame)
  obtain q where q: "StopSessions_Unmarshal StopSessions_zero (?b @ mac) (controlRequiresAuthentication (cc_controlMode cc)) = Inr q"
    "stp_NumSessions q = ?n"
    using stop_parsed [OF T(1,2), of ?n] by auto
  have "command_round env s (cc\<lparr>cc_in := cmd @ rest\<rparr>) = handleStopSessions env s (cc1\<lparr>cc_lastActivity := ev_now env\<rparr>) (?b @ mac)"
    using T(4) by (simp add: command_round_def dispatch_def)
  moreover have "in_step c1 (cc1\<lparr>cc_lastActivity := t, cc_sessions := m\<rparr>)" for t m
    using T(5) by (simp add: in_step_frame)
  ultimately show ?thesis
    using st wire T(7,10,11) q eq by (intro exI [of _ cmd] exI [of _ ?c']) (simp add: handleStopSessions_def)
qed

section \<open>Starting\<close>

lemma startSession_at:
  assumes "startSession listen now p s = (r, t)" and "p < length (sv_heap s)"
  shows "length (sv_heap t) = length (sv_heap s)" and "\<And>q. q \<noteq> p \<Longrightarrow> sv_heap t ! q = sv_heap s ! q"
    and "r = Inr () \<longleftrightarrow> se_isActive (sv_heap s ! p) \<or> listen (se_reflectorPort (sv_heap s ! p))"
    and "r = Inr () \<Longrightarrow> se_isActive (sv_heap t ! p)"
    and "se_isActive (sv_heap s ! p) \<Longrightarrow> se_isActive (sv_heap t ! p)"
    and "se_reflectorPort (sv_heap t ! p) = se_reflectorPort (sv_heap s ! p)"
  using assms by (auto simp: startSession_def session_at_def put_session_def Let_def split: if_splits)

lemma start_all_keeps:
  "start_all env ps s = (r, t) \<Longrightarrow> \<forall>p \<in> set ps. p < length (sv_heap s) \<Longrightarrow> q < length (sv_heap s) \<Longrightarrow>
    se_isActive (sv_heap s ! q) \<Longrightarrow> se_isActive (sv_heap t ! q)"
proof (induction ps arbitrary: s)
  case (Cons p ps)
  obtain r1 t1 where t1: "startSession (ev_listen env) (ev_now env) p s = (r1, t1)" by fastforce
  have p: "p < length (sv_heap s)" using Cons.prems(2) by simp
  note f = startSession_at [OF t1 p]
  have "se_isActive (sv_heap t1 ! q)" using f(2,5) Cons.prems(4) by (cases "q = p") auto
  then show ?case using Cons.IH [of t1] Cons.prems t1 f(1) by (cases r1) auto
qed simp

lemma start_all_result:
  "start_all env ps s = (r, t) \<Longrightarrow> \<forall>p \<in> set ps. p < length (sv_heap s) \<Longrightarrow>
    (r = Inr () \<longleftrightarrow> (\<forall>p \<in> set ps. se_isActive (sv_heap s ! p) \<or> ev_listen env (se_reflectorPort (sv_heap s ! p)))) \<and>
    (r = Inr () \<longrightarrow> (\<forall>p \<in> set ps. se_isActive (sv_heap t ! p)))"
proof (induction ps arbitrary: s)
  case (Cons p ps)
  obtain r1 t1 where t1: "startSession (ev_listen env) (ev_now env) p s = (r1, t1)" by fastforce
  have p: "p < length (sv_heap s)" using Cons.prems(2) by simp
  note f = startSession_at [OF t1 p]
  show ?case
  proof (cases r1)
    case (Inl e)
    then show ?thesis using Cons.prems(1) t1 f(3) by auto
  next
    case (Inr u)
    let ?ok = "\<lambda>s q. se_isActive (sv_heap s ! q) \<or> ev_listen env (se_reflectorPort (sv_heap s ! q))"
    have st: "start_all env ps t1 = (r, t)" using Cons.prems(1) t1 Inr by simp
    have l: "\<forall>q \<in> set ps. q < length (sv_heap t1)" using Cons.prems(2) f(1) by simp
    have okp: "?ok s p" "se_isActive (sv_heap t1 ! p)" using f(3,4) Inr by simp_all
    have "?ok t1 q \<longleftrightarrow> ?ok s q" for q using f(2) okp by (cases "q = p") auto
    moreover have "se_isActive (sv_heap t ! p)" using start_all_keeps [OF st l] okp(2) p f(1) by simp
    ultimately show ?thesis using Cons.IH [OF st l] okp(1) by simp
  qed
qed simp

lemma start_sessions_ok:
  "\<forall>p \<in> set ps. p < length (cl_heap c) \<and> ce_listen env (sn_sid (cl_heap c ! p)) (tc_SenderPort (sn_config (cl_heap c ! p))) \<Longrightarrow>
    \<exists>h. start_sessions env ps c = (Inr (), c\<lparr>cl_heap := h\<rparr>) \<and> length h = length (cl_heap c) \<and>
      (\<forall>p < length h. (p \<in> set ps \<or> Session_IsActive (cl_heap c ! p)) \<longrightarrow> Session_IsActive (h ! p))"
proof (induction ps arbitrary: c)
  case Nil
  show ?case by (intro exI [of _ "cl_heap c"]) simp
next
  case (Cons p ps)
  show ?case
  proof (cases "Session_IsActive (cl_heap c ! p)")
    case True
    with Cons.IH [of c] Cons.prems show ?thesis by auto
  next
    case False
    let ?ts = "snd (Session_Start (ce_listen env (sn_sid (cl_heap c ! p))) (cl_heap c ! p))"
    let ?c = "c\<lparr>cl_heap := (cl_heap c)[p := ?ts]\<rparr>"
    have l: "ce_listen env (sn_sid (cl_heap c ! p)) (tc_SenderPort (sn_config (cl_heap c ! p)))" "p < length (cl_heap c)"
      using Cons.prems by simp_all
    have ts: "Session_Start (ce_listen env (sn_sid (cl_heap c ! p))) (cl_heap c ! p) = (Inr (), ?ts)" "Session_IsActive ?ts"
      "sn_sid ?ts = sn_sid (cl_heap c ! p)" "sn_config ?ts = sn_config (cl_heap c ! p)"
      using l(1) by (simp_all add: Session_Start_def Session_IsActive_def Let_def)
    have "start_at env p c = (Inr (), ?c)" using ts(1) by (cases "Session_Start (ce_listen env (sn_sid (cl_heap c ! p))) (cl_heap c ! p)") (simp add: start_at_def set_session_def)
    moreover have "\<forall>q \<in> set ps. q < length (cl_heap ?c) \<and>
        ce_listen env (sn_sid (cl_heap ?c ! q)) (tc_SenderPort (sn_config (cl_heap ?c ! q)))"
      using Cons.prems ts(3,4) by (auto simp: nth_list_update)
    from Cons.IH [OF this] obtain h where "start_sessions env ps ?c = (Inr (), ?c\<lparr>cl_heap := h\<rparr>)" "length h = length (cl_heap ?c)"
      "\<forall>q < length h. (q \<in> set ps \<or> Session_IsActive (cl_heap ?c ! q)) \<longrightarrow> Session_IsActive (h ! q)" by blast
    ultimately show ?thesis
      using False ts(2) l(2) by (intro exI [of _ h]) (auto simp: nth_list_update, metis)
  qed
qed

lemma ack_parsed:
  assumes "length mac = 16" and "auth \<or> mac = zeros 16"
  shows "StartAck_Marshal (StartAck_zero\<lparr>sa_Accept := code\<rparr>) False = Inr (([code] @ zeros 15) @ zeros 16)"
    and "\<exists>a. StartAck_Unmarshal StartAck_zero (([code] @ zeros 15) @ mac) auth = Inr a \<and> sa_Accept a = code"
proof -
  show "StartAck_Marshal (StartAck_zero\<lparr>sa_Accept := code\<rparr>) False = Inr (([code] @ zeros 15) @ zeros 16)"
    by (subst StartAck_Marshal_eq) (simp_all add: StartAck_zero_def hmac_ok_def)
  let ?a = "StartAck_zero\<lparr>sa_Accept := code, sa_HMAC := mac\<rparr>"
  have ok: "StartAck_ok auth ?a" using assms by (auto simp: StartAck_ok_def StartAck_zero_def hmac_ok_def)
  have "StartAck_Marshal ?a auth = Inr (([code] @ zeros 15) @ mac)"
    using assms by (subst StartAck_Marshal_eq) (auto simp: StartAck_zero_def hmac_ok_def)
  from start_ack_codec.dec_enc [OF ok this, of "[]"]
  show "\<exists>a. StartAck_Unmarshal StartAck_zero (([code] @ zeros 15) @ mac) auth = Inr a \<and> sa_Accept a = code"
    by (auto intro: exI [of _ ?a])
qed

lemma start_parsed:
  assumes "length mac = 16" and "auth \<or> mac = zeros 16"
  shows "\<exists>q. StartSessions_Unmarshal StartSessions_zero (([CmdStartSessions] @ zeros 15) @ mac) auth = Inr q"
proof -
  let ?q = "StartSessions_zero\<lparr>sts_Command := CmdStartSessions, sts_HMAC := mac\<rparr>"
  have ok: "StartSessions_ok auth ?q" using assms by (auto simp: StartSessions_ok_def StartSessions_zero_def hmac_ok_def)
  have "StartSessions_Marshal ?q auth = Inr (([CmdStartSessions] @ zeros 15) @ mac)"
    using assms by (subst StartSessions_Marshal_eq) (auto simp: StartSessions_zero_def hmac_ok_def)
  from start_sessions_codec.dec_enc [OF ok this, of "[]"] show ?thesis by auto
qed

section \<open>Properties\<close>

text \<open>C8: starting the sessions of a connection, from the call to both ends. The message of the client makes the
  server try to start every session it holds for the connection, and its answer makes the call return.
  When the server can listen on the port of each session that is not active yet, the call succeeds, and
  every session is active at both ends (the client can listen on its own ports); when it cannot for one of
  them, the call returns the server's refusal and the sessions of the client are as they were. In both
  cases the bytes have all been read and the ends are in step again.\<close>

theorem start_agrees:
  assumes "in_step c cc" and "env_ok env" and "client_env_ok cenv" and "cl_currentSessions c \<noteq> Map.empty" and "linked c"
    and "order_ok (cl_currentSessions c) (ce_order cenv)" and "order_ok (cc_sessions cc) (ev_order env)"
    and "\<forall>p \<in> ran (cc_sessions cc). p < length (sv_heap s)"
    and "\<forall>p \<in> ran (cl_currentSessions c). ce_listen cenv (sn_sid (cl_heap c ! p)) (tc_SenderPort (sn_config (cl_heap c ! p)))"
  shows "\<exists>cmd reply s' cc' r c'.
    command_round env s (cc\<lparr>cc_in := cmd @ rest'\<rparr>) = Some (Inr (), s', cc') \<and>
    StartSessions_client cenv (c\<lparr>cl_in := reply @ rest\<rparr>) = (r, c') \<and>
    cl_out c' = cl_out c @ [cmd] \<and> cl_in c' = rest \<and> cc_out cc' = cc_out cc @ [reply] \<and> cc_in cc' = rest' \<and> in_step c' cc' \<and>
    (if \<forall>p \<in> ran (cc_sessions cc). se_isActive (sv_heap s ! p) \<or> ev_listen env (se_reflectorPort (sv_heap s ! p))
     then r = Inr () \<and> (\<forall>p \<in> ran (cc_sessions cc). se_isActive (sv_heap s' ! p)) \<and>
       (\<forall>p \<in> ran (cl_currentSessions c). Session_IsActive (cl_heap c' ! p))
     else r = Inl (TWAMPError AcceptFailure) \<and> same_sessions c c')"
proof -
  let ?b = "[CmdStartSessions] @ zeros 15" and ?ps = "pointers (cc_sessions cc) (ev_order env)"
  have lb: "length ?b = 16" "?b ! 0 = CmdStartSessions \<or> ?b ! 0 = CmdStopSessions" by simp_all
  obtain cmd mac c1 cc1 where T: "length mac = 16" "controlRequiresAuthentication (cc_controlMode cc) \<or> mac = zeros 16"
    "\<forall>i. client_sendControlMessage cenv (?b @ zeros 16) (client_controlAuth (c\<lparr>cl_in := i\<rparr>)) (c\<lparr>cl_in := i\<rparr>) = (Inr (), c1\<lparr>cl_in := i\<rparr>)"
    "readCommand (cc\<lparr>cc_in := cmd @ rest'\<rparr>) = (Inr (?b @ mac), cc1)" "in_step c1 cc1" "same_sessions c c1"
    "cl_out c1 = cl_out c @ [cmd]" "cc_in cc1 = rest'" "cc_out cc1 = cc_out cc" "cc_sessions cc1 = cc_sessions cc"
    "cc_controlMode cc1 = cc_controlMode cc"
    by (rule command_sent [OF assms(1,3) lb]) (rule that; assumption)
  obtain r s' where s': "start_all env ?ps s = (r, s')" by fastforce
  define code where "code = (case r of Inl e \<Rightarrow> AcceptFailure | Inr _ \<Rightarrow> AcceptOK)"
  let ?cc1 = "cc1\<lparr>cc_lastActivity := ev_now env\<rparr>" and ?a = "[code] @ zeros 15"
  have st1: "in_step c1 ?cc1" and la: "length ?a = 16" using T(5) by (simp_all add: in_step_frame)
  obtain out mac' c2 cc2 where R: "length mac' = 16" "controlRequiresAuthentication (cc_controlMode ?cc1) \<or> mac' = zeros 16"
    "send_reply env ''Start-Ack'' (Inr (?a @ zeros 16)) ?cc1 = (Inr (), cc2)"
    "\<forall>rest. receiveAndVerify 32 (client_controlAuth (c1\<lparr>cl_in := out @ rest\<rparr>)) (c1\<lparr>cl_in := out @ rest\<rparr>) = (Inr (?a @ mac'), c2\<lparr>cl_in := rest\<rparr>)"
    "in_step c2 cc2" "same_sessions c1 c2" "cl_out c2 = cl_out c1" "cc_in cc2 = cc_in ?cc1"
    "cc_out cc2 = cc_out ?cc1 @ [out]" "cc_sessions cc2 = cc_sessions ?cc1" "cc_controlMode cc2 = cc_controlMode ?cc1"
    by (rule reply_sent [OF st1 assms(2) la, of "''Start-Ack''"]) (rule that; assumption)
  obtain q where q: "StartSessions_Unmarshal StartSessions_zero (?b @ mac) (controlRequiresAuthentication (cc_controlMode cc)) = Inr q"
    using start_parsed [OF T(1,2)] by auto
  have "command_round env s (cc\<lparr>cc_in := cmd @ rest'\<rparr>) = handleStartSessions env s ?cc1 (?b @ mac)"
    using T(4) by (simp add: command_round_def dispatch_def)
  also have "\<dots> = Some (Inr (), s', cc2)"
    using q R(3) s' T(10,11) ack_parsed(1) [OF T(1,2), of code]
    by (cases r) (simp_all add: handleStartSessions_def answer_def sendStartAck_def code_def)
  finally have S: "command_round env s (cc\<lparr>cc_in := cmd @ rest'\<rparr>) = Some (Inr (), s', cc2)" .
  let ?c = "c\<lparr>cl_in := out @ rest\<rparr>" and ?c2 = "c2\<lparr>cl_in := rest\<rparr>"
  have same: "cl_currentSessions c2 = cl_currentSessions c" "cl_heap c2 = cl_heap c"
    using T(6) R(6) by (simp_all add: same_sessions_def)
  have ps: "distinct (client_pointers cenv c)" "set (client_pointers cenv c) = ran (cl_currentSessions c)"
    "\<forall>p \<in> ran (cl_currentSessions c). p < length (cl_heap c)" using linked_pointers [OF assms(5,6)] by simp_all
  have cp: "client_pointers cenv ?c = client_pointers cenv c" "client_pointers cenv ?c2 = client_pointers cenv c"
    using same by (simp_all add: client_pointers_def)
  have "ran (cl_currentSessions c) \<noteq> {}" using assms(4) by (metis not_None_eq ranI empty_iff ext)
  then have ne: "client_pointers cenv c \<noteq> []" using ps(2) by auto
  have auth: "client_controlAuth ?c2 = controlRequiresAuthentication (cc_controlMode cc2)"
    using in_step_auth [OF R(5)] by (simp add: client_controlAuth_def)
  obtain k where k: "StartAck_Unmarshal StartAck_zero (?a @ mac') (client_controlAuth ?c2) = Inr k" "sa_Accept k = code"
    using ack_parsed(2) [OF R(1), of "client_controlAuth ?c2" code] R(2,11) auth by auto
  have C: "StartSessions_client cenv ?c = (if code \<noteq> AcceptOK then (Inl (TWAMPError code), ?c2) else start_sessions cenv (client_pointers cenv c) ?c2)"
    using ne T(3) R(4) k cp by (simp add: StartSessions_client_def start_command)
  have set_ps: "set ?ps = ran (cc_sessions cc)" using assms(7) by (rule pointers_ran)
  note res = start_all_result [OF s', unfolded set_ps, OF assms(8)]
  show ?thesis
  proof (cases "r = Inr ()")
    case True
    obtain h where h: "start_sessions cenv (client_pointers cenv c) ?c2 = (Inr (), ?c2\<lparr>cl_heap := h\<rparr>)"
      "length h = length (cl_heap c)" "\<forall>p < length h. p \<in> set (client_pointers cenv c) \<longrightarrow> Session_IsActive (h ! p)"
      using start_sessions_ok [of "client_pointers cenv c" ?c2 cenv] ps assms(9) same by auto
    have "StartSessions_client cenv ?c = (Inr (), ?c2\<lparr>cl_heap := h\<rparr>)" using C h(1) True by (simp add: code_def)
    moreover have "\<forall>p \<in> ran (cl_currentSessions c). Session_IsActive (h ! p)" using h(2,3) ps by simp
    ultimately show ?thesis
      using S True res R T
      by (intro exI [of _ cmd] exI [of _ out] exI [of _ s'] exI [of _ cc2] exI [of _ "Inr ()"] exI [of _ "?c2\<lparr>cl_heap := h\<rparr>"])
        (simp add: in_step_frame)
  next
    case False
    then have "code = AcceptFailure" by (auto simp: code_def split: sum.split)
    then have "StartSessions_client cenv ?c = (Inl (TWAMPError AcceptFailure), ?c2)" using C by simp
    moreover have "same_sessions c ?c2" using same by (simp add: same_sessions_def)
    ultimately show ?thesis
      using S False res R T
      by (intro exI [of _ cmd] exI [of _ out] exI [of _ s'] exI [of _ cc2] exI [of _ "Inl (TWAMPError AcceptFailure)"] exI [of _ ?c2])
        (simp add: in_step_frame)
  qed
qed

text \<open>C10: stopping the sessions of a connection. The message of the client empties its map and is taken by the server exactly
  when both ends count the same sessions; the server then schedules the stop of each of its
  sessions, forgets them for this connection, and the ends are in step. Otherwise the handler
  ends with an error, which closes the connection, with the sessions of the server as they were.\<close>

theorem stop_agrees:
  assumes "in_step c cc" and "client_env_ok cenv" and "cl_currentSessions c \<noteq> Map.empty"
    and "order_ok (cl_currentSessions c) (ce_order cenv)" and "order_ok (cc_sessions cc) (ev_order env)"
    and "card (dom (cl_currentSessions c)) < 2 ^ 32" and "card (dom (cc_sessions cc)) < 2 ^ 32"
  shows "\<exists>cmd r c'. StopSessions_client cenv c = (r, c') \<and> cl_out c' = cl_out c @ [cmd] \<and> cl_currentSessions c' = Map.empty \<and>
    (if card (dom (cl_currentSessions c)) = card (dom (cc_sessions cc))
     then \<exists>cc'. command_round env s (cc\<lparr>cc_in := cmd @ rest\<rparr>) =
         Some (Inr (), fold (schedule_stop (ev_now env)) (pointers (cc_sessions cc) (ev_order env)) s, cc') \<and>
         cc_sessions cc' = Map.empty \<and> in_step c' cc'
     else \<exists>e cc'. command_round env s (cc\<lparr>cc_in := cmd @ rest\<rparr>) = Some (Inl e, s, cc') \<and> cc_sessions cc' = cc_sessions cc)"
  using assms by (rule stop_sent)

text \<open>A session stopped on its own. After \<open>StopSession\<close>, which tells the server nothing, the two ends no longer
  count the same sessions: when the client had the sessions of the server and one of them is stopped in this
  way, \<open>StopSessions\<close> for the others is an error at the server, which stops none of them on this command.\<close>

theorem local_stop_rejected:
  assumes "in_step c cc" and "client_env_ok cenv" and "dom (cl_currentSessions c) = dom (cc_sessions cc)"
    and "StopSession cenv' sid c = (Inr (), c1)" and "cl_currentSessions c1 \<noteq> Map.empty"
    and "order_ok (cl_currentSessions c1) (ce_order cenv)" and "order_ok (cc_sessions cc) (ev_order env)"
    and "card (dom (cc_sessions cc)) < 2 ^ 32"
  shows "\<exists>cmd r c2 e cc'. StopSessions_client cenv c1 = (r, c2) \<and> cl_out c2 = cl_out c @ [cmd] \<and>
    cl_currentSessions c2 = Map.empty \<and>
    command_round env s (cc\<lparr>cc_in := cmd @ rest\<rparr>) = Some (Inl e, s, cc') \<and> cc_sessions cc' = cc_sessions cc"
proof -
  obtain p where p: "cl_currentSessions c sid = Some p"
    using assms(4) by (auto simp: StopSession_def split: option.splits)
  obtain ts where c1: "c1 = (set_session p ts c)\<lparr>cl_currentSessions := (cl_currentSessions c)(sid := None)\<rparr>"
    using assms(4) p by (auto simp: StopSession_def split: prod.splits sum.splits)
  have step: "in_step c1 cc" and out: "cl_out c1 = cl_out c"
    using assms(1) by (simp_all add: c1 set_session_def in_step_frame)
  have fin: "finite (dom (cc_sessions cc))" using assms(7) by (auto simp: order_ok_def) (metis List.finite_set)
  have d: "dom (cl_currentSessions c1) = dom (cc_sessions cc) - {sid}" "sid \<in> dom (cc_sessions cc)"
    using p assms(3) by (auto simp: c1)
  then have "card (dom (cl_currentSessions c1)) < card (dom (cc_sessions cc))" using fin card_Diff1_less by metis
  with stop_sent [OF step assms(2,5-7) _ assms(8), of s rest] assms(8) out show ?thesis by auto
qed

section \<open>Concrete ends\<close>

text \<open>An encrypted connection with one session that was requested and granted.\<close>

lemma demo_opened:
  "\<exists>c cc (s :: Server). in_step c cc \<and> cl_currentSessions c = [zeros 16 \<mapsto> 0] \<and> length (cl_heap c) = 1 \<and>
     sn_sid (cl_heap c ! 0) = zeros 16 \<and> cc_sessions cc = [zeros 16 \<mapsto> 0] \<and> length (sv_heap s) = 1"
proof -
  obtain cc c where c: "in_step c cc" "cl_controlMode c = 4" "cl_testMode c = 4" "same_sessions (demo_client 4) c"
    "cc_sessions cc = Map.empty" using demo_ends by blast
  have e: "cl_currentSessions c = Map.empty" "cl_heap c = []"
    using c(4) by (simp_all add: same_sessions_def demo_client_def NewClient_def)
  obtain cfg request where q: "complete_config c demo_session_config = Inr cfg" "tc_PaddingLength cfg \<le> 2048" "tc_DSCP cfg < 64"
    "request_message (demo_client_env []) CmdRequestTWSession zeroSID cfg = Inr request"
    "\<not> request_refused demo_env (demo_server 4 20000 30000) cc request"
    using demo_asks [OF c(1-3)] by blast
  have auth: "controlRequiresAuthentication (cc_controlMode cc)" using c demo_modes(5) by (auto simp: in_step_def)
  have "(20000 :: u16) \<noteq> 0" "ev_random demo_env 0 16 = Inr (zeros 16)" by (simp_all add: demo_env_def)
  from request_secure [OF c(1) auth demo_env_ok demo_client_env_ok q demo_alloc this, of "[]" "[]"]
  obtain s' cc' c' where o: "opened demo_env (demo_client_env []) demo_session_config (demo_server 4 20000 30000) cc c (zeros 16)
      20000 [] [] s' cc' c'" "in_step c' cc'" by blast
  have "sv_heap (demo_server 4 20000 30000) = []" by (simp add: demo_server_def)
  with o e c(5) have "cl_currentSessions c' = [zeros 16 \<mapsto> 0] \<and> length (cl_heap c') = 1 \<and>
     sn_sid (cl_heap c' ! 0) = zeros 16 \<and> cc_sessions cc' = [zeros 16 \<mapsto> 0] \<and> length (sv_heap s') = 1"
    by (auto simp: opened_def agreed_session_def)
  with o(2) show ?thesis by (intro exI [of _ c'] exI [of _ cc'] exI [of _ s']) blast
qed

definition demo_env_with :: "session_id list \<Rightarrow> control_env" where
  "demo_env_with os = demo_env\<lparr>ev_order := os\<rparr>"

lemma demo_orders:
  "ce_order (demo_client_env []) = [zeros 16]" "ce_listen (demo_client_env []) sid port"
  "ev_order (demo_env_with os) = os" "ev_listen (demo_env_with os) p"
  by (simp_all add: demo_client_env_def demo_env_with_def demo_env_def)

lemma demo_env_with_ok: "env_ok (demo_env_with os)"
  using demo_env_ok by (simp add: demo_env_with_def env_ok_def)

theorem start_agrees_witness:
  "\<exists>c cc s cmd reply s' cc' c'.
    command_round (demo_env_with [zeros 16]) s (cc\<lparr>cc_in := cmd\<rparr>) = Some (Inr (), s', cc') \<and>
    StartSessions_client (demo_client_env []) (c\<lparr>cl_in := reply\<rparr>) = (Inr (), c') \<and>
    se_isActive (sv_heap s' ! 0) \<and> Session_IsActive (cl_heap c' ! 0)"
proof -
  obtain c cc and s :: Server where o: "in_step c cc" "cl_currentSessions c = [zeros 16 \<mapsto> 0]" "length (cl_heap c) = 1"
    "sn_sid (cl_heap c ! 0) = zeros 16" "cc_sessions cc = [zeros 16 \<mapsto> 0]" "length (sv_heap s) = 1" using demo_opened by blast
  have "linked c" "order_ok (cl_currentSessions c) (ce_order (demo_client_env []))" "order_ok (cc_sessions cc) (ev_order (demo_env_with [zeros 16]))"
    "cl_currentSessions c \<noteq> Map.empty" using o by (simp_all add: linked_def order_ok_def demo_orders)
  from start_agrees [OF o(1) demo_env_with_ok demo_client_env_ok this(4,1-3), of s "[]" "[]"] o(2-6)
  show ?thesis by (simp add: demo_orders) blast
qed

theorem stop_agrees_witness:
  "\<exists>c cc s cmd r c' s' cc'. StopSessions_client (demo_client_env []) c = (r, c') \<and> cl_out c' = cl_out c @ [cmd] \<and>
    command_round (demo_env_with [zeros 16]) s (cc\<lparr>cc_in := cmd\<rparr>) = Some (Inr (), s', cc') \<and> cc_sessions cc' = Map.empty \<and> in_step c' cc'"
proof -
  obtain c cc where o: "in_step c cc" "cl_currentSessions c = [zeros 16 \<mapsto> 0]" "cc_sessions cc = [zeros 16 \<mapsto> 0]"
    using demo_opened by blast
  have "cl_currentSessions c \<noteq> Map.empty" "order_ok (cl_currentSessions c) (ce_order (demo_client_env []))"
    "order_ok (cc_sessions cc) (ev_order (demo_env_with [zeros 16]))" "card (dom (cl_currentSessions c)) < 2 ^ 32" "card (dom (cc_sessions cc)) < 2 ^ 32"
    using o by (simp_all add: order_ok_def demo_orders)
  from stop_agrees [OF o(1) demo_client_env_ok this, of undefined "[]"] o(2,3)
  show ?thesis by simp blast
qed

text \<open>The same connection with two sessions at both ends.\<close>

theorem local_stop_rejected_witness:
  "\<exists>c cc c1 cmd r c2 e cc'. dom (cl_currentSessions c) = {zeros 16, zeros 15} \<and> dom (cc_sessions cc) = {zeros 16, zeros 15} \<and>
    StopSession (demo_client_env []) (zeros 15) c = (Inr (), c1) \<and> StopSessions_client (demo_client_env []) c1 = (r, c2) \<and>
    cl_out c2 = cl_out c @ [cmd] \<and>
    command_round (demo_env_with [zeros 16, zeros 15]) (demo_server 4 0 0) (cc\<lparr>cc_in := cmd\<rparr>) =
      Some (Inl e, demo_server 4 0 0, cc')"
proof -
  obtain c0 cc0 where o: "in_step c0 cc0" using demo_opened by blast
  let ?m = "[zeros 16 \<mapsto> 0, zeros 15 \<mapsto> 1]"
  define c where "c = c0\<lparr>cl_heap := [demo_session, demo_session], cl_currentSessions := ?m\<rparr>"
  define cc where "cc = cc0\<lparr>cc_sessions := ?m\<rparr>"
  have ne: "zeros 16 \<noteq> zeros 15" by (metis length_zeros numeral_eq_iff semiring_norm(86,88))
  have step: "in_step c cc" using o by (simp add: c_def cc_def in_step_frame)
  obtain c1 where c1: "StopSession (demo_client_env []) (zeros 15) c = (Inr (), c1)" "cl_currentSessions c1 = [zeros 16 \<mapsto> 0]"
    using ne by (simp add: StopSession_def session_stop_def Session_Stop_def demo_client_env_def c_def demo_session_def Let_def fun_upd_idem_iff)
  have dom: "dom (cl_currentSessions c) = {zeros 16, zeros 15}" "dom (cc_sessions cc) = {zeros 16, zeros 15}"
    by (auto simp: c_def cc_def)
  have h: "dom (cl_currentSessions c) = dom (cc_sessions cc)" "cl_currentSessions c1 \<noteq> Map.empty"
    "order_ok (cl_currentSessions c1) (ce_order (demo_client_env []))"
    "order_ok (cc_sessions cc) (ev_order (demo_env_with [zeros 16, zeros 15]))" "card (dom (cc_sessions cc)) < 2 ^ 32"
  proof -
    show "dom (cl_currentSessions c) = dom (cc_sessions cc)" using dom by simp
    show "cl_currentSessions c1 \<noteq> Map.empty" "order_ok (cl_currentSessions c1) (ce_order (demo_client_env []))"
      using c1(2) by (simp_all add: order_ok_def demo_orders)
    show "order_ok (cc_sessions cc) (ev_order (demo_env_with [zeros 16, zeros 15]))" "card (dom (cc_sessions cc)) < 2 ^ 32"
      using dom(2) ne by (simp_all add: order_ok_def demo_orders)
  qed
  obtain cmd r c2 e cc' where "StopSessions_client (demo_client_env []) c1 = (r, c2)" "cl_out c2 = cl_out c @ [cmd]"
    "command_round (demo_env_with [zeros 16, zeros 15]) (demo_server 4 0 0) (cc\<lparr>cc_in := cmd @ []\<rparr>) = Some (Inl e, demo_server 4 0 0, cc')"
    using local_stop_rejected [OF step demo_client_env_ok h(1) c1(1) h(2-5), of "demo_server 4 0 0" "[]"] by blast
  with dom c1(1) show ?thesis unfolding append_Nil2 by blast
qed

end
