(* ===== verification/Socket_Options.thy ===== *)
theory Socket_Options
  imports End_To_End
begin

text \<open>
  The options the two ends set on their test sockets (\<open>src/common/dscp.go\<close>, its variant for Linux
  and the BSDs, and \<open>src/common/ttl_unix.go\<close>), the calls that set them (\<open>startSession\<close> of the server,
  \<open>TestSession.Start\<close> of the client), and the clock state the sender reads
  (\<open>src/client/test_session_linux.go\<close>). What the kernel answers is an argument.
\<close>

section \<open>Sockets\<close>

text \<open>
  The options of a socket by level and name, with the value last set. \<open>setsockopt level name value\<close> is
  the answer of the kernel. The numbers of levels and options are those of Linux.
\<close>

type_synonym sockopts = "int \<times> int \<rightharpoonup> int"
type_synonym sockcall = "int \<Rightarrow> int \<Rightarrow> int \<Rightarrow> unit res"

definition IPPROTO_IP :: int where "IPPROTO_IP = 0"
definition IPPROTO_IPV6 :: int where "IPPROTO_IPV6 = 41"
definition IP_TOS :: int where "IP_TOS = 1"
definition IP_TTL :: int where "IP_TTL = 2"
definition IP_RECVTTL :: int where "IP_RECVTTL = 12"
definition IPV6_UNICAST_HOPS :: int where "IPV6_UNICAST_HOPS = 16"
definition IPV6_RECVHOPLIMIT :: int where "IPV6_RECVHOPLIMIT = 51"
definition IPV6_TCLASS :: int where "IPV6_TCLASS = 67"

lemmas option_numbers = IPPROTO_IP_def IPPROTO_IPV6_def IP_TOS_def IP_TTL_def IP_RECVTTL_def
  IPV6_UNICAST_HOPS_def IPV6_RECVHOPLIMIT_def IPV6_TCLASS_def

definition SetsockoptInt :: "sockcall \<Rightarrow> int \<Rightarrow> int \<Rightarrow> int \<Rightarrow> sockopts \<Rightarrow> unit res \<times> sockopts" where
  "SetsockoptInt setsockopt level name v sock =
     (case setsockopt level name v of Inl e \<Rightarrow> (Inl e, sock) | Inr _ \<Rightarrow> (Inr (), sock((level, name) \<mapsto> v)))"

text \<open>
  A connection as \<open>SetDSCP\<close> and \<open>SetTTL\<close> look at it: its kind, and what \<open>SyscallConn\<close> and
  \<open>Control\<close> return. \<open>Control\<close> runs the function it is given exactly when it returns no error.
\<close>

datatype conn_kind = UDPConn | TCPConn | OtherConn

record raw_conn =
  rc_kind :: conn_kind
  rc_SyscallConn :: "unit res"
  rc_Control :: "unit res"

definition Control ::
    "raw_conn \<Rightarrow> (sockopts \<Rightarrow> unit res \<times> sockopts) \<Rightarrow> sockopts \<Rightarrow> unit res \<times> sockopts" where
  "Control c f sock =
     (case rc_SyscallConn c of
        Inl e \<Rightarrow> (Inl e, sock)
      | Inr _ \<Rightarrow> (case rc_Control c of Inl e \<Rightarrow> (Inl e, sock) | Inr _ \<Rightarrow> f sock))"

section \<open>DSCP\<close>

text \<open>The named code points of \<open>dscp.go\<close>, as it writes them.\<close>

definition dscp_constants :: "(string \<times> u8) list" where
  "dscp_constants =
    [(''BE'', 0x00),
     (''CS1'', 0x20), (''AF11'', 0x28), (''AF12'', 0x30), (''AF13'', 0x38),
     (''CS2'', 0x40), (''AF21'', 0x48), (''AF22'', 0x50), (''AF23'', 0x58),
     (''CS3'', 0x60), (''AF31'', 0x68), (''AF32'', 0x70), (''AF33'', 0x78),
     (''CS4'', 0x80), (''AF41'', 0x88), (''AF42'', 0x90), (''AF43'', 0x98),
     (''CS5'', 0xA0), (''EF'', 0xB8), (''CS6'', 0xC0), (''CS7'', 0xE0)]"

text \<open>The shift is one of \<open>uint8\<close> and loses the two upper bits.\<close>

definition platformSetDSCP :: "sockcall \<Rightarrow> u8 \<Rightarrow> sockopts \<Rightarrow> unit res \<times> sockopts" where
  "platformSetDSCP setsockopt dscp sock =
     (let tos = uint (push_bit 2 dscp)
      in case SetsockoptInt setsockopt IPPROTO_IPV6 IPV6_TCLASS tos sock of
           (Inr _, sock) \<Rightarrow> (Inr (), sock)
         | (Inl _, sock) \<Rightarrow> SetsockoptInt setsockopt IPPROTO_IP IP_TOS tos sock)"

definition ErrUnsupportedConn :: goerr where
  "ErrUnsupportedConn = Errorf ''dscp: connection type not supported''"

definition SetDSCP :: "sockcall \<Rightarrow> raw_conn \<Rightarrow> u8 \<Rightarrow> sockopts \<Rightarrow> unit res \<times> sockopts" where
  "SetDSCP setsockopt c dscp sock =
     (case rc_kind c of
        OtherConn \<Rightarrow> (Inl ErrUnsupportedConn, sock)
      | _ \<Rightarrow> Control c (platformSetDSCP setsockopt dscp) sock)"

section \<open>TTL\<close>

text \<open>An option of IPv4 is tried first, then the one of IPv6.\<close>

definition set_either :: "sockcall \<Rightarrow> int \<Rightarrow> int \<Rightarrow> int \<Rightarrow> string \<Rightarrow> sockopts \<Rightarrow> unit res \<times> sockopts" where
  "set_either setsockopt name4 name6 v msg sock =
     (case SetsockoptInt setsockopt IPPROTO_IP name4 v sock of
        (Inr _, sock) \<Rightarrow> (Inr (), sock)
      | (Inl _, sock) \<Rightarrow>
         (case SetsockoptInt setsockopt IPPROTO_IPV6 name6 v sock of
            (Inr _, sock) \<Rightarrow> (Inr (), sock)
          | (Inl e, sock) \<Rightarrow> (Inl (Wrap msg [e]), sock)))"

definition SetTTL :: "sockcall \<Rightarrow> raw_conn \<Rightarrow> int \<Rightarrow> sockopts \<Rightarrow> unit res \<times> sockopts" where
  "SetTTL setsockopt c ttl sock =
     (if rc_kind c \<noteq> UDPConn then (Inl (Errorf ''SetTTL requires a UDP connection''), sock)
      else case rc_SyscallConn c of
        Inl e \<Rightarrow> (Inl (Wrap ''failed to get syscall conn'' [e]), sock)
      | Inr _ \<Rightarrow> Control c (set_either setsockopt IP_TTL IPV6_UNICAST_HOPS ttl ''failed to set TTL'') sock)"

definition EnableTTLReception :: "sockcall \<Rightarrow> raw_conn \<Rightarrow> sockopts \<Rightarrow> unit res \<times> sockopts" where
  "EnableTTLReception setsockopt c sock =
     (if rc_kind c \<noteq> UDPConn then (Inl (Errorf ''EnableTTLReception requires a UDP connection''), sock)
      else case rc_SyscallConn c of
        Inl e \<Rightarrow> (Inl (Wrap ''failed to get syscall conn'' [e]), sock)
      | Inr _ \<Rightarrow> Control c (set_either setsockopt IP_RECVTTL IPV6_RECVHOPLIMIT 1 ''failed to enable TTL reception'') sock)"

definition GetTTL :: "int res" where
  "GetTTL = Inr 255"

text \<open>
  The TTL of a received packet, from the control message that came with it. \<open>parse4\<close> and \<open>parse6\<close> are
  \<open>ControlMessage.Parse\<close> of \<open>x/net\<close> with the field it fills in; the address is that of a UDP peer, whose
  IP may be nil. The result is the argument \<open>ttl\<close> of \<open>reflect_iteration\<close>.
\<close>

definition extractPacketTTL ::
    "(bytes \<Rightarrow> int res) \<Rightarrow> (bytes \<Rightarrow> int res) \<Rightarrow> bytes \<Rightarrow> ip option \<Rightarrow> u8 option" where
  "extractPacketTTL parse4 parse6 oob udpAddr =
     (if oob = [] then None
      else case udpAddr of
        None \<Rightarrow> None
      | Some a \<Rightarrow>
         if a = [] then None
         else (case (if IP_To4 a \<noteq> [] then parse4 else parse6) oob of
                 Inl e \<Rightarrow> None
               | Inr ttl \<Rightarrow> if 0 < ttl then Some (word_of_int ttl) else None))"

section \<open>The sockets of a session\<close>

text \<open>
  The socket of the reflector, as \<open>startSession\<close> prepares it: the errors are logged only.
  \<open>receive_ttl\<close> is what \<open>enableTTLReceive\<close> does to it, through the library \<open>x/net\<close>.
\<close>

definition session_dscp :: "Server \<Rightarrow> TestSession \<Rightarrow> u8" where
  "session_dscp s session = (if se_dscp session = 0 then cf_DSCP (sv_config s) else se_dscp session)"

definition reflector_socket ::
    "sockcall \<Rightarrow> raw_conn \<Rightarrow> (sockopts \<Rightarrow> sockopts) \<Rightarrow> Server \<Rightarrow> TestSession \<Rightarrow> sockopts \<Rightarrow> sockopts" where
  "reflector_socket setsockopt c receive_ttl s session sock =
     (let sock = receive_ttl sock;
          dscp = session_dscp s session;
          sock = (if dscp \<noteq> 0 then snd (SetDSCP setsockopt c dscp sock) else sock);
          sock = snd (SetTTL setsockopt c 255 sock)
      in snd (EnableTTLReception setsockopt c sock))"

definition sender_socket :: "sockcall \<Rightarrow> raw_conn \<Rightarrow> SenderSession \<Rightarrow> sockopts \<Rightarrow> sockopts" where
  "sender_socket setsockopt c ts sock =
     (if tc_DSCP (sn_config ts) \<noteq> 0 then snd (SetDSCP setsockopt c (tc_DSCP (sn_config ts)) sock) else sock)"

section \<open>The clock\<close>

text \<open>
  \<open>adjtimex\<close> is what the system call gives: its error number, and the status word it fills in. The
  answer of \<open>isClockSynchronized\<close> is the argument \<open>syncBit\<close> of \<open>SendTestPacket\<close>.
\<close>

definition isClockSynchronized_linux :: "nat \<times> u32 \<Rightarrow> bool" where
  "isClockSynchronized_linux adjtimex =
     (case adjtimex of (err, Status) \<Rightarrow> if err \<noteq> 0 then False else Status AND 0x0040 = 0)"

definition isClockSynchronized_stub :: bool where
  "isClockSynchronized_stub = False"

section \<open>What the sockets carry\<close>

text \<open>
  The byte that packets of a socket carry in their type-of-service or traffic-class field, as far as it
  was set. \<open>marks setsockopt d\<close> is the byte for the code point \<open>d\<close>.
\<close>

definition traffic_class :: "sockopts \<Rightarrow> int option" where
  "traffic_class sock =
     (case sock (IPPROTO_IPV6, IPV6_TCLASS) of Some v \<Rightarrow> Some v | None \<Rightarrow> sock (IPPROTO_IP, IP_TOS))"

definition udp_ok :: "raw_conn \<Rightarrow> bool" where
  "udp_ok c \<longleftrightarrow> rc_kind c = UDPConn \<and> rc_SyscallConn c = Inr () \<and> rc_Control c = Inr ()"

definition takes_tos :: "sockcall \<Rightarrow> bool" where
  "takes_tos setsockopt \<longleftrightarrow> (\<forall>v. setsockopt IPPROTO_IPV6 IPV6_TCLASS v = Inr ()) \<or> (\<forall>v. setsockopt IPPROTO_IP IP_TOS v = Inr ())"

lemma SetsockoptInt_other:
  "(l, n) \<noteq> k \<Longrightarrow> snd (SetsockoptInt setsockopt l n v sock) k = sock k"
  by (simp add: SetsockoptInt_def split: sum.split)

lemma set_either_other:
  "(IPPROTO_IP, n4) \<noteq> k \<Longrightarrow> (IPPROTO_IPV6, n6) \<noteq> k \<Longrightarrow> snd (set_either setsockopt n4 n6 v msg sock) k = sock k"
  by (auto simp: set_either_def SetsockoptInt_def split: sum.split)

lemma Control_other:
  "(\<And>sock. snd (f sock) k = sock k) \<Longrightarrow> snd (Control c f sock) k = sock k"
  by (simp add: Control_def split: sum.split)

lemma ttl_other:
  assumes "k = (IPPROTO_IPV6, IPV6_TCLASS) \<or> k = (IPPROTO_IP, IP_TOS)"
  shows "snd (SetTTL setsockopt c ttl sock) k = sock k" "snd (EnableTTLReception setsockopt c sock) k = sock k"
proof -
  have n: "(IPPROTO_IP, IP_TTL) \<noteq> k" "(IPPROTO_IPV6, IPV6_UNICAST_HOPS) \<noteq> k"
    "(IPPROTO_IP, IP_RECVTTL) \<noteq> k" "(IPPROTO_IPV6, IPV6_RECVHOPLIMIT) \<noteq> k"
    using assms by (auto simp: option_numbers)
  have "snd (Control c (set_either setsockopt IP_TTL IPV6_UNICAST_HOPS ttl m) sock) k = sock k"
    "snd (Control c (set_either setsockopt IP_RECVTTL IPV6_RECVHOPLIMIT 1 m) sock) k = sock k" for m
    using n by (simp_all add: Control_other set_either_other)
  then show "snd (SetTTL setsockopt c ttl sock) k = sock k" "snd (EnableTTLReception setsockopt c sock) k = sock k"
    by (simp_all add: SetTTL_def EnableTTLReception_def split: sum.split)
qed

lemma ttl_keeps_class:
  "traffic_class (snd (SetTTL setsockopt c ttl sock)) = traffic_class sock"
  "traffic_class (snd (EnableTTLReception setsockopt c sock)) = traffic_class sock"
  using ttl_other [OF disjI1 [OF refl]] ttl_other [OF disjI2 [OF refl]]
  by (simp_all add: traffic_class_def split: option.split)

lemma udp_control:
  assumes "udp_ok c"
  shows "Control c f sock = f sock" and "SetDSCP setsockopt c d sock = platformSetDSCP setsockopt d sock"
  using assms by (simp_all add: udp_ok_def Control_def SetDSCP_def)

lemma SetDSCP_class:
  assumes "udp_ok c" and "takes_tos setsockopt" and "traffic_class sock = None"
  shows "traffic_class (snd (SetDSCP setsockopt c d sock)) = Some (uint (push_bit 2 d :: u8))"
proof -
  have n: "sock (IPPROTO_IPV6, IPV6_TCLASS) = None" "sock (IPPROTO_IP, IP_TOS) = None"
    using assms(3) by (auto simp: traffic_class_def split: option.splits)
  show ?thesis
    using assms(2) n unfolding udp_control(2) [OF assms(1)]
    by (auto simp: platformSetDSCP_def SetsockoptInt_def takes_tos_def traffic_class_def option_numbers Let_def split: sum.split)
qed

lemma tos_byte: "d < 64 \<Longrightarrow> uint (push_bit 2 d :: u8) = 4 * uint d" for d :: u8
proof -
  assume "d < 64"
  then have "uint d * uint (4 :: u8) < 2 ^ LENGTH(8)" by (simp add: word_less_def)
  then have "uint (d * 4) = uint d * uint (4 :: u8)" by (simp only: uint_mult_lem)
  then show ?thesis by (simp add: push_bit_eq_mult)
qed

lemma reflector_ttl:
  assumes "udp_ok c" and "setsockopt IPPROTO_IP IP_TTL 255 = Inr ()"
  shows "reflector_socket setsockopt c receive_ttl s x sock (IPPROTO_IP, IP_TTL) = Some 255"
proof -
  have k: "(IPPROTO_IP, IP_RECVTTL) \<noteq> (IPPROTO_IP, IP_TTL)" "(IPPROTO_IPV6, IPV6_RECVHOPLIMIT) \<noteq> (IPPROTO_IP, IP_TTL)"
    by (simp_all add: option_numbers)
  have "snd (EnableTTLReception setsockopt c sock) (IPPROTO_IP, IP_TTL) = sock (IPPROTO_IP, IP_TTL)" for sock
    by (simp add: EnableTTLReception_def Control_other set_either_other [OF k] split: sum.split)
  moreover have "snd (SetTTL setsockopt c 255 sock) (IPPROTO_IP, IP_TTL) = Some 255" for sock
    using assms(2) unfolding SetTTL_def udp_control(1) [OF assms(1)]
    by (simp add: assms(1) [unfolded udp_ok_def] set_either_def SetsockoptInt_def)
  ultimately show ?thesis by (simp add: reflector_socket_def Let_def)
qed

definition low_names :: "string set" where
  "low_names = {''CS1'', ''AF11'', ''AF12'', ''AF13''}"

lemma dscp_constants_all:
  "list_all (\<lambda>(name, v). name = ''BE'' \<or> v \<noteq> 0 \<and> push_bit 2 v \<noteq> v \<and> (64 \<le> v \<or> name \<in> low_names)) dscp_constants"
  by (simp add: dscp_constants_def low_names_def)

lemma named_dscp_class:
  assumes "(name, v) \<in> set dscp_constants" and "name \<noteq> ''BE''"
  shows "v \<noteq> 0 \<and> push_bit 2 v \<noteq> v \<and> (64 \<le> v \<or> name \<in> low_names)"
  using dscp_constants_all assms unfolding list_all_iff by blast

lemma request_class_checked:
  assumes "length data = 112"
  shows "RequestTWSession_Unmarshal m (take 96 data @ mac) h = Inr r \<Longrightarrow>
    validateTypePDescriptor (rd32 (seg 84 88 data)) = Inr ()"
proof -
  have "seg 84 88 (take 96 data @ mac) = seg 84 88 data" using assms by (simp add: seg_def drop_take)
  then show "RequestTWSession_Unmarshal m (take 96 data @ mac) h = Inr r \<Longrightarrow> ?thesis"
    by (simp only: RequestTWSession_Unmarshal_def) (auto split: if_splits sum.splits)
qed

section \<open>Properties\<close>


text \<open>The witness: expedited forwarding as a six-bit value, on sockets of IPv6.\<close>

definition demo_socket :: raw_conn where
  "demo_socket = \<lparr>rc_kind = UDPConn, rc_SyscallConn = Inr (), rc_Control = Inr ()\<rparr>"

definition demo_dscp :: "u8 \<Rightarrow> TestSessionConfig" where
  "demo_dscp d = demo_session_config\<lparr>tc_PaddingLength := 27, tc_Timeout := 3000000000, tc_DSCP := d\<rparr>"

lemma demo_dscp_request:
  obtains request where "request_message (demo_client_env []) CmdRequestTWSession zeroSID (demo_dscp d) = Inr request"
  by (simp add: request_message_def parseAndValidateIP_def demo_client_env_def IP_To4_def Let_def demo_dscp_def
      demo_session_config_def)


text \<open>C31: the named code points of the package cannot be used with it. They are written shifted into the
  traffic-class byte, and every place that takes a code point shifts again: a socket given one of them carries
  another byte than it names, and a request that asks for one from 64 on is not accepted by the server's decoder,
  whatever HMAC field the message carries.\<close>

theorem named_dscp_unusable:
  assumes "(name, v) \<in> set dscp_constants" and "name \<noteq> ''BE''" and "udp_ok uc" and "takes_tos kc" and "tc_DSCP cfg = v"
    and "sn_config ts = cfg" and "request_message cenv command i cfg = Inr request" and "length i = 16"
    and "RequestTWSession_Marshal request False = Inr data"
  shows "(\<exists>b. traffic_class (sender_socket kc uc ts Map.empty) = Some b \<and> b \<noteq> uint v) \<and>
    (64 \<le> v \<or> name \<in> low_names) \<and>
    (v < 64 \<or> (\<exists>e. RequestTWSession_Unmarshal m (take 96 data @ mac) h = Inl e))"
proof -
  note v = named_dscp_class [OF assms(1,2)]
  have "traffic_class (sender_socket kc uc ts Map.empty) = Some (uint (push_bit 2 v))"
    using SetDSCP_class [OF assms(3,4), of Map.empty v] v assms(5,6) by (simp add: sender_socket_def traffic_class_def)
  moreover have "uint (push_bit 2 v) \<noteq> uint v" using v unfolding word_uint_eq_iff by blast
  moreover have "64 \<le> v \<or> name \<in> low_names" using v by blast
  moreover have "\<exists>e. RequestTWSession_Unmarshal m (take 96 data @ mac) h = Inl e" if "\<not> v < 64"
  proof -
    note f = request_message_fields [OF assms(7)]
    have "length (rts_SenderAddress request) = 16" "length (rts_ReceiverAddress request) = 16" "length (rts_SID request) = 16"
      "hmac_ok False (rts_HMAC request)" using f assms(8) by (simp_all add: hmac_ok_def)
    note d = assms(9) [unfolded RequestTWSession_Marshal_eq [OF this], THEN Inr_inject, symmetric]
    have l: "length data = 112" unfolding d using f assms(8) by (simp add: TWAMPTimestamp_bytes_def)
    have "rd32 (seg 84 88 data) = push_bit 18 (ucast v)" unfolding d using f assms(5,8) by (simp add: seg_def TWAMPTimestamp_bytes_def)
    with request_class_checked [OF l] dscp_descriptor [of v] that show ?thesis
      by (cases "RequestTWSession_Unmarshal m (take 96 data @ mac) h") auto
  qed
  ultimately show ?thesis by blast
qed

text \<open>The witness: a request for the constant \<open>EF\<close>; its sender's packets are marked as network control.\<close>

theorem named_dscp_unusable_witness:
  "\<exists>request data ts e. request_message (demo_client_env []) CmdRequestTWSession zeroSID (demo_dscp 0xB8) = Inr request \<and>
    RequestTWSession_Marshal request False = Inr data \<and> RequestTWSession_Unmarshal RequestTWSession_zero (take 96 data @ zeros 16) False = Inl e"
proof -
  obtain request where r: "request_message (demo_client_env []) CmdRequestTWSession zeroSID (demo_dscp 0xB8) = Inr request"
    by (rule demo_dscp_request)
  obtain data where d: "RequestTWSession_Marshal request False = Inr data" by (simp add: RequestTWSession_Marshal_def Let_def)
  obtain ts where "NewTestSession (demo_dscp 0xB8) (zeros 16) 1 None = Inr ts" and ts: "sn_config ts = demo_dscp 0xB8"
    using NewTestSession_plain [of 1 "demo_dscp 0xB8" "zeros 16" None] by auto
  have c: "(''EF'', 0xB8) \<in> set dscp_constants" "''EF'' \<noteq> ''BE''" "udp_ok demo_socket" "takes_tos (\<lambda>l n v. Inr ())"
    "tc_DSCP (demo_dscp 0xB8) = 0xB8" "length zeroSID = 16"
    by (simp_all add: dscp_constants_def udp_ok_def demo_socket_def takes_tos_def demo_dscp_def zeroSID_def)
  from named_dscp_unusable [OF c(1-5) ts r c(6) d, of RequestTWSession_zero "zeros 16" False] r d show ?thesis by auto
qed

end
