(* ===== verification/Server_Listener.thy ===== *)
theory Server_Listener
  imports Server_Safety
begin

text \<open>
  The server from outside the protocol (\<open>src/server/server.go\<close>): \<open>Start\<close>, the accept loop, the life of a
  connection's goroutine from \<open>Accept\<close> to the end of its deferred clean-up, \<open>Stop\<close>,
  \<open>WaitForConnectionCleanup\<close> and \<open>Addr\<close>. What is said on a connection is in \<open>Server_System\<close>;
  here only matters whether its goroutine waits, and for whom. The lemmas show what \<open>Stop\<close> leaves behind when it
  returns, when it returns, and when it does not.
\<close>

section \<open>State\<close>

text \<open>
  The accept loop is at its \<open>select\<close> (\<open>Accept_Check\<close>) or in \<open>Accept\<close> (\<open>Accept_Wait\<close>). The goroutine of a
  connection is started, has entered the connection into \<open>connections\<close> and waits for the setup response
  (\<open>Setup\<close>), is at the \<open>select\<close> of its command loop, waits for a command under the deadline of SERVWAIT,
  stops its sessions in the deferred clean-up (\<open>Cleaning\<close>), has removed the connection (\<open>Unlisted\<close>), or has ended.
  \<open>Stop\<close> closes the stop channel, closes the listener, stops the sessions (\<open>Server_Stop\<close>), closes the connections, waits.
\<close>

datatype accept_phase = Accept_Off | Accept_Check | Accept_Wait | Accept_Done

datatype conn_phase = Spawned | Setup | Checking | Reading | Cleaning | Unlisted | Finished

datatype stop_phase = Stop_Idle | Stop_Signalled | Stop_Unlistened | Stop_Sessions_Stopped | Stop_Waiting | Stop_Returned

text \<open>
  \<open>ls_conns\<close> has every connection that was accepted, \<open>ls_registered\<close> is the key set of
  \<open>connections\<close>, \<open>ls_open\<close> the sockets the server has not closed, \<open>ls_cleaned\<close> the connections whose
  \<open>cleanupDone\<close> is closed.
\<close>

record listener =
  ls_socket :: handle
  ls_accept :: accept_phase
  ls_cancelled :: bool
  ls_stopChan :: bool
  ls_conns :: "nat \<rightharpoonup> conn_phase"
  ls_registered :: "nat set"
  ls_open :: "nat set"
  ls_cleaned :: "nat set"
  ls_stop :: stop_phase

definition fresh_listener :: listener where
  "fresh_listener = \<lparr>ls_socket = Nil_handle, ls_accept = Accept_Off, ls_cancelled = False, ls_stopChan = False,
     ls_conns = Map.empty, ls_registered = {}, ls_open = {}, ls_cleaned = {}, ls_stop = Stop_Idle\<rparr>"

section \<open>Operations\<close>

definition Server_Start :: "unit res \<Rightarrow> listener \<Rightarrow> unit res \<times> listener" where
  "Server_Start listen ls =
     (case listen of
        Inl e \<Rightarrow> (Inl (Wrap ''failed to start listener'' [e]), ls)
      | Inr _ \<Rightarrow> (Inr (), ls\<lparr>ls_socket := Open_handle, ls_accept := Accept_Check\<rparr>))"

definition told_to_stop :: "listener \<Rightarrow> bool" where
  "told_to_stop ls \<longleftrightarrow> ls_cancelled ls \<or> ls_stopChan ls"

text \<open>The accept loop: its \<open>select\<close>, an error of \<open>Accept\<close> (a timeout too), and a connection.\<close>

definition accept_check :: "listener \<Rightarrow> listener" where
  "accept_check ls = ls\<lparr>ls_accept := (if told_to_stop ls then Accept_Done else Accept_Wait)\<rparr>"

definition accept_error :: "listener \<Rightarrow> listener" where
  "accept_error ls = ls\<lparr>ls_accept := Accept_Check\<rparr>"

definition accept_connection :: "nat \<Rightarrow> listener \<Rightarrow> listener" where
  "accept_connection c ls = ls\<lparr>ls_accept := Accept_Check, ls_conns := (ls_conns ls)(c \<mapsto> Spawned),
     ls_open := insert c (ls_open ls)\<rparr>"

text \<open>The goroutine of a connection.\<close>

definition to_phase :: "nat \<Rightarrow> conn_phase \<Rightarrow> listener \<Rightarrow> listener" where
  "to_phase c p ls = ls\<lparr>ls_conns := (ls_conns ls)(c \<mapsto> p)\<rparr>"

definition register :: "nat \<Rightarrow> listener \<Rightarrow> listener" where
  "register c ls = to_phase c Setup (ls\<lparr>ls_registered := insert c (ls_registered ls)\<rparr>)"

definition loop_check :: "nat \<Rightarrow> listener \<Rightarrow> listener" where
  "loop_check c ls = to_phase c (if told_to_stop ls then Cleaning else Reading) ls"

text \<open>A read that times out: \<open>idle\<close> tells whether \<open>lastActivity\<close> is more than SERVWAIT ago.\<close>

definition read_timeout :: "bool \<Rightarrow> nat \<Rightarrow> listener \<Rightarrow> listener" where
  "read_timeout idle c ls = to_phase c (if idle then Cleaning else Checking) ls"

definition unregister :: "nat \<Rightarrow> listener \<Rightarrow> listener" where
  "unregister c ls = to_phase c Unlisted (ls\<lparr>ls_registered := ls_registered ls - {c}\<rparr>)"

definition finish_connection :: "nat \<Rightarrow> listener \<Rightarrow> listener" where
  "finish_connection c ls = to_phase c Finished
     (ls\<lparr>ls_open := ls_open ls - {c}, ls_cleaned := insert c (ls_cleaned ls)\<rparr>)"

text \<open>\<open>Stop\<close>, call by call. A second \<open>Stop\<close> closes the closed stop channel and panics.\<close>

definition stop_signal :: "listener \<Rightarrow> unit res \<times> listener" where
  "stop_signal ls =
     (if ls_stopChan ls then (Inl (Panic ''close of closed channel''), ls)
      else (Inr (), ls\<lparr>ls_stopChan := True, ls_stop := Stop_Signalled\<rparr>))"

definition stop_listener :: "listener \<Rightarrow> listener" where
  "stop_listener ls =
     (let ls = (if ls_socket ls \<noteq> Nil_handle then ls\<lparr>ls_socket := Closed_handle\<rparr> else ls)
      in ls\<lparr>ls_stop := Stop_Unlistened\<rparr>)"

definition stop_connections :: "listener \<Rightarrow> listener" where
  "stop_connections ls = ls\<lparr>ls_open := ls_open ls - ls_registered ls, ls_stop := Stop_Waiting\<rparr>"

definition all_done :: "listener \<Rightarrow> bool" where
  "all_done ls \<longleftrightarrow> (ls_accept ls = Accept_Off \<or> ls_accept ls = Accept_Done) \<and> (\<forall>p \<in> ran (ls_conns ls). p = Finished)"

text \<open>
  \<open>WaitForConnectionCleanup\<close> gives a channel that is closed already, or \<open>cleanupDone\<close> of the connection.
\<close>

datatype cleanup_channel = Closed_channel | Cleanup_of nat

definition WaitForConnectionCleanup :: "nat \<Rightarrow> listener \<Rightarrow> cleanup_channel" where
  "WaitForConnectionCleanup c ls = (if c \<notin> ls_registered ls then Closed_channel else Cleanup_of c)"

fun signalled :: "cleanup_channel \<Rightarrow> listener \<Rightarrow> bool" where
  "signalled Closed_channel ls = True"
| "signalled (Cleanup_of c) ls = (c \<in> ls_cleaned ls)"

definition Server_Addr :: "'a \<Rightarrow> listener \<Rightarrow> 'a option" where
  "Server_Addr addr ls = (if ls_socket ls = Nil_handle then None else Some addr)"

section \<open>Steps\<close>

text \<open>
  Who makes a step: the caller of the library (\<open>Start\<close>, the context, \<open>Stop\<close>), the server by itself (its own
  code, a deadline, a call on a socket it has closed), or the peer of a connection, by connecting, sending,
  or going away. A goroutine that waits for the setup response has no deadline: as long as its socket is open,
  only its peer moves it.
\<close>

datatype actor = Caller | Own | Peer nat

inductive lstep :: "actor \<Rightarrow> listener \<Rightarrow> listener \<Rightarrow> bool" where
  started: "ls_socket ls = Nil_handle \<Longrightarrow> lstep Caller ls (snd (Server_Start r ls))"
| cancelled: "lstep Caller ls (ls\<lparr>ls_cancelled := True\<rparr>)"
| stop: "ls_stop ls = Stop_Idle \<Longrightarrow> stop_signal ls = (Inr (), ls') \<Longrightarrow> lstep Caller ls ls'"
| stop_listening: "ls_stop ls = Stop_Signalled \<Longrightarrow> lstep Own ls (stop_listener ls)"
| stop_sessions: "ls_stop ls = Stop_Unlistened \<Longrightarrow> lstep Own ls (ls\<lparr>ls_stop := Stop_Sessions_Stopped\<rparr>)"
| stop_connecting: "ls_stop ls = Stop_Sessions_Stopped \<Longrightarrow> lstep Own ls (stop_connections ls)"
| stop_return: "ls_stop ls = Stop_Waiting \<Longrightarrow> all_done ls \<Longrightarrow> lstep Own ls (ls\<lparr>ls_stop := Stop_Returned\<rparr>)"
| check: "ls_accept ls = Accept_Check \<Longrightarrow> lstep Own ls (accept_check ls)"
| no_connection: "ls_accept ls = Accept_Wait \<Longrightarrow> lstep Own ls (accept_error ls)"
| accepted: "ls_accept ls = Accept_Wait \<Longrightarrow> ls_socket ls = Open_handle \<Longrightarrow> ls_conns ls c = None \<Longrightarrow>
    lstep (Peer c) ls (accept_connection c ls)"
| registered: "ls_conns ls c = Some Spawned \<Longrightarrow> lstep Own ls (register c ls)"
| set_up: "ls_conns ls c = Some Setup \<Longrightarrow> c \<in> ls_open ls \<Longrightarrow> lstep (Peer c) ls (to_phase c Checking ls)"
| setup_failed: "ls_conns ls c = Some Setup \<Longrightarrow> c \<in> ls_open ls \<Longrightarrow> lstep (Peer c) ls (to_phase c Cleaning ls)"
| setup_closed: "ls_conns ls c = Some Setup \<Longrightarrow> c \<notin> ls_open ls \<Longrightarrow> lstep Own ls (to_phase c Cleaning ls)"
| loop: "ls_conns ls c = Some Checking \<Longrightarrow> lstep Own ls (loop_check c ls)"
| command: "ls_conns ls c = Some Reading \<Longrightarrow> c \<in> ls_open ls \<Longrightarrow> lstep (Peer c) ls (to_phase c Checking ls)"
| command_failed: "ls_conns ls c = Some Reading \<Longrightarrow> c \<in> ls_open ls \<Longrightarrow> lstep (Peer c) ls (to_phase c Cleaning ls)"
| timed_out: "ls_conns ls c = Some Reading \<Longrightarrow> lstep Own ls (read_timeout idle c ls)"
| read_closed: "ls_conns ls c = Some Reading \<Longrightarrow> c \<notin> ls_open ls \<Longrightarrow> lstep Own ls (to_phase c Cleaning ls)"
| cleaned: "ls_conns ls c = Some Cleaning \<Longrightarrow> lstep Own ls (unregister c ls)"
| finished: "ls_conns ls c = Some Unlisted \<Longrightarrow> lstep Own ls (finish_connection c ls)"

definition lrun :: "(actor \<Rightarrow> bool) \<Rightarrow> listener \<Rightarrow> listener \<Rightarrow> bool" where
  "lrun who = (\<lambda>ls ls'. \<exists>a. who a \<and> lstep a ls ls')\<^sup>*\<^sup>*"

section \<open>The invariant\<close>

text \<open>
  The key set of \<open>connections\<close>, the open sockets and the closed \<open>cleanupDone\<close> channels follow the phases of the
  goroutines; after \<open>Stop\<close> has closed the stop channel it stays closed; \<open>Stop\<close> returns after everybody else.
\<close>

definition conn_ok :: "listener \<Rightarrow> nat \<Rightarrow> bool" where
  "conn_ok ls c \<longleftrightarrow>
     (case ls_conns ls c of
        None \<Rightarrow> c \<notin> ls_registered ls \<and> c \<notin> ls_open ls \<and> c \<notin> ls_cleaned ls
      | Some p \<Rightarrow> (c \<in> ls_registered ls \<longleftrightarrow> p \<in> {Setup, Checking, Reading, Cleaning}) \<and>
          (c \<in> ls_cleaned ls \<longleftrightarrow> p = Finished) \<and> (p = Spawned \<longrightarrow> c \<in> ls_open ls) \<and> (p = Finished \<longrightarrow> c \<notin> ls_open ls))"

definition conns_ok :: "listener \<Rightarrow> bool" where
  "conns_ok ls \<longleftrightarrow> finite (dom (ls_conns ls)) \<and> (\<forall>c. conn_ok ls c)"

definition control_ok :: "listener \<Rightarrow> bool" where
  "control_ok ls \<longleftrightarrow>
     (ls_stop ls \<noteq> Stop_Idle \<longrightarrow> ls_stopChan ls) \<and>
     (ls_accept ls = Accept_Off \<longleftrightarrow> ls_socket ls = Nil_handle) \<and>
     (ls_stop ls = Stop_Returned \<longrightarrow> ls_accept ls \<noteq> Accept_Wait \<and> (\<forall>c p. ls_conns ls c = Some p \<longrightarrow> p = Finished))"

lemmas listener_ops = Server_Start_def accept_check_def accept_error_def accept_connection_def to_phase_def register_def
  loop_check_def read_timeout_def unregister_def finish_connection_def stop_signal_def stop_listener_def stop_connections_def

lemma fresh_listener_ok: "conns_ok fresh_listener" "control_ok fresh_listener"
  by (simp_all add: conns_ok_def conn_ok_def control_ok_def fresh_listener_def)

lemma step_conn_ok:
  assumes "lstep a ls ls'" and "conn_ok ls c"
  shows "conn_ok ls' c"
  using assms
  by (induction rule: lstep.induct)
    (force simp: conn_ok_def listener_ops told_to_stop_def split: option.splits if_splits sum.splits)+

lemma step_finite:
  assumes "lstep a ls ls'" and "finite (dom (ls_conns ls))"
  shows "finite (dom (ls_conns ls'))"
  using assms by (induction rule: lstep.induct) (auto simp: listener_ops split: if_splits sum.splits)

lemma step_control_ok:
  assumes "lstep a ls ls'" and "control_ok ls"
  shows "control_ok ls'"
  using assms
  by (induction rule: lstep.induct)
    (auto simp: control_ok_def listener_ops told_to_stop_def all_done_def ran_def split: if_splits sum.splits)

lemma lrun_refl [simp]: "lrun who ls ls"
  by (simp add: lrun_def)

lemma lrun_step: "lrun who ls ls' \<Longrightarrow> lstep a ls' ls'' \<Longrightarrow> who a \<Longrightarrow> lrun who ls ls''"
  unfolding lrun_def by (erule rtranclp.rtrancl_into_rtrancl) blast

lemma lrun_next: "lrun (\<lambda>a. True) ls ls' \<Longrightarrow> lstep a ls' ls'' \<Longrightarrow> lrun (\<lambda>a. True) ls ls''"
  by (rule lrun_step) simp_all

lemma lrun_then:
  assumes "lrun (\<lambda>a. True) ls ls'" and "lrun who ls' ls''"
  shows "lrun (\<lambda>a. True) ls ls''"
proof -
  have "lrun (\<lambda>a. True) ls' ls''"
    using assms(2) unfolding lrun_def by (rule rtranclp_mono [THEN predicate2D, rotated]) blast
  with assms(1) show ?thesis unfolding lrun_def by (rule rtranclp_trans)
qed

lemma lrun_invariant:
  assumes "lrun who ls ls'" and "P ls" and "\<And>a x y. who a \<Longrightarrow> lstep a x y \<Longrightarrow> P x \<Longrightarrow> P y"
  shows "P ls'"
  using assms(1,2) unfolding lrun_def by (induction rule: rtranclp_induct) (auto intro: assms(3))

text \<open>Any step of anybody keeps the invariant.\<close>

interpretation listening: invariant "\<lambda>x y. \<exists>a. lstep a x y" "\<lambda>ls. conns_ok ls \<and> control_ok ls" "\<lambda>ls. ls = fresh_listener"
proof
  fix x y assume "conns_ok x \<and> control_ok x" "\<exists>a. lstep a x y"
  then show "conns_ok y \<and> control_ok y" using step_conn_ok step_finite step_control_ok by (auto simp: conns_ok_def)
qed (use fresh_listener_ok in simp)

lemma reachable_ok: "lrun (\<lambda>a. True) fresh_listener ls \<Longrightarrow> conns_ok ls \<and> control_ok ls"
  using listening.reached [OF refl] by (simp add: lrun_def)

section \<open>After \<open>Stop\<close> has returned\<close>

lemma returned_step:
  assumes "lstep a ls ls'" and "control_ok ls \<and> ls_stop ls = Stop_Returned"
  shows "ls_stop ls' = Stop_Returned \<and> ls_conns ls' = ls_conns ls"
  using assms by (induction rule: lstep.induct) (auto simp: control_ok_def listener_ops told_to_stop_def split: sum.splits)

interpretation returned: preserved "\<lambda>x y. \<exists>a. lstep a x y"
  "\<lambda>ls. (conns_ok ls \<and> control_ok ls) \<and> ls_stop ls = Stop_Returned \<and> ls_conns ls = m" for m
  using listening.kept returned_step by unfold_locales blast

lemma all_finished:
  assumes "conns_ok ls" and "control_ok ls" and "ls_stop ls = Stop_Returned"
  shows "ls_open ls = {} \<and> ls_registered ls = {} \<and> ls_cleaned ls = dom (ls_conns ls)"
proof -
  have "c \<notin> ls_open ls \<and> c \<notin> ls_registered ls \<and> (c \<in> ls_cleaned ls \<longleftrightarrow> ls_conns ls c \<noteq> None)" for c
  proof -
    have c: "conn_ok ls c" using assms(1) by (simp add: conns_ok_def)
    have "p = Finished" if "ls_conns ls c = Some p" for p using assms(2,3) that by (simp add: control_ok_def)
    with c show ?thesis by (cases "ls_conns ls c") (simp_all add: conn_ok_def)
  qed
  then show ?thesis by blast
qed

section \<open>How long \<open>Stop\<close> waits\<close>

text \<open>
  While \<open>Stop\<close> waits, no goroutine goes back: each can make at most four more steps by itself, and
  one that waits for a setup response on an open socket makes none.
\<close>

primrec effort :: "conn_phase \<Rightarrow> nat" where
  "effort Spawned = 4"
| "effort Setup = 3"
| "effort Checking = 3"
| "effort Reading = 4"
| "effort Cleaning = 2"
| "effort Unlisted = 1"
| "effort Finished = 0"

primrec accept_effort :: "accept_phase \<Rightarrow> nat" where
  "accept_effort Accept_Off = 0"
| "accept_effort Accept_Check = 1"
| "accept_effort Accept_Wait = 2"
| "accept_effort Accept_Done = 0"

definition effort_left :: "listener \<Rightarrow> nat" where
  "effort_left ls = (\<Sum>c \<in> dom (ls_conns ls). effort (the (ls_conns ls c))) + accept_effort (ls_accept ls) +
     (if ls_stop ls = Stop_Waiting then 1 else 0)"

definition no_silent_setup :: "listener \<Rightarrow> bool" where
  "no_silent_setup ls \<longleftrightarrow> (\<forall>c. ls_conns ls c \<noteq> Some Spawned \<and> (ls_conns ls c = Some Setup \<longrightarrow> c \<notin> ls_open ls))"

definition winding_down :: "listener \<Rightarrow> bool" where
  "winding_down ls \<longleftrightarrow> ls_stop ls \<in> {Stop_Waiting, Stop_Returned} \<and> ls_stopChan ls \<and> finite (dom (ls_conns ls)) \<and> no_silent_setup ls"

lemma effort_le: "effort p \<le> 4"
  by (cases p) simp_all

lemma sum_moved:
  assumes "finite (dom m)" and "m c = Some p" and "effort q < effort p"
  shows "(\<Sum>d \<in> dom (m(c \<mapsto> q)). effort (the ((m(c \<mapsto> q)) d))) < (\<Sum>d \<in> dom m. effort (the (m d)))"
proof -
  have d: "dom (m(c \<mapsto> q)) = dom m" "c \<in> dom m" using assms(2) by auto
  show ?thesis unfolding d(1) using assms d(2) by (intro sum_strict_mono_ex1) auto
qed

lemma own_step:
  assumes "lstep Own ls ls'" and "winding_down ls"
  shows "effort_left ls' < effort_left ls \<and> winding_down ls'"
proof -
  have move: "effort_left (x\<lparr>ls_conns := (ls_conns ls)(c \<mapsto> q)\<rparr>) < effort_left ls"
    if "ls_conns ls c = Some p" "effort q < effort p" "ls_accept x = ls_accept ls" "ls_stop x = ls_stop ls" for x c p q
    using sum_moved [of "ls_conns ls" c p q] that assms(2) by (simp add: effort_left_def winding_down_def)
  show ?thesis
    using assms(1)
  proof (cases rule: lstep.cases)
    case stop_return
    then show ?thesis using assms(2) by (simp add: effort_left_def winding_down_def no_silent_setup_def)
  next
    case check
    then show ?thesis using assms(2)
      by (simp add: effort_left_def winding_down_def no_silent_setup_def accept_check_def told_to_stop_def)
  next
    case no_connection
    then show ?thesis using assms(2) by (simp add: effort_left_def winding_down_def no_silent_setup_def accept_error_def)
  next
    case (setup_closed c)
    then show ?thesis using move assms(2) by (auto simp: to_phase_def winding_down_def no_silent_setup_def)
  next
    case (loop c)
    then show ?thesis
      using move assms(2) by (auto simp: loop_check_def told_to_stop_def to_phase_def winding_down_def no_silent_setup_def)
  next
    case (timed_out c idle)
    then show ?thesis
      using move assms(2) by (auto simp: read_timeout_def to_phase_def winding_down_def no_silent_setup_def)
  next
    case (read_closed c)
    then show ?thesis using move assms(2) by (auto simp: to_phase_def winding_down_def no_silent_setup_def)
  next
    case (cleaned c)
    then show ?thesis using move assms(2) by (auto simp: unregister_def to_phase_def winding_down_def no_silent_setup_def)
  next
    case (finished c)
    then show ?thesis
      using move assms(2) by (auto simp: finish_connection_def to_phase_def winding_down_def no_silent_setup_def)
  qed (use assms(2) in \<open>auto simp: winding_down_def no_silent_setup_def\<close>)
qed

lemma own_progress:
  assumes "winding_down ls" and "ls_stop ls = Stop_Waiting"
  shows "\<exists>ls'. lstep Own ls ls'"
proof (cases "all_done ls")
  case True
  then show ?thesis using lstep.stop_return assms(2) by blast
next
  case False
  then consider "ls_accept ls = Accept_Check" | "ls_accept ls = Accept_Wait" | c p where "ls_conns ls c = Some p" "p \<noteq> Finished"
    by (cases "ls_accept ls") (auto simp: all_done_def ran_def)
  then show ?thesis
  proof cases
    case (3 c p)
    have n: "p \<noteq> Spawned" "p = Setup \<longrightarrow> c \<notin> ls_open ls"
      using assms(1) 3(1) by (auto simp: winding_down_def no_silent_setup_def)
    show ?thesis
      by (cases p) (use 3 n in \<open>blast intro: lstep.setup_closed lstep.loop lstep.timed_out lstep.cleaned lstep.finished\<close>)+
  qed (blast intro: lstep.check lstep.no_connection)+
qed

lemma own_steps_bounded:
  "(lstep Own ^^ n) ls ls' \<Longrightarrow> winding_down ls \<Longrightarrow> effort_left ls' + n \<le> effort_left ls \<and> winding_down ls'"
proof (induction n arbitrary: ls')
  case (Suc n)
  then obtain y where "(lstep Own ^^ n) ls y" "lstep Own y ls'" by auto
  with Suc.IH [of y] Suc.prems(2) own_step [of y ls'] show ?case by fastforce
qed simp

lemma own_run_returns:
  assumes "winding_down ls"
  shows "\<exists>ls'. lrun (\<lambda>a. a = Own) ls ls' \<and> ls_stop ls' = Stop_Returned"
  using assms
proof (induction "effort_left ls" arbitrary: ls rule: less_induct)
  case less
  show ?case
  proof (cases "ls_stop ls = Stop_Waiting")
    case True
    then obtain y where y: "lstep Own ls y" using own_progress less(2) by blast
    then obtain ls' where "lrun (\<lambda>a. a = Own) y ls'" "ls_stop ls' = Stop_Returned"
      using own_step less by blast
    then show ?thesis using y unfolding lrun_def by (blast intro: converse_rtranclp_into_rtranclp)
  next
    case False
    then have "ls_stop ls = Stop_Returned" using less(2) by (auto simp: winding_down_def)
    then show ?thesis using lrun_refl by blast
  qed
qed

lemma effort_bound:
  assumes "finite (dom m)"
  shows "(\<Sum>c \<in> dom m. effort (the (m c))) \<le> 4 * card (dom m)"
  using sum_bounded_above [of "dom m" "\<lambda>c. effort (the (m c))" 4] effort_le by simp

section \<open>A silent peer\<close>

lemma silent_step:
  assumes "lstep a ls ls'" and "a \<noteq> Peer c" and "ls_conns ls c = Some Setup" and "c \<in> ls_open ls"
    and "ls_stop ls \<in> {Stop_Waiting, Stop_Idle}"
  shows "ls_stop ls = Stop_Idle \<and> ls_stop ls' = Stop_Signalled \<or>
    ls_stop ls' = ls_stop ls \<and> ls_conns ls' c = Some Setup \<and> c \<in> ls_open ls'"
  using assms
proof (induction rule: lstep.induct)
  case (stop_return ls)
  then show ?case by (auto simp: all_done_def ran_def)
qed (auto simp: listener_ops split: sum.splits if_splits)

lemma signalled_stays:
  assumes "lrun who ls ls'" and "ls_stop ls \<noteq> Stop_Idle"
  shows "ls_stop ls' \<noteq> Stop_Idle"
proof (rule lrun_invariant [where P = "\<lambda>x. ls_stop x \<noteq> Stop_Idle", OF assms])
  fix a x y assume "lstep a x y" "ls_stop x \<noteq> Stop_Idle"
  then show "ls_stop y \<noteq> Stop_Idle"
    by (induction rule: lstep.induct) (auto simp: listener_ops split: sum.splits)
qed

section \<open>Properties\<close>

text \<open>C12: what \<open>Stop\<close> leaves behind. In whatever order the caller, the peers and the goroutines take
  their steps: when \<open>Stop\<close> has returned, the goroutine of every connection that was ever accepted has ended, its
  socket is closed and its \<open>cleanupDone\<close> is signalled, the server's map of connections is empty, and nothing
  that happens later, a late \<open>Start\<close> included, makes it serve another one.\<close>

theorem stop_quiesces:
  assumes "lrun (\<lambda>a. True) fresh_listener ls" and "ls_stop ls = Stop_Returned" and "lrun (\<lambda>a. True) ls ls'"
  shows "ls_conns ls' = ls_conns ls \<and> (\<forall>p \<in> ran (ls_conns ls'). p = Finished) \<and> ls_open ls' = {} \<and>
    ls_registered ls' = {} \<and> ls_cleaned ls' = dom (ls_conns ls') \<and> ls_accept ls' \<noteq> Accept_Wait"
proof -
  have ok: "conns_ok ls" "control_ok ls" using reachable_ok [OF assms(1)] by simp_all
  have "conns_ok ls' \<and> control_ok ls'" using reachable_ok lrun_then [OF assms(1,3)] by blast
  moreover have "ls_stop ls' = Stop_Returned \<and> ls_conns ls' = ls_conns ls"
    using returned.along [of ls ls' "ls_conns ls"] assms(2,3) ok by (simp add: lrun_def)
  ultimately have f: "conns_ok ls'" "control_ok ls'" "ls_stop ls' = Stop_Returned" "ls_conns ls' = ls_conns ls" by simp_all
  with all_finished [OF f(1-3)] show ?thesis by (auto simp: control_ok_def ran_def)
qed


text \<open>C27: a peer that connects and says nothing. The read of the setup response has no deadline, so that the
  connection stays in the server's map with an open socket for as long as its peer is silent and \<open>Stop\<close> is not called; and when the connection is
  registered only after \<open>Stop\<close> has closed the connections it found, \<open>Stop\<close> never returns while the peer is silent,
  whatever anybody else does.\<close>

theorem silent_peer:
  assumes "lrun (\<lambda>a. True) fresh_listener ls" and "ls_conns ls c = Some Setup" and "c \<in> ls_open ls"
    and "lrun (\<lambda>a. a \<noteq> Peer c) ls ls'" and "ls_stop ls = Stop_Waiting \<or> ls_stop ls' = Stop_Idle"
  shows "ls_stop ls' = ls_stop ls \<and> ls_conns ls' c = Some Setup \<and> c \<in> ls_open ls' \<and> c \<in> ls_registered ls' \<and>
    WaitForConnectionCleanup c ls' = Cleanup_of c \<and> \<not> signalled (Cleanup_of c) ls'"
proof -
  let ?S = "\<lambda>x. ls_stop x = ls_stop ls \<and> ls_conns x c = Some Setup \<and> c \<in> ls_open x"
  have i: "ls_stop ls \<in> {Stop_Waiting, Stop_Idle}" using assms(5) signalled_stays [OF assms(4)] by auto
  have "(ls_stop ls = Stop_Idle \<and> ls_stop ls' \<noteq> Stop_Idle) \<or> ?S ls'"
  proof (rule lrun_invariant [OF assms(4)])
    fix a x y
    assume a: "a \<noteq> Peer c" "lstep a x y" "(ls_stop ls = Stop_Idle \<and> ls_stop x \<noteq> Stop_Idle) \<or> ?S x"
    show "(ls_stop ls = Stop_Idle \<and> ls_stop y \<noteq> Stop_Idle) \<or> ?S y"
      using a(3)
    proof
      assume "ls_stop ls = Stop_Idle \<and> ls_stop x \<noteq> Stop_Idle"
      moreover have "lrun (\<lambda>a. True) x y" using a(2) by (blast intro: lrun_step [OF lrun_refl])
      ultimately show ?thesis using signalled_stays by blast
    next
      assume "?S x"
      then show ?thesis using silent_step [OF a(2,1)] i by auto
    qed
  qed (use assms(2,3) in simp)
  then have s: "?S ls'" using assms(5) by auto
  have "lrun (\<lambda>a. True) fresh_listener ls'"
    using assms(1,4) by (rule lrun_then)
  then have "conn_ok ls' c" using reachable_ok by (simp add: conns_ok_def)
  with s show ?thesis by (simp add: conn_ok_def WaitForConnectionCleanup_def)
qed

section \<open>Concrete runs\<close>

text \<open>A server that has accepted a connection; the call of \<open>Stop\<close> up to its wait.\<close>

definition demo_accepted :: listener where
  "demo_accepted = accept_connection 0 (accept_check (snd (Server_Start (Inr ()) fresh_listener)))"

definition stop_all :: "listener \<Rightarrow> listener" where
  "stop_all ls = stop_connections ((stop_listener (snd (stop_signal ls)))\<lparr>ls_stop := Stop_Sessions_Stopped\<rparr>)"

lemma demo_accepted_run: "lrun (\<lambda>a. True) fresh_listener demo_accepted"
proof -
  let ?l = "snd (Server_Start (Inr ()) fresh_listener)"
  have 1: "lstep Caller fresh_listener ?l" by (rule lstep.started) (simp add: fresh_listener_def)
  have 2: "lstep Own ?l (accept_check ?l)" by (rule lstep.check) (simp add: Server_Start_def)
  have 3: "lstep (Peer 0) (accept_check ?l) demo_accepted"
    unfolding demo_accepted_def
    by (rule lstep.accepted) (simp_all add: Server_Start_def accept_check_def told_to_stop_def fresh_listener_def)
  show ?thesis by (rule lrun_next [OF lrun_next [OF lrun_next [OF lrun_refl 1] 2] 3])
qed

lemma stop_all_run:
  assumes "ls_stop ls = Stop_Idle" and "\<not> ls_stopChan ls"
  shows "lrun (\<lambda>a. True) ls (stop_all ls)"
proof -
  let ?a = "snd (stop_signal ls)"
  let ?b = "stop_listener ?a"
  let ?c = "?b\<lparr>ls_stop := Stop_Sessions_Stopped\<rparr>"
  have 1: "lstep Caller ls ?a" using assms by (intro lstep.stop) (simp_all add: stop_signal_def)
  have 2: "lstep Own ?a ?b" using assms by (intro lstep.stop_listening) (simp add: stop_signal_def)
  have 3: "lstep Own ?b ?c" by (rule lstep.stop_sessions) (simp add: stop_listener_def)
  have 4: "lstep Own ?c (stop_all ls)" unfolding stop_all_def by (rule lstep.stop_connecting) simp
  show ?thesis by (rule lrun_next [OF lrun_next [OF lrun_next [OF lrun_next [OF lrun_refl 1] 2] 3] 4])
qed

lemmas demo_ops = demo_accepted_def stop_all_def fresh_listener_def listener_ops told_to_stop_def

lemma demo_stopping:
  "lrun (\<lambda>a. True) fresh_listener (stop_all (register 0 demo_accepted))"
  "lrun (\<lambda>a. True) fresh_listener (register 0 (stop_all demo_accepted))"
proof -
  have "lrun (\<lambda>a. True) fresh_listener (register 0 demo_accepted)"
    by (rule lrun_next [OF demo_accepted_run lstep.registered]) (simp add: demo_ops)
  moreover have "lrun (\<lambda>a. True) (register 0 demo_accepted) (stop_all (register 0 demo_accepted))"
    by (rule stop_all_run) (simp_all add: demo_ops)
  ultimately show "lrun (\<lambda>a. True) fresh_listener (stop_all (register 0 demo_accepted))" by (rule lrun_then)
  have "lrun (\<lambda>a. True) demo_accepted (stop_all demo_accepted)" by (rule stop_all_run) (simp_all add: demo_ops)
  then have "lrun (\<lambda>a. True) fresh_listener (stop_all demo_accepted)" using demo_accepted_run lrun_then by blast
  then show "lrun (\<lambda>a. True) fresh_listener (register 0 (stop_all demo_accepted))"
    by (rule lrun_next [OF _ lstep.registered]) (simp add: demo_ops)
qed

lemma demo_returned:
  "\<exists>ls. lrun (\<lambda>a. True) fresh_listener ls \<and> ls_stop ls = Stop_Returned \<and> ls_conns ls = [0 \<mapsto> Finished]"
proof -
  let ?a = "stop_all (register 0 demo_accepted)"
  let ?b = "to_phase 0 Cleaning ?a"
  let ?c = "finish_connection 0 (unregister 0 ?b)"
  let ?d = "accept_check ?c"
  have 1: "lstep Own ?a ?b" by (rule lstep.setup_closed) (simp_all add: demo_ops)
  have 2: "lstep Own ?b (unregister 0 ?b)" by (rule lstep.cleaned) (simp add: to_phase_def)
  have 3: "lstep Own (unregister 0 ?b) ?c" by (rule lstep.finished) (simp add: unregister_def to_phase_def)
  have 4: "lstep Own ?c ?d" by (rule lstep.check) (simp add: demo_ops)
  have 5: "lstep Own ?d (?d\<lparr>ls_stop := Stop_Returned\<rparr>)"
    by (rule lstep.stop_return) (simp_all add: demo_ops all_done_def)
  have "lrun (\<lambda>a. True) fresh_listener (?d\<lparr>ls_stop := Stop_Returned\<rparr>)"
    by (rule lrun_next [OF lrun_next [OF lrun_next [OF lrun_next [OF lrun_next [OF demo_stopping(1) 1] 2] 3] 4] 5])
  moreover have "ls_conns ?d = [0 \<mapsto> Finished]" by (simp add: demo_ops)
  ultimately show ?thesis by (intro exI [of _ "?d\<lparr>ls_stop := Stop_Returned\<rparr>"]) simp
qed

text \<open>One connection, registered before \<open>Stop\<close>.\<close>

theorem stop_quiesces_witness:
  "\<exists>ls. lrun (\<lambda>a. True) fresh_listener ls \<and> ls_stop ls = Stop_Returned \<and> ls_cleaned ls = {0} \<and> ls_open ls = {}"
proof -
  obtain ls where l: "lrun (\<lambda>a. True) fresh_listener ls" "ls_stop ls = Stop_Returned" "ls_conns ls = [0 \<mapsto> Finished]"
    using demo_returned by blast
  with stop_quiesces [OF l(1,2) lrun_refl] show ?thesis by auto
qed


text \<open>The same connection, registered after \<open>Stop\<close> has closed the connections.\<close>

theorem silent_peer_witness:
  "\<exists>ls. lrun (\<lambda>a. True) fresh_listener ls \<and> ls_stop ls = Stop_Waiting \<and> ls_conns ls 0 = Some Setup \<and> 0 \<in> ls_registered ls"
proof -
  let ?a = "register 0 (stop_all demo_accepted)"
  have a: "ls_stop ?a = Stop_Waiting" "ls_conns ?a 0 = Some Setup" "0 \<in> ls_open ?a" by (simp_all add: demo_ops)
  have "0 \<in> ls_registered ?a"
    using silent_peer [OF demo_stopping(2) a(2,3) lrun_refl disjI1 [OF a(1)]] by (elim conjE)
  with a demo_stopping(2) show ?thesis by (intro exI [of _ ?a] conjI)
qed

end
