(* ===== verification/Spec2Isabelle.thy ===== *)
theory Spec2Isabelle
  imports Prelude Common_Types Timestamp Aes128 Sha1_Hmac Crypto Control_Messages Test_Messages Port_Manager Reflector Server_Safety Packet_Round Start_Stop Socket_Options Server_Listener
begin

text \<open>
  A model of twamp_nc, an implementation in Go of the Two-Way Active Measurement Protocol (RFC 5357,
  with the security modes of RFC 4656, the mixed modes of RFC 5618, the individual session control of RFC 5938
  and the reflect-octets and symmetrical-size modes of RFC 6038), with the theorems that
  make it correct and those that show where it is not.

  \<^bold>\<open>The program.\<close> A client (\<open>src/client\<close>) opens a TCP connection to a server (\<open>src/server\<close>), the two agree
  on a mode and keys, the client requests test sessions and starts them, its sender sends UDP test packets, the
  reflector of the session answers each with its own timestamps, and the sender computes
  delays and losses. Packages shared by both ends: \<open>src/common\<close> (modes, timestamps, buffers), \<open>src/crypto\<close>
  (keys, tokens, HMAC, the CBC stream of the control channel, test packet encryption) and \<open>src/messages\<close> (the bytes of
  every message).

  \<^bold>\<open>The theories\<close>, in the order in which they build on each other.

  \<^item> \<open>Prelude\<close>: machine integers as words, byte strings, Go's slices and \<open>copy\<close>, errors as values (\<open>goerr\<close>, with
    \<open>Panic\<close> for a run-time panic; a fallible function returns \<open>'a res = goerr + 'a\<close>), big-endian reading and writing, the rule
    collection \<open>wire\<close>.
  \<^item> \<open>Common_Types\<close>: \<open>src/common/types.go\<close> and \<open>hmac.go\<close>. What \<open>ResolveMixedModes\<close> accepts and returns.
  \<^item> \<open>Timestamp\<close>: \<open>src/common/timestamp.go\<close>, with the rounding of its \<open>float64\<close> products. The exact error of the conversion there and back,
    differences across the era rollover.
  \<^item> \<open>Aes128\<close>, \<open>Sha1_Hmac\<close>: the part of Go's standard library that the secure modes rest on, executable. The locale
    \<open>block_cipher\<close> (what CBC needs) is interpreted on AES.
  \<^item> \<open>Crypto\<close>: \<open>src/crypto\<close>. When a token is accepted, the two ends of a CBC stream, encryption
    of test packets both ways, the in-place variants against the copying ones.
  \<^item> \<open>Control_Messages\<close>: \<open>src/messages/control.go\<close>, \<open>control_rfc5938.go\<close>. One \<open>record\<close>, one \<open>_Marshal\<close> and one \<open>_Unmarshal\<close> per
    message. The locales \<open>codec\<close> and \<open>wire_codec\<close> state what a codec promises (what is accepted is exactly what is written for a well-formed message); every
    message interprets one of them.
  \<^item> \<open>Test_Messages\<close>: \<open>src/messages/test.go\<close>, \<open>test_rfc6038.go\<close>, \<open>padding.go\<close>, \<open>src/common/buffer_pool.go\<close>. The same for test packets, with
    the panics of slices that do not fit the 2048-byte buffers.
  \<^item> \<open>Port_Manager\<close>: \<open>portManager\<close> of \<open>src/server/server.go\<close>. The first-fit search, and when it does not end; the locale \<open>pool\<close> is what the server
    relies on.
  \<^item> \<open>Reflector\<close>: a server session and the path of a test packet (\<open>processAndReflect\<close>, one iteration of \<open>reflectPackets\<close>): authentication,
    replies in each mode, the policy on HMAC failures.
  \<^item> \<open>Server_Sessions\<close>, \<open>Server_Access\<close>, \<open>Server_Control\<close>: the state of the server, \<open>startSession\<close>, \<open>stopSession\<close>, the timers, \<open>NewServer\<close>,
    the access check, the greeting, the setup, reading commands, a handler per command, replies.
  \<^item> \<open>Server_Setup\<close>, \<open>Server_Channel\<close>, \<open>Server_Requests\<close>, \<open>Server_Service\<close>: who gets through the setup and with which keys, which bytes are a command, what a
    request must pass and what it gets, what a reply tells the holder of the keys.
  \<^item> \<open>Server_System\<close>, \<open>Server_Runs\<close>, \<open>Server_Promises\<close>, \<open>Server_Safety\<close>: the whole server as the step relation \<open>sys_step\<close> on connections,
    reflectors and timers that interleave in any order. Invariants of all runs by the locales \<open>preserved\<close>, \<open>invariant\<close>, \<open>system_preserved\<close> and
    \<open>system_invariant\<close>, each interpreted for the references, the keys, the ports, lost sessions and the absence of panics; the refinement of an abstract
    registry of port reservations (\<open>registry_step\<close>); the runs that leak a port or crash.
  \<^item> \<open>Server_Listener\<close>: \<open>Start\<close>, the accept loop, the goroutine of a connection and \<open>Stop\<close> as a step relation \<open>lstep\<close> of who waits for
    whom: what \<open>Stop\<close> leaves behind, when it returns, who can keep it from returning.
  \<^item> \<open>Client_Session\<close>: \<open>src/client/test_session.go\<close>. Sending, receiving, the counters and statistics.
  \<^item> \<open>Client_Control\<close>, \<open>Client_Promises\<close>: \<open>src/client/client.go\<close>. Each exported operation, the invariant of the client's map in every use
    of the library (locale \<open>client_invariant\<close>), stopping.
  \<^item> \<open>End_To_End\<close>, \<open>Start_Stop\<close>, \<open>Packet_Round\<close>, \<open>Socket_Options\<close>: client and server against each other. The bytes that one writes are those
    that the other reads: handshake, request, start, stop, a test packet and its reply, and the DSCP on its way from the
    client's configuration to the options of both sockets (\<open>src/common/dscp.go\<close>, \<open>dscp_linux.go\<close>, \<open>ttl_unix.go\<close>).

  \<^bold>\<open>State and effects.\<close> A struct is a record; a pointer to a session is an index into a heap (\<open>sv_heap\<close> of the server, \<open>cl_heap\<close> of the client), as
  sessions are shared between the tables, the connections, the timers and the goroutines. Operations take the
  state and return it. A connection is the list of bytes it will deliver (\<open>cc_in\<close>, \<open>cl_in\<close>) and the list of what was written (\<open>cc_out\<close>,
  \<open>cl_out\<close>). A channel or socket variable is nil, open or closed (\<open>handle\<close>), so that closing twice is the panic it is in Go. The order in which Go ranges over
  a map is an argument, and so are the clock, the random source, PBKDF2, the resolver, \<open>net.ParseIP\<close>,
  \<open>net.ParseCIDR\<close>, the interface addresses and the results of system calls: what the code does not decide. The records \<open>control_env\<close> and
  \<open>client_env\<close> collect them; \<open>env_ok\<close> and \<open>client_env_ok\<close> say that the random source gives as many bytes as asked for and that writes succeed, where a theorem needs it.

  \<^bold>\<open>Steps.\<close> Every handler, round of a reflector, timer and clean-up is one step. The locks of the code make it so
  except in these places: an individual request checks that its identifier is free and enters it under
  separate locks; \<open>startSession\<close> and \<open>stopSession\<close> test and set the activity flag of a session in two operations;
  \<open>processAndReflect\<close> uses the socket of its session without the session's lock; \<open>Stop\<close> copies the table of sessions and stops them
  one by one. The finer steps of \<open>Stop\<close> and of a connection's begin and end are those of \<open>Server_Listener\<close>.

  \<^bold>\<open>Bounds.\<close> No definition has fuel. The one loop that may not end, the port search with 65535 as its last
  port, is a partial function whose value \<open>None\<close> is running for ever; handlers that call it
  return an option. Test packets travel in buffers of 2048 bytes: a request may ask for at most that padding less the headers, a run without oversized datagrams
  (\<open>tame\<close>, at most 1984 bytes) never panics, and the round trip of a packet is shown up to 1936 bytes of padding, for which every mode's packet and reply fit. Session counts on the wire are 32
  bits wide, so the theorems on stopping assume fewer than 2^32 sessions. \<open>calm\<close> runs are those in which no session is started again after it was stopped and
  no random identifier repeats; \<open>restart_crashes\<close> shows why the first is needed.

  \<^bold>\<open>Properties.\<close> The text before each theorem that carries a number C1, C2, and so on states it in words; the most important come first. Each theorem with hypotheses has
  a witness after it, on concrete values.

  \<^bold>\<open>Not modelled.\<close> Logging and metrics (\<open>src/logging\<close>, \<open>src/metrics\<close>): nothing in the protocol reads them. The command-line examples, the helpers of the
  tests and the integration test support (\<open>src/examples\<close>, \<open>src/internal\<close>, \<open>src/test\<close>). The variants of the socket
  options for Windows and for unknown systems. The wait of a client's \<open>Stop\<close> for its receiver goroutine, and of the server's \<open>Stop\<close> for its reflectors, which end within one read
  timeout. Format arguments of error messages, and the texts of \<open>Error\<close> methods. Timing channels: the constant-time comparison is equality.
\<close>

end
